(* ===== verification/Prelude.thy ===== *)
theory Prelude
  imports Main "HOL-Library.Word" "HOL-Library.Sublist"
begin

text \<open>
  Shared vocabulary of the development: byte strings, the two line terminators, the
  collections of simp rules that the component theories extend, and generic lemmas on
  lists that several components use.

  A HOL \<open>char\<close> is exactly a value of 8 bits, so \<open>string\<close> (a list of \<open>char\<close>) models both
  Rust's \<open>[u8]\<close>/\<open>Bytes\<close> and the UTF-8 bytes of a Rust \<open>str\<close>; every length and index below
  counts bytes, as the source does.
\<close>

section \<open>Vocabulary\<close>

type_synonym byte = char
type_synonym bytes = string
type_synonym str = string

text \<open>The two line terminator bytes, \<open>b'\n'\<close> and \<open>b'\r'\<close>.\<close>

abbreviation LF :: byte where "LF \<equiv> CHR 0x0A"
abbreviation CR :: byte where "CR \<equiv> CHR 0x0D"

text \<open>Unsigned 64-bit integers: \<open>u64\<close>, and \<open>usize\<close> on the 64-bit targets of the Dockerfile.\<close>

type_synonym u64 = "64 word"
type_synonym usize = "64 word"

section \<open>Collections of rules\<close>

named_theorems rust_str \<open>facts about the modelled functions on strings\<close>
named_theorems header_simps \<open>facts about header maps\<close>
named_theorems writer_simps \<open>facts about the downstream writer\<close>
named_theorems client_simps \<open>facts about the client side parser of event streams\<close>
named_theorems task_simps \<open>facts about the bridging tasks\<close>

section \<open>Lists\<close>

lemma last_append_Cons [simp]: "last (xs @ y # ys) = last (y # ys)"
  by (simp add: last_append)

lemma takeWhile_first:
  "(\<forall>x \<in> set xs. P x) \<Longrightarrow> \<not> P y \<Longrightarrow> takeWhile P (xs @ y # ys) = xs"
  by (induction xs) auto

lemma dropWhile_first:
  "(\<forall>x \<in> set xs. P x) \<Longrightarrow> \<not> P y \<Longrightarrow> dropWhile P (xs @ y # ys) = y # ys"
  by (induction xs) auto

end
