(* ===== verification/Rust_Str.thy ===== *)
theory Rust_Str
  imports Prelude
begin

text \<open>
  The functions of Rust's standard library on strings that the source uses: splitting on a
  character, suffix tests, trimming, ASCII case, UTF-8 validation, character boundaries and
  decimal integers. Strings are lists of bytes (UTF-8), as in Rust.
\<close>

section \<open>Splitting\<close>

text \<open>\<open>str::split(c)\<close> for one ASCII character: the segments between the separators; an empty
  string has the one segment \<open>""\<close>.\<close>

fun split_on :: "char \<Rightarrow> str \<Rightarrow> str list" where
  "split_on c [] = [[]]"
| "split_on c (x # xs) =
     (if x = c then [] # split_on c xs
      else (case split_on c xs of [] \<Rightarrow> [[x]] | s # ss \<Rightarrow> (x # s) # ss))"

text \<open>\<open>str::split_once(c)\<close>: the parts before and after the first separator.\<close>

definition split_once :: "char \<Rightarrow> str \<Rightarrow> (str \<times> str) option" where
  "split_once c s =
     (case dropWhile (\<lambda>x. x \<noteq> c) s of [] \<Rightarrow> None | _ # r \<Rightarrow> Some (takeWhile (\<lambda>x. x \<noteq> c) s, r))"

text \<open>\<open>str::rsplit(c).next()\<close>: the last segment; \<open>rsplit\<close> always yields at least one.\<close>

definition rsplit_next :: "char \<Rightarrow> str \<Rightarrow> str option" where
  "rsplit_next c s = (case rev (split_on c s) of [] \<Rightarrow> None | x # _ \<Rightarrow> Some x)"

lemma split_on_not_Nil [simp]: "split_on c s \<noteq> []"
  by (cases s) (auto split: list.splits)

lemma split_on_no_sep [rust_str]: "c \<notin> set s \<Longrightarrow> split_on c s = [s]"
  by (induction s) auto

lemma split_on_append_sep [rust_str]:
  "split_on c (xs @ c # ys) = split_on c xs @ split_on c ys"
proof (induction xs)
  case Nil
  then show ?case by simp
next
  case (Cons x xs)
  show ?case
  proof (cases "split_on c xs")
    case Nil
    then show ?thesis by simp
  next
    case (Cons s ss)
    with Cons.IH show ?thesis by auto
  qed
qed

lemma split_on_segments: "s \<in> set (split_on c xs) \<Longrightarrow> c \<notin> set s"
  by (induction xs arbitrary: s) (auto split: list.splits if_splits)

fun join_with :: "char \<Rightarrow> str list \<Rightarrow> str" where
  "join_with c [] = []"
| "join_with c [s] = s"
| "join_with c (s # t # ts) = s @ c # join_with c (t # ts)"

lemma join_with_Cons: "ts \<noteq> [] \<Longrightarrow> join_with c (s # ts) = s @ c # join_with c ts"
  by (cases ts) auto

lemma join_split_on: "join_with c (split_on c s) = s"
proof (induction s)
  case Nil
  then show ?case by simp
next
  case (Cons x xs)
  show ?case
  proof (cases "split_on c xs")
    case Nil
    then show ?thesis by simp
  next
    case (Cons t ts)
    with Cons.IH show ?thesis by (cases ts) auto
  qed
qed

lemma split_on_join: "ss \<noteq> [] \<Longrightarrow> \<forall>s \<in> set ss. c \<notin> set s \<Longrightarrow> split_on c (join_with c ss) = ss"
  by (induction c ss rule: join_with.induct) (auto simp: rust_str)

lemma rsplit_next_last [rust_str]: "rsplit_next c s = Some (last (split_on c s))"
proof -
  have "rev (split_on c s) \<noteq> []" by simp
  then obtain t ts where "rev (split_on c s) = t # ts" by (cases "rev (split_on c s)") auto
  moreover from this have "last (split_on c s) = t" by (metis list.sel(1) hd_rev)
  ultimately show ?thesis by (simp add: rsplit_next_def)
qed

lemma split_once_no_sep [rust_str]: "c \<notin> set s \<Longrightarrow> split_once c s = None"
proof -
  assume "c \<notin> set s"
  then have none: "dropWhile (\<lambda>x. x \<noteq> c) s = []" by auto
  show ?thesis unfolding split_once_def none by simp
qed

lemma split_once_sep [rust_str]: "c \<notin> set k \<Longrightarrow> split_once c (k @ c # v) = Some (k, v)"
proof -
  assume "c \<notin> set k"
  then have "\<forall>x \<in> set k. x \<noteq> c" by auto
  then have "dropWhile (\<lambda>x. x \<noteq> c) (k @ c # v) = c # v" "takeWhile (\<lambda>x. x \<noteq> c) (k @ c # v) = k"
    by (simp_all add: dropWhile_first takeWhile_first)
  then show ?thesis by (simp add: split_once_def)
qed

lemma split_once_None_iff: "split_once c s = None \<longleftrightarrow> c \<notin> set s"
  using split_once_no_sep split_once_sep by (metis option.distinct(1) split_list_first)

lemma split_once_Some: "split_once c s = Some (k, v) \<longleftrightarrow> s = k @ c # v \<and> c \<notin> set k"

proof (cases "c \<in> set s")
  case True
  then obtain k' v' where s: "s = k' @ c # v'" "c \<notin> set k'" by (meson split_list_first)
  then have some: "split_once c s = Some (k', v')" by (simp add: split_once_sep)
  show ?thesis
  proof
    assume "split_once c s = Some (k, v)"
    with some s show "s = k @ c # v \<and> c \<notin> set k" by simp
  next
    assume "s = k @ c # v \<and> c \<notin> set k"
    then show "split_once c s = Some (k, v)" by (simp add: split_once_sep)
  qed
next
  case False
  then show ?thesis by (auto simp: split_once_no_sep)
qed

section \<open>Suffixes and ASCII case\<close>

text \<open>\<open>str::ends_with\<close>.\<close>

definition ends_with :: "str \<Rightarrow> str \<Rightarrow> bool" where
  "ends_with s suf \<longleftrightarrow> drop (length s - length suf) s = suf"

lemma ends_with_iff: "ends_with s suf \<longleftrightarrow> (\<exists>p. s = p @ suf)"
proof
  assume "ends_with s suf"
  then have "s = take (length s - length suf) s @ suf"
    unfolding ends_with_def by (metis append_take_drop_id)
  then show "\<exists>p. s = p @ suf" by blast
next
  assume "\<exists>p. s = p @ suf"
  then show "ends_with s suf" by (auto simp: ends_with_def)
qed

lemma ends_with_append [rust_str]: "ends_with (p @ suf) suf"
  by (auto simp: ends_with_iff)

text \<open>The value of a byte.\<close>

abbreviation byte_val :: "byte \<Rightarrow> nat" where "byte_val c \<equiv> of_char c"

text \<open>\<open>u8::to_ascii_lowercase\<close>, \<open>str::to_ascii_lowercase\<close> and \<open>str::eq_ignore_ascii_case\<close>.\<close>

definition to_ascii_lower :: "char \<Rightarrow> char" where
  "to_ascii_lower c =
     (if 65 \<le> byte_val c \<and> byte_val c \<le> 90 then char_of (byte_val c + 32) else c)"

definition to_ascii_lowercase :: "str \<Rightarrow> str" where
  "to_ascii_lowercase s = map to_ascii_lower s"

definition eq_ignore_ascii_case :: "str \<Rightarrow> str \<Rightarrow> bool" where
  "eq_ignore_ascii_case a b \<longleftrightarrow> map to_ascii_lower a = map to_ascii_lower b"

lemma byte_val_lt [simp]: "byte_val c < 256"
  by (metis nat_of_char_less_256)

lemma to_ascii_lower_val:
  "byte_val (to_ascii_lower c) =
     (if 65 \<le> byte_val c \<and> byte_val c \<le> 90 then byte_val c + 32 else byte_val c)"
  by (auto simp: to_ascii_lower_def)

lemma to_ascii_lower_idem [simp]: "to_ascii_lower (to_ascii_lower c) = to_ascii_lower c"
proof -
  have "\<not> (65 \<le> byte_val (to_ascii_lower c) \<and> byte_val (to_ascii_lower c) \<le> 90)"
    by (auto simp: to_ascii_lower_val)
  then show ?thesis by (metis to_ascii_lower_def)
qed

lemma to_ascii_lowercase_idem [simp]:
  "to_ascii_lowercase (to_ascii_lowercase s) = to_ascii_lowercase s"
  by (simp add: to_ascii_lowercase_def)

lemma eq_ignore_ascii_case_lower [simp]:
  "eq_ignore_ascii_case (to_ascii_lowercase a) b = eq_ignore_ascii_case a b"
  by (simp add: eq_ignore_ascii_case_def to_ascii_lowercase_def comp_def)

section \<open>UTF-8\<close>

text \<open>Continuation bytes, and \<open>utf8_char_width\<close> of \<open>core::str\<close>.\<close>

definition is_cont :: "byte \<Rightarrow> bool" where
  "is_cont c \<longleftrightarrow> 128 \<le> byte_val c \<and> byte_val c \<le> 191"

definition utf8_width :: "byte \<Rightarrow> nat" where
  "utf8_width a =
     (if byte_val a < 128 then 1
      else if 194 \<le> byte_val a \<and> byte_val a \<le> 223 then 2
      else if 224 \<le> byte_val a \<and> byte_val a \<le> 239 then 3
      else if 240 \<le> byte_val a \<and> byte_val a \<le> 244 then 4 else 0)"

text \<open>The well-formed encodings of one Unicode scalar value (no overlong forms, no surrogates,
  nothing above U+10FFFF).\<close>

fun utf8_char :: "bytes \<Rightarrow> bool" where
  "utf8_char [a] = (byte_val a < 128)"
| "utf8_char [a, b] = (194 \<le> byte_val a \<and> byte_val a \<le> 223 \<and> is_cont b)"
| "utf8_char [a, b, c] =
     (224 \<le> byte_val a \<and> byte_val a \<le> 239 \<and> is_cont b \<and> is_cont c \<and>
      (byte_val a = 224 \<longrightarrow> 160 \<le> byte_val b) \<and> (byte_val a = 237 \<longrightarrow> byte_val b \<le> 159))"
| "utf8_char [a, b, c, d] =
     (240 \<le> byte_val a \<and> byte_val a \<le> 244 \<and> is_cont b \<and> is_cont c \<and> is_cont d \<and>
      (byte_val a = 240 \<longrightarrow> 144 \<le> byte_val b) \<and> (byte_val a = 244 \<longrightarrow> byte_val b \<le> 143))"
| "utf8_char _ = False"

text \<open>\<open>std::str::from_utf8\<close> succeeds exactly on these byte strings.\<close>

fun utf8_valid :: "bytes \<Rightarrow> bool" where
  "utf8_valid [] = True"
| "utf8_valid (a # r) =
     (utf8_char (take (utf8_width a) (a # r)) \<and> utf8_valid (drop (utf8_width a - 1) r))"

text \<open>\<open>str::is_char_boundary\<close>.\<close>

definition is_char_boundary :: "str \<Rightarrow> nat \<Rightarrow> bool" where
  "is_char_boundary s i \<longleftrightarrow> i = 0 \<or> i = length s \<or> (i < length s \<and> \<not> is_cont (s ! i))"

lemma utf8_char_cases:
  assumes "utf8_char s"
  obtains (one) a where "s = [a]" | (two) a b where "s = [a, b]" "is_cont b"
  | (three) a b c where "s = [a, b, c]" "is_cont b" "is_cont c"
  | (four) a b c d where "s = [a, b, c, d]" "is_cont b" "is_cont c" "is_cont d"
  using assms by (cases s rule: utf8_char.cases) auto

lemma utf8_char_width: "utf8_char (a # t) \<Longrightarrow> utf8_width a = Suc (length t)"
  by (cases "a # t" rule: utf8_char.cases) (auto simp: utf8_width_def)

lemma utf8_char_not_Nil [simp]: "\<not> utf8_char []"
  by simp

lemma utf8_char_length_le4: "utf8_char c \<Longrightarrow> length c \<le> 4"
  by (erule utf8_char_cases) auto

lemma utf8_char_head: "utf8_char (a # t) \<Longrightarrow> \<not> is_cont a"
  by (cases "a # t" rule: utf8_char.cases) (auto simp: is_cont_def)

lemma utf8_char_tail: "utf8_char c \<Longrightarrow> 0 < i \<Longrightarrow> i < length c \<Longrightarrow> is_cont (c ! i)"
  by (erule utf8_char_cases) (auto simp: less_Suc_eq nth_Cons')

lemma utf8_valid_char_append [simp]: "utf8_char c \<Longrightarrow> utf8_valid (c @ s) = utf8_valid s"
proof -
  assume c: "utf8_char c"
  then obtain a t where "c = a # t" by (cases c) auto
  with c utf8_char_width [of a t] show ?thesis by simp
qed

lemma utf8_valid_char: "utf8_char c \<Longrightarrow> utf8_valid c"
  using utf8_valid_char_append [of c "[]"] by simp

lemma utf8_induct [consumes 1, case_names Nil Char]:
  assumes "utf8_valid s" and "P []"
    and step: "\<And>c s. utf8_char c \<Longrightarrow> utf8_valid s \<Longrightarrow> P s \<Longrightarrow> P (c @ s)"
  shows "P s"
  using assms(1)
proof (induction s rule: utf8_valid.induct)
  case 1
  show ?case by (rule assms(2))
next
  case (2 a r)
  let ?c = "take (utf8_width a) (a # r)"
  from 2 have c: "utf8_char ?c" and r: "utf8_valid (drop (utf8_width a - 1) r)"
    and ih: "P (drop (utf8_width a - 1) r)" by auto
  from c have "0 < utf8_width a" by (cases "utf8_width a") auto
  then have "a # r = ?c @ drop (utf8_width a - 1) r" by (cases "utf8_width a") auto
  with step [OF c r ih] show ?case by simp
qed

lemma utf8_valid_append: "utf8_valid a \<Longrightarrow> utf8_valid (a @ b) = utf8_valid b"
  by (induction a rule: utf8_induct) auto

lemma utf8_take_boundary:
  "utf8_valid s \<Longrightarrow> is_char_boundary s i \<Longrightarrow> i \<le> length s \<Longrightarrow> utf8_valid (take i s)"
proof (induction s arbitrary: i rule: utf8_induct)
  case Nil
  then show ?case by simp
next
  case (Char c s)
  consider "i = 0" | "0 < i" "i < length c" | "length c \<le> i" by linarith
  then show ?case
  proof cases
    case 1
    then show ?thesis by simp
  next
    case 2
    with Char utf8_char_tail [of c i] show ?thesis
      by (auto simp: is_char_boundary_def nth_append)
  next
    case 3
    with Char.prems have "is_char_boundary s (i - length c)"
      by (auto simp: is_char_boundary_def nth_append)
    with Char 3 show ?thesis by simp
  qed
qed

lemma utf8_boundary_near:
  assumes "utf8_valid s" and "i \<le> length s"
  shows "\<exists>j \<le> i. i \<le> j + 3 \<and> is_char_boundary s j"
  using assms
proof (induction s arbitrary: i rule: utf8_induct)
  case Nil
  then show ?case by (auto simp: is_char_boundary_def)
next
  case (Char c s)
  show ?case
  proof (cases "i < length c")
    case True
    with utf8_char_length_le4 [OF Char.hyps(1)] show ?thesis
      by (intro exI [of _ 0]) (auto simp: is_char_boundary_def)
  next
    case False
    with Char.prems have "i - length c \<le> length s" by simp
    from Char.IH [OF this] obtain j where
      j: "j \<le> i - length c" "i - length c \<le> j + 3" "is_char_boundary s j" by blast
    show ?thesis
    proof (cases "j = 0 \<and> s \<noteq> []")
      case True
      with Char.hyps(2) obtain a t where s: "s = a # t" and "utf8_char (take (utf8_width a) s)"
        by (cases s) auto
      then have "\<not> is_cont a"
        using utf8_char_head by (cases "utf8_width a") auto
      with True j False s show ?thesis
        by (intro exI [of _ "length c"]) (auto simp: is_char_boundary_def)
    next
      case not0: False
      with j False show ?thesis
        by (intro exI [of _ "j + length c"]) (auto simp: is_char_boundary_def nth_append)
    qed
  qed
qed

section \<open>Trimming\<close>

text \<open>The UTF-8 encodings of the characters with the Unicode property \<open>White_Space\<close>, which
  \<open>char::is_whitespace\<close> accepts and \<open>str::trim\<close> strips at both ends.\<close>

definition white_space :: "str list" where
  "white_space =
     [[CHR 0x09], [CHR 0x0A], [CHR 0x0B], [CHR 0x0C], [CHR 0x0D], [CHR 0x20],
      [CHR 0xC2, CHR 0x85], [CHR 0xC2, CHR 0xA0], [CHR 0xE1, CHR 0x9A, CHR 0x80],
      [CHR 0xE2, CHR 0x80, CHR 0x80], [CHR 0xE2, CHR 0x80, CHR 0x81],
      [CHR 0xE2, CHR 0x80, CHR 0x82], [CHR 0xE2, CHR 0x80, CHR 0x83],
      [CHR 0xE2, CHR 0x80, CHR 0x84], [CHR 0xE2, CHR 0x80, CHR 0x85],
      [CHR 0xE2, CHR 0x80, CHR 0x86], [CHR 0xE2, CHR 0x80, CHR 0x87],
      [CHR 0xE2, CHR 0x80, CHR 0x88], [CHR 0xE2, CHR 0x80, CHR 0x89],
      [CHR 0xE2, CHR 0x80, CHR 0x8A], [CHR 0xE2, CHR 0x80, CHR 0xA8],
      [CHR 0xE2, CHR 0x80, CHR 0xA9], [CHR 0xE2, CHR 0x80, CHR 0xAF],
      [CHR 0xE2, CHR 0x81, CHR 0x9F], [CHR 0xE3, CHR 0x80, CHR 0x80]]"

lemma white_space_chars: "\<forall>w \<in> set white_space. utf8_char w"
  by (simp add: white_space_def is_cont_def)

lemma white_space_not_Nil: "w \<in> set white_space \<Longrightarrow> w \<noteq> []"
  using white_space_chars by auto

function trim_start :: "str \<Rightarrow> str" where
  "trim_start s =
     (case find (\<lambda>w. take (length w) s = w) white_space of
        None \<Rightarrow> s
      | Some w \<Rightarrow> trim_start (drop (length w) s))"
  by pat_completeness auto
termination
proof (relation "measure length", simp)
  fix s w
  assume "find (\<lambda>w. take (length w) s = w) white_space = Some w"
  then have "w \<in> set white_space" "take (length w) s = w"
    by (auto simp: find_Some_iff)
  with white_space_not_Nil [of w] show "(drop (length w) s, s) \<in> measure length"
    by (cases s) auto
qed

function trim_end :: "str \<Rightarrow> str" where
  "trim_end s =
     (case find (\<lambda>w. ends_with s w) white_space of
        None \<Rightarrow> s
      | Some w \<Rightarrow> trim_end (take (length s - length w) s))"
  by pat_completeness auto
termination
proof (relation "measure length", simp)
  fix s w
  assume "find (\<lambda>w. ends_with s w) white_space = Some w"
  then have "w \<in> set white_space" "ends_with s w"
    by (auto simp: find_Some_iff)
  with white_space_not_Nil [of w] show "(take (length s - length w) s, s) \<in> measure length"
    by (auto simp: ends_with_iff)
qed

declare trim_start.simps [simp del] trim_end.simps [simp del]

text \<open>\<open>str::trim\<close>.\<close>

definition str_trim :: "str \<Rightarrow> str" where
  "str_trim s = trim_end (trim_start s)"

lemma trim_start_split: "\<exists>p. s = p @ trim_start s"
proof (induction s rule: trim_start.induct)
  case (1 s)
  show ?case
  proof (cases "find (\<lambda>w. take (length w) s = w) white_space")
    case None
    then show ?thesis by (simp add: trim_start.simps [of s])
  next
    case (Some w)
    from 1 [OF this] obtain p where "drop (length w) s = p @ trim_start (drop (length w) s)" by blast
    then have "s = (take (length w) s @ p) @ trim_start (drop (length w) s)"
      by (metis append.assoc append_take_drop_id)
    moreover from Some have "trim_start s = trim_start (drop (length w) s)"
      by (simp add: trim_start.simps [of s])
    ultimately show ?thesis by metis
  qed
qed

lemma trim_end_split: "\<exists>q. s = trim_end s @ q"
proof (induction s rule: trim_end.induct)
  case (1 s)
  show ?case
  proof (cases "find (\<lambda>w. ends_with s w) white_space")
    case None
    then show ?thesis by (simp add: trim_end.simps [of s])
  next
    case (Some w)
    let ?t = "take (length s - length w) s"
    from 1 [OF Some] obtain q where "?t = trim_end ?t @ q" by blast
    then have "s = trim_end ?t @ q @ drop (length s - length w) s"
      by (metis append.assoc append_take_drop_id)
    with Some show ?thesis by (auto simp: trim_end.simps [of s])
  qed
qed

text \<open>Trimming only removes bytes at the two ends.\<close>

lemma str_trim_split: "\<exists>p q. s = p @ str_trim s @ q"
  using trim_start_split [of s] trim_end_split [of "trim_start s"]
  by (metis str_trim_def)

lemma trim_start_valid: "utf8_valid s \<Longrightarrow> utf8_valid (trim_start s)"
proof (induction s rule: trim_start.induct)
  case (1 s)
  show ?case
  proof (cases "find (\<lambda>w. take (length w) s = w) white_space")
    case None
    with 1 show ?thesis by (simp add: trim_start.simps [of s])
  next
    case (Some w)
    then have w: "w \<in> set white_space" "take (length w) s = w" by (auto simp: find_Some_iff)
    then have "s = w @ drop (length w) s" by (metis append_take_drop_id)
    with 1(2) w white_space_chars have "utf8_valid (drop (length w) s)"
      by (metis utf8_valid_char_append)
    with 1(1) [OF Some] Some show ?thesis by (simp add: trim_start.simps [of s])
  qed
qed

lemma trim_end_valid: "utf8_valid s \<Longrightarrow> utf8_valid (trim_end s)"
proof (induction s rule: trim_end.induct)
  case (1 s)
  show ?case
  proof (cases "find (\<lambda>w. ends_with s w) white_space")
    case None
    with 1 show ?thesis by (simp add: trim_end.simps [of s])
  next
    case (Some w)
    then have w: "w \<in> set white_space" "ends_with s w" by (auto simp: find_Some_iff)
    then obtain r where s: "s = r @ w" by (auto simp: ends_with_iff)
    from w white_space_chars obtain a t where "w = a # t" "\<not> is_cont a"
      by (metis list.exhaust utf8_char_head utf8_char_not_Nil)
    with s have "is_char_boundary s (length r)" by (simp add: is_char_boundary_def)
    with 1(2) s have "utf8_valid (take (length s - length w) s)"
      using utf8_take_boundary [of s "length r"] by simp
    with 1(1) [OF Some] Some show ?thesis by (simp add: trim_end.simps [of s])
  qed
qed

lemma str_trim_valid: "utf8_valid s \<Longrightarrow> utf8_valid (str_trim s)"
  by (simp add: str_trim_def trim_start_valid trim_end_valid)

text \<open>An encoded character is neither a proper prefix nor a proper suffix of another one, so
  trimming finds the white space characters one by one.\<close>

lemma utf8_char_prefix_eq:
  assumes "utf8_char v" "utf8_char w" "take (length v) (w @ s) = v"
  shows "v = w"
proof -
  obtain a t where v: "v = a # t" using assms(1) by (cases v) auto
  obtain b u where w: "w = b # u" using assms(2) by (cases w) auto
  from assms(3) v w have "a = b" by simp
  with assms v w utf8_char_width [of a t] utf8_char_width [of b u] have "length v = length w" by simp
  with assms(3) show ?thesis by simp
qed

lemma utf8_char_no_proper_suffix:
  assumes "utf8_char v" "utf8_char (x @ v)"
  shows "x = []"
proof (rule ccontr)
  assume "x \<noteq> []"
  obtain a t where v: "v = a # t" using assms(1) by (cases v) auto
  with assms(1) have "\<not> is_cont a" using utf8_char_head by blast
  moreover have "is_cont ((x @ v) ! length x)"
    using assms(2) v \<open>x \<noteq> []\<close> by (intro utf8_char_tail) auto
  ultimately show False using v by simp
qed

lemma utf8_char_suffix_eq:
  assumes "utf8_char v" "utf8_char w" "s @ w = r @ v"
  shows "v = w"
proof -
  from assms(3) obtain x where "x @ w = v \<or> w = x @ v" by (auto simp: append_eq_append_conv2)
  with assms(1,2) utf8_char_no_proper_suffix show ?thesis by (metis append_Nil)
qed

lemma trim_start_white:
  assumes "\<forall>w \<in> set ws. w \<in> set white_space" and "\<forall>w \<in> set white_space. take (length w) t \<noteq> w"
  shows "trim_start (concat ws @ t) = t"
  using assms(1)
proof (induction ws)
  case Nil
  from assms(2) have "find (\<lambda>w. take (length w) t = w) white_space = None"
    by (auto simp: find_None_iff)
  then show ?case by (simp add: trim_start.simps [of t])
next
  case (Cons w ws)
  let ?s = "w @ concat ws @ t"
  have "find (\<lambda>v. take (length v) ?s = v) white_space \<noteq> None"
    using Cons.prems by (auto simp: find_None_iff intro!: bexI [of _ w])
  then obtain v where v: "find (\<lambda>v. take (length v) ?s = v) white_space = Some v" by blast
  then have "v \<in> set white_space" "take (length v) ?s = v" by (auto simp: find_Some_iff)
  moreover have "utf8_char v" "utf8_char w"
    using Cons.prems \<open>v \<in> set white_space\<close> white_space_chars by auto
  ultimately have "v = w" using utf8_char_prefix_eq by blast
  with v Cons show ?case by (simp add: trim_start.simps [of ?s])
qed

lemma trim_end_white:
  assumes "\<forall>w \<in> set ws. w \<in> set white_space" and "\<forall>w \<in> set white_space. \<not> ends_with t w"
  shows "trim_end (t @ concat ws) = t"
  using assms(1)
proof (induction ws rule: rev_induct)
  case Nil
  from assms(2) have "find (\<lambda>w. ends_with t w) white_space = None"
    by (auto simp: find_None_iff)
  then show ?case by (simp add: trim_end.simps [of t])
next
  case (snoc w ws)
  let ?s = "t @ concat ws @ w"
  have "find (\<lambda>v. ends_with ?s v) white_space \<noteq> None"
    using snoc.prems by (auto simp: find_None_iff ends_with_iff intro!: bexI [of _ w])
  then obtain v where v: "find (\<lambda>v. ends_with ?s v) white_space = Some v" by blast
  then have "v \<in> set white_space" "ends_with ?s v" by (auto simp: find_Some_iff)
  moreover from this obtain r where "(t @ concat ws) @ w = r @ v" by (auto simp: ends_with_iff)
  moreover have "utf8_char v" "utf8_char w"
    using snoc.prems \<open>v \<in> set white_space\<close> white_space_chars by auto
  ultimately have "v = w" using utf8_char_suffix_eq by blast
  with v snoc show ?case by (simp add: trim_end.simps [of ?s])
qed

lemma trim_start_form: "\<exists>ws. set ws \<subseteq> set white_space \<and> s = concat ws @ trim_start s"
proof (induction s rule: trim_start.induct)
  case (1 s)
  show ?case
  proof (cases "find (\<lambda>w. take (length w) s = w) white_space")
    case None
    then show ?thesis by (intro exI [of _ "[]"]) (simp add: trim_start.simps [of s])
  next
    case (Some w)
    then have w: "w \<in> set white_space" "s = w @ drop (length w) s"
      by (auto simp: find_Some_iff) (metis append_take_drop_id)
    from 1 [OF Some] obtain ws where
      ws: "set ws \<subseteq> set white_space" "drop (length w) s = concat ws @ trim_start (drop (length w) s)"
      by blast
    from Some have "trim_start s = trim_start (drop (length w) s)" by (simp add: trim_start.simps [of s])
    with w ws have "s = concat (w # ws) @ trim_start s" by simp
    with w ws show ?thesis by (intro exI [of _ "w # ws"]) auto
  qed
qed

lemma trim_end_form: "\<exists>ws. set ws \<subseteq> set white_space \<and> s = trim_end s @ concat ws"
proof (induction s rule: trim_end.induct)
  case (1 s)
  show ?case
  proof (cases "find (\<lambda>w. ends_with s w) white_space")
    case None
    then show ?thesis by (intro exI [of _ "[]"]) (simp add: trim_end.simps [of s])
  next
    case (Some w)
    let ?t = "take (length s - length w) s"
    from Some have w: "w \<in> set white_space" "s = ?t @ w"
      by (auto simp: find_Some_iff ends_with_iff)
    from 1 [OF Some] obtain ws where
      ws: "set ws \<subseteq> set white_space" "?t = trim_end ?t @ concat ws" by blast
    from Some have "trim_end s = trim_end ?t" by (simp add: trim_end.simps [of s])
    with w ws have "s = trim_end s @ concat (ws @ [w])"
      by (metis append.assoc concat.simps concat_append append_Nil2)
    with w ws show ?thesis by (intro exI [of _ "ws @ [w]"]) auto
  qed
qed

text \<open>Trimming yields \<open>t\<close>, a text that neither starts nor ends with white space, exactly from
  \<open>t\<close> surrounded by white space.\<close>

lemma str_trim_eq_iff:
  assumes "\<forall>w \<in> set white_space. take (length w) t \<noteq> w" "\<forall>w \<in> set white_space. \<not> ends_with t w"
    and "t \<noteq> []" "byte_val (hd t) < 128"
  shows "str_trim s = t \<longleftrightarrow>
    (\<exists>ws vs. set ws \<subseteq> set white_space \<and> set vs \<subseteq> set white_space \<and> s = concat ws @ t @ concat vs)"
proof
  assume t: "str_trim s = t"
  obtain ws where ws: "set ws \<subseteq> set white_space" "s = concat ws @ trim_start s"
    using trim_start_form by blast
  obtain vs where vs: "set vs \<subseteq> set white_space" "trim_start s = trim_end (trim_start s) @ concat vs"
    using trim_end_form by blast
  from t ws vs have "s = concat ws @ t @ concat vs" by (metis str_trim_def)
  with ws vs show "\<exists>ws vs. set ws \<subseteq> set white_space \<and> set vs \<subseteq> set white_space \<and>
    s = concat ws @ t @ concat vs" by blast
next
  assume "\<exists>ws vs. set ws \<subseteq> set white_space \<and> set vs \<subseteq> set white_space \<and>
    s = concat ws @ t @ concat vs"
  then obtain ws vs where ws: "set ws \<subseteq> set white_space" "set vs \<subseteq> set white_space"
    and s: "s = concat ws @ t @ concat vs" by blast
  have "take (length w) (t @ concat vs) \<noteq> w" if w: "w \<in> set white_space" for w
  proof
    assume eq: "take (length w) (t @ concat vs) = w"
    obtain a u where au: "w = a # u" using white_space_not_Nil [OF w] by (auto simp: neq_Nil_conv)
    with eq assms(3) have "a = hd t" by (cases t) auto
    with au assms(4) w white_space_chars utf8_char_width [of a u] have "length w = 1"
      by (auto simp: utf8_width_def)
    with eq assms(3) have "take (length w) t = w" by (cases t) auto
    with assms(1) w show False by blast
  qed
  then have "trim_start s = t @ concat vs"
    unfolding s using ws by (intro trim_start_white) auto
  moreover have "trim_end (t @ concat vs) = t" using ws assms(2) by (intro trim_end_white) auto
  ultimately show "str_trim s = t" by (simp add: str_trim_def)
qed

section \<open>Decimal integers\<close>

definition is_digit :: "char \<Rightarrow> bool" where
  "is_digit c \<longleftrightarrow> 48 \<le> byte_val c \<and> byte_val c \<le> 57"

definition digit_val :: "char \<Rightarrow> nat" where
  "digit_val c = byte_val c - 48"

text \<open>\<open>str::parse::<usize>\<close>: an optional \<open>+\<close>, then at least one digit; \<open>None\<close> stands for every
  error (empty, invalid digit, overflow of 64 bits).\<close>

fun parse_digits :: "nat \<Rightarrow> str \<Rightarrow> nat option" where
  "parse_digits acc [] = Some acc"
| "parse_digits acc (c # cs) =
     (if is_digit c \<and> acc * 10 + digit_val c < 2 ^ 64
      then parse_digits (acc * 10 + digit_val c) cs else None)"

definition parse_usize :: "str \<Rightarrow> usize option" where
  "parse_usize s =
     (let ds = (case s of c # cs \<Rightarrow> if c = CHR ''+'' then cs else s | [] \<Rightarrow> [])
      in if ds = [] then None else map_option of_nat (parse_digits 0 ds))"

text \<open>The decimal rendering of an unsigned integer by \<open>format!("{}", n)\<close>.\<close>

fun show_nat :: "nat \<Rightarrow> str" where
  "show_nat n =
     (if n < 10 then [char_of (48 + n)] else show_nat (n div 10) @ [char_of (48 + n mod 10)])"

declare show_nat.simps [simp del]

lemma digit_char_simps [simp]:
  "char_of (48 :: nat) = CHR ''0''" "char_of (49 :: nat) = CHR ''1''"
  "char_of (50 :: nat) = CHR ''2''" "char_of (51 :: nat) = CHR ''3''"
  "char_of (52 :: nat) = CHR ''4''" "char_of (53 :: nat) = CHR ''5''"
  "char_of (54 :: nat) = CHR ''6''" "char_of (55 :: nat) = CHR ''7''"
  "char_of (56 :: nat) = CHR ''8''" "char_of (57 :: nat) = CHR ''9''"
  by (simp_all add: char_of_def bit_simps)

lemma show_nat_not_Nil [simp]: "show_nat n \<noteq> []"
  by (subst show_nat.simps) simp

lemma parse_digits_append:
  "parse_digits a (xs @ ys) = (case parse_digits a xs of None \<Rightarrow> None | Some b \<Rightarrow> parse_digits b ys)"
  by (induction a xs rule: parse_digits.induct) auto

lemma digit_char: "d < 10 \<Longrightarrow> is_digit (char_of (48 + d)) \<and> digit_val (char_of (48 + d)) = d"
  by (simp add: is_digit_def digit_val_def)

lemma parse_digits_show: "n < 2 ^ 64 \<Longrightarrow> parse_digits 0 (show_nat n) = Some n"
proof (induction n rule: show_nat.induct)
  case (1 n)
  show ?case
  proof (cases "n < 10")
    case True
    with 1(2) digit_char [of n] show ?thesis by (simp add: show_nat.simps [of n])
  next
    case False
    have "n div 10 * 10 + n mod 10 = n" by simp
    with 1 False digit_char [of "n mod 10"] show ?thesis
      by (simp add: show_nat.simps [of n] parse_digits_append)
  qed
qed

lemma show_nat_digits: "c \<in> set (show_nat n) \<Longrightarrow> is_digit c"
proof (induction n rule: show_nat.induct)
  case (1 n)
  then show ?case using digit_char [of n] digit_char [of "n mod 10"]
    by (cases "n < 10") (auto simp: show_nat.simps [of n])
qed

lemma parse_usize_show: "n < 2 ^ 64 \<Longrightarrow> parse_usize (show_nat n) = Some (of_nat n)"
proof -
  assume n: "n < 2 ^ 64"
  obtain c cs where cs: "show_nat n = c # cs" by (cases "show_nat n") auto
  then have "is_digit c" using show_nat_digits [of c n] by simp
  then have "c \<noteq> CHR ''+''" by (auto simp: is_digit_def)
  with cs n show ?thesis using parse_digits_show [of n] by (simp add: parse_usize_def)
qed

end
