(* ===== verification/Externals.thy ===== *)
theory Externals
  imports Rust_Str "HOL-Library.List_Lexorder" "HOL-Library.Char_ord"
begin

text \<open>
  What the program takes from the crates it depends on. The values that flow between the
  program and a crate (JSON values, URIs, bodies, readers, I/O errors) are data types here;
  the algorithms of the crates (JSON parsing and printing, decompression, header and URI
  validation, the byte search of \<open>memchr\<close>, the clock's range) are fields of the record
  \<open>deps\<close>, a parameter of every definition that uses them. What the program relies on is stated
  as named hypotheses on that record, each taken from the documentation of the crate.
\<close>

section \<open>Panics\<close>

text \<open>The value of a computation that may panic: \<open>expect\<close> on \<open>None\<close> or \<open>Err\<close>, overflow of an
  \<open>Instant\<close>. The text is the message of the panic.\<close>

datatype 'a rs = Ret 'a | Panic str

fun rs_bind :: "'a rs \<Rightarrow> ('a \<Rightarrow> 'b rs) \<Rightarrow> 'b rs" where
  "rs_bind (Ret x) f = f x"
| "rs_bind (Panic m) f = Panic m"

definition expect :: "str \<Rightarrow> 'a option \<Rightarrow> 'a rs" where
  "expect m x = (case x of Some y \<Rightarrow> Ret y | None \<Rightarrow> Panic m)"

lemma expect_simps [simp]: "expect m (Some y) = Ret y" "expect m None = Panic m"
  by (simp_all add: expect_def)

lemma rs_bind_Ret_iff: "rs_bind x f = Ret y \<longleftrightarrow> (\<exists>z. x = Ret z \<and> f z = Ret y)"
  by (cases x) auto

section \<open>JSON values (serde\_json)\<close>

text \<open>\<open>serde_json::Number\<close> holds a \<open>u64\<close>, a negative \<open>i64\<close> or the 64 bits of an \<open>f64\<close>;
  \<open>serde_json::Map\<close> is a \<open>BTreeMap\<close> (the feature \<open>preserve_order\<close> is not enabled), so an
  object is a list of entries sorted by key.\<close>

datatype jnumber = PosInt u64 | NegInt u64 | Float u64

datatype json =
  JNull | JBool bool | JNumber jnumber | JString str | JArray "json list"
| JObject "(str \<times> json) list"

text \<open>\<open>Map::insert\<close>, and the \<open>json!\<close> macro on an object literal: its entries inserted from
  first to last into an empty map.\<close>

fun obj_insert :: "str \<Rightarrow> json \<Rightarrow> (str \<times> json) list \<Rightarrow> (str \<times> json) list" where
  "obj_insert k v [] = [(k, v)]"
| "obj_insert k v ((k', v') # es) =
     (if k = k' then (k, v) # es
      else if k < k' then (k, v) # (k', v') # es
      else (k', v') # obj_insert k v es)"

definition json_object :: "(str \<times> json) list \<Rightarrow> json" where
  "json_object kvs = JObject (foldl (\<lambda>es (k, v). obj_insert k v es) [] kvs)"

text \<open>\<open>Value::get\<close> with a string index, and \<open>Value::as_str\<close>.\<close>

fun json_get :: "json \<Rightarrow> str \<Rightarrow> json option" where
  "json_get (JObject es) k = map_of es k"
| "json_get _ _ = None"

fun json_as_str :: "json \<Rightarrow> str option" where
  "json_as_str (JString s) = Some s"
| "json_as_str _ = None"

lemma map_of_obj_insert: "map_of (obj_insert k v es) = (map_of es)(k \<mapsto> v)"
  by (induction k v es rule: obj_insert.induct) (auto simp: fun_eq_iff)

lemma json_get_json_object:
  "json_get (json_object kvs) k = map_of (rev kvs) k"
proof -
  have "map_of (foldl (\<lambda>es (k, v). obj_insert k v es) es kvs) = map_of es ++ map_of (rev kvs)" for es
    by (induction kvs arbitrary: es) (auto simp: map_of_obj_insert)
  then show ?thesis by (simp add: json_object_def)
qed

section \<open>HTTP values (http, hyper, http-body-util)\<close>

text \<open>A header map: the list of its entries, names in the lower case form that \<open>HeaderName\<close>
  keeps. Its operations are in the theory of headers.\<close>

type_synonym header_map = "(str \<times> bytes) list"

text \<open>The parts of a \<open>Uri\<close>; \<open>path_and_query\<close> is its text.\<close>

record uri =
  u_scheme :: "str option"
  u_authority :: "str option"
  u_path_and_query :: "str option"

text \<open>A body received from hyper (\<open>Incoming\<close>): its data frames, or the display text of an
  error. Trailer frames are not represented.\<close>

type_synonym incoming = "(str + bytes) list"

datatype req_body = Req_Incoming incoming | Req_Full bytes

record parts =
  p_method :: str
  p_uri :: uri
  p_headers :: header_map

record request = parts +
  r_body :: req_body

text \<open>\<open>StatusCode\<close> as its number, with its range tests.\<close>

type_synonym status_code = nat

definition is_success :: "status_code \<Rightarrow> bool" where
  "is_success s \<longleftrightarrow> 200 \<le> s \<and> s < 300"

definition is_client_error :: "status_code \<Rightarrow> bool" where
  "is_client_error s \<longleftrightarrow> 400 \<le> s \<and> s < 500"

definition is_server_error :: "status_code \<Rightarrow> bool" where
  "is_server_error s \<longleftrightarrow> 500 \<le> s \<and> s < 600"

text \<open>A response of the upstream, as \<open>client.request\<close> yields it; an error is its display text.\<close>

record upstream_response =
  up_status :: status_code
  up_headers :: header_map
  up_body :: incoming

type_synonym upstream_result = "str + upstream_response"

text \<open>The outcome of collecting a limited body: the limit was exceeded, or the body failed.\<close>

datatype collect_error = LengthLimitError | BodyError str

section \<open>Input and output (std::io, tokio-util, async-compression)\<close>

datatype error_kind = InvalidData | Other | External

datatype io_error = IoError error_kind str

text \<open>\<open>io::Error::to_string\<close> of an error with a custom payload is the payload's text.\<close>

fun io_error_text :: "io_error \<Rightarrow> str" where
  "io_error_text (IoError _ m) = m"

type_synonym io_item = "io_error + bytes"

text \<open>An \<open>AsyncRead\<close>: the bytes it delivers, then the error it fails with, or end of file.\<close>

record reader =
  delivered :: bytes
  failure :: "io_error option"

section \<open>The functions of the crates\<close>

record deps =
  memchr2 :: "byte \<Rightarrow> byte \<Rightarrow> bytes \<Rightarrow> nat option"
  header_to_str :: "bytes \<Rightarrow> str option"
  header_name_try_from :: "str \<Rightarrow> str option"
  header_value_from_str :: "str \<Rightarrow> bytes option"
  json_from_slice :: "bytes \<Rightarrow> json option"
  json_to_string :: "json \<Rightarrow> str option"
  probe_from_slice :: "bytes \<Rightarrow> bool option"
  canonical_reason :: "status_code \<Rightarrow> str option"
  gzip_decoder :: "reader \<Rightarrow> reader"
  zlib_decoder :: "reader \<Rightarrow> reader"
  brotli_decoder :: "reader \<Rightarrow> reader"
  zstd_decoder :: "reader \<Rightarrow> reader"
  stream_reader :: "io_item list \<Rightarrow> reader"
  reader_stream :: "reader \<Rightarrow> io_item list"
  limited_collect :: "usize \<Rightarrow> incoming \<Rightarrow> collect_error + bytes"
  uri_path :: "uri \<Rightarrow> str"
  uri_query :: "uri \<Rightarrow> str option"
  uri_from_str :: "str \<Rightarrow> str + uri"
  path_and_query_from_str :: "str \<Rightarrow> str option"
  uri_from_parts :: "uri \<Rightarrow> uri option"
  instant_max :: nat

section \<open>What the program relies on\<close>

text \<open>\<open>memchr2\<close> returns the index of the first byte equal to either needle, if there is one.\<close>

definition memchr2_ok :: "deps \<Rightarrow> bool" where
  "memchr2_ok D \<longleftrightarrow>
     (\<forall>a b s. case memchr2 D a b s of
        None \<Rightarrow> a \<notin> set s \<and> b \<notin> set s
      | Some i \<Rightarrow> i < length s \<and> s ! i \<in> {a, b} \<and> (\<forall>j < i. s ! j \<notin> {a, b}))"

text \<open>Printing a \<open>Value\<close> cannot fail, and the compact printer writes one line: control
  characters inside strings are escaped.\<close>

definition json_total :: "deps \<Rightarrow> bool" where
  "json_total D \<longleftrightarrow> (\<forall>v. json_to_string D v \<noteq> None)"

definition json_one_line :: "deps \<Rightarrow> bool" where
  "json_one_line D \<longleftrightarrow>
     (\<forall>v s. json_to_string D v = Some s \<longrightarrow> LF \<notin> set s \<and> CR \<notin> set s)"

text \<open>\<open>StreamReader\<close> delivers the bytes of the items up to the first error; \<open>ReaderStream\<close> yields
  what a reader delivers in non-empty chunks, then its error.\<close>

fun items_bytes :: "io_item list \<Rightarrow> bytes" where
  "items_bytes [] = []"
| "items_bytes (Inr b # xs) = b @ items_bytes xs"
| "items_bytes (Inl e # xs) = []"

fun items_error :: "io_item list \<Rightarrow> io_error option" where
  "items_error [] = None"
| "items_error (Inr b # xs) = items_error xs"
| "items_error (Inl e # xs) = Some e"

definition streams_ok :: "deps \<Rightarrow> bool" where
  "streams_ok D \<longleftrightarrow>
     (\<forall>xs. delivered (stream_reader D xs) = items_bytes xs \<and>
           failure (stream_reader D xs) = items_error xs) \<and>
     (\<forall>r. \<exists>cs. reader_stream D r =
             map Inr cs @ (case failure r of None \<Rightarrow> [] | Some e \<Rightarrow> [Inl e]) \<and>
             concat cs = delivered r)"

text \<open>\<open>Limited::collect\<close>: a body that ends without an error is collected whole if it is within
  the limit, and fails with \<open>LengthLimitError\<close> otherwise.\<close>

definition limited_ok :: "deps \<Rightarrow> bool" where
  "limited_ok D \<longleftrightarrow>
     (\<forall>n cs. limited_collect D n (map Inr cs) =
        (if length (concat cs) \<le> unat n then Inr (concat cs) else Inl LengthLimitError))"

text \<open>The text of a path and query parses back to itself, and parts with a scheme, an authority
  and a path make a \<open>Uri\<close>.\<close>

definition uri_ok :: "deps \<Rightarrow> bool" where
  "uri_ok D \<longleftrightarrow>
     path_and_query_from_str D ''/'' = Some ''/'' \<and>
     (\<forall>u. uri_from_parts D u = Some u \<longrightarrow>
        (case u_path_and_query u of None \<Rightarrow> True | Some p \<Rightarrow> path_and_query_from_str D p = Some p)) \<and>
     (\<forall>u s a p. u_scheme u = Some s \<longrightarrow> u_authority u = Some a \<longrightarrow> u_path_and_query u = Some p \<longrightarrow>
        path_and_query_from_str D p = Some p \<longrightarrow> uri_from_parts D u = Some u)"

text \<open>A URI that was parsed is one that its parts make again, and its authority, being visible ASCII,
  is a valid header value.\<close>

definition uri_parse_ok :: "deps \<Rightarrow> bool" where
  "uri_parse_ok D \<longleftrightarrow>
     (\<forall>s u. uri_from_str D s = Inr u \<longrightarrow> uri_from_parts D u = Some u \<and>
        (\<forall>a. u_authority u = Some a \<longrightarrow> header_value_from_str D a = Some a))"

lemma memchr2_None: "memchr2_ok D \<Longrightarrow> memchr2 D a b s = None \<Longrightarrow> a \<notin> set s \<and> b \<notin> set s"
  unfolding memchr2_ok_def by (drule spec [of _ a], drule spec [of _ b], drule spec [of _ s]) simp

lemma memchr2_Some:
  "memchr2_ok D \<Longrightarrow> memchr2 D a b s = Some i \<Longrightarrow>
     i < length s \<and> s ! i \<in> {a, b} \<and> (\<forall>j < i. s ! j \<notin> {a, b})"
  unfolding memchr2_ok_def by (drule spec [of _ a], drule spec [of _ b], drule spec [of _ s]) simp

lemma json_one_lineD:
  "json_one_line D \<Longrightarrow> json_to_string D v = Some s \<Longrightarrow> LF \<notin> set s \<and> CR \<notin> set s"
  by (auto simp: json_one_line_def)

end
