(* ===== verification/Headers.thy ===== *)
theory Headers
  imports Externals
begin

text \<open>
  The operations of \<open>HeaderMap\<close> that the program calls (\<open>get_all\<close>, \<open>get\<close>, \<open>insert\<close>,
  \<open>remove\<close>), on the list of entries, and the contract the program relies on as the locale
  \<open>header_store\<close>: its fact about removing a list of names is proved once from the contract and
  used by the proxy and the SSE path. The order of entries of different names is not the crate's
  (an inserted entry comes last, and a removal, which in the crate moves the last entry to the free
  place, keeps the others in place here); the values of each name and their order are.
\<close>

section \<open>Operations\<close>

text \<open>\<open>get_all(name)\<close>: every value of the name, in order; \<open>get(name)\<close>: the first of them.\<close>

definition hm_get_all :: "header_map \<Rightarrow> str \<Rightarrow> bytes list" where
  "hm_get_all h n = map snd (filter (\<lambda>(k, v). k = n) h)"

definition hm_get :: "header_map \<Rightarrow> str \<Rightarrow> bytes option" where
  "hm_get h n = (case hm_get_all h n of [] \<Rightarrow> None | v # _ \<Rightarrow> Some v)"

text \<open>\<open>remove(name)\<close> drops every value of the name; \<open>insert(name, v)\<close> replaces them by one.\<close>

definition hm_remove :: "str \<Rightarrow> header_map \<Rightarrow> header_map" where
  "hm_remove n h = filter (\<lambda>(k, v). k \<noteq> n) h"

definition hm_insert :: "str \<Rightarrow> bytes \<Rightarrow> header_map \<Rightarrow> header_map" where
  "hm_insert n v h = hm_remove n h @ [(n, v)]"

section \<open>The contract\<close>

locale header_store =
  fixes get_all :: "'h \<Rightarrow> str \<Rightarrow> bytes list"
    and remove :: "str \<Rightarrow> 'h \<Rightarrow> 'h"
    and insert :: "str \<Rightarrow> bytes \<Rightarrow> 'h \<Rightarrow> 'h"
  assumes get_all_remove: "get_all (remove n h) m = (if m = n then [] else get_all h m)"
    and get_all_insert: "get_all (insert n v h) m = (if m = n then [v] else get_all h m)"
begin

lemma get_all_remove_list:
  "get_all (fold remove ns h) m = (if m \<in> set ns then [] else get_all h m)"
  by (induction ns arbitrary: h) (auto simp: get_all_remove)

end

interpretation hm: header_store hm_get_all hm_remove hm_insert
  by unfold_locales
    (auto simp: hm_get_all_def hm_remove_def hm_insert_def filter_empty_conv split_beta
      intro!: arg_cong [where f = "map snd"] filter_cong)

lemmas header_laws [header_simps] = hm.get_all_remove hm.get_all_insert hm.get_all_remove_list

lemma hm_get_remove [header_simps]: "hm_get (hm_remove n h) m = (if m = n then None else hm_get h m)"
  by (simp add: hm_get_def header_laws)

lemma hm_get_insert [header_simps]: "hm_get (hm_insert n v h) m = (if m = n then Some v else hm_get h m)"
  by (simp add: hm_get_def header_laws)

end
