(* ===== verification/Detect.thy ===== *)
theory Detect
  imports Headers
begin

text \<open>
  \<open>src/detect.rs\<close>: recognition of the four streaming endpoints from the method, the path and
  the query, the probe of the request body's \<open>stream\<close> field, and the test of the \<open>Accept\<close>
  header. The main lemmas relate the suffix tests of the code to whole path segments.
\<close>

section \<open>Endpoints\<close>

datatype endpoint_kind = ChatCompletions | Responses | AnthropicMessages | GeminiStream

text \<open>The loop over the pairs of the query string.\<close>

fun alt_sse_pairs :: "str list \<Rightarrow> bool" where
  "alt_sse_pairs [] = False"
| "alt_sse_pairs (pair # ps) =
     (let (k, v) = (case split_once (CHR ''='') pair of Some (k, v) \<Rightarrow> (k, v) | None \<Rightarrow> (pair, ''''))
      in if k = ''alt'' \<and> v = ''sse'' then True else alt_sse_pairs ps)"

definition has_alt_sse :: "str \<Rightarrow> bool" where
  "has_alt_sse query = alt_sse_pairs (split_on (CHR ''&'') query)"

definition match_endpoint :: "str \<Rightarrow> str \<Rightarrow> str option \<Rightarrow> endpoint_kind option" where
  "match_endpoint meth path query =
     (if meth \<noteq> ''POST'' then None
      else if ends_with path ''/chat/completions'' then Some ChatCompletions
      else if ends_with path ''/responses'' then Some Responses
      else if ends_with path ''/messages'' then Some AnthropicMessages
      else (case rsplit_next (CHR ''/'') path of
              None \<Rightarrow> None
            | Some last_seg \<Rightarrow>
                if ends_with last_seg '':streamGenerateContent'' \<and>
                   has_alt_sse (case query of Some q \<Rightarrow> q | None \<Rightarrow> '''')
                then Some GeminiStream else None))"

section \<open>The stream flag and the Accept header\<close>

record probe =
  stream :: bool

text \<open>\<open>serde_json::from_slice::<Probe>\<close> is the parameter \<open>probe_from_slice\<close>: the value of the
  field (\<open>false\<close> by default), or an error.\<close>

definition parse_probe :: "deps \<Rightarrow> bytes \<Rightarrow> probe option" where
  "parse_probe D b = map_option (\<lambda>s. \<lparr>stream = s\<rparr>) (probe_from_slice D b)"

definition probe_stream_flag :: "deps \<Rightarrow> bytes \<Rightarrow> bool" where
  "probe_stream_flag D json_body =
     (case map_option stream (parse_probe D json_body) of Some b \<Rightarrow> b | None \<Rightarrow> False)"

definition accepts_event_stream :: "deps \<Rightarrow> header_map \<Rightarrow> bool" where
  "accepts_event_stream D headers =
     (case Option.bind (hm_get headers ''accept'') (header_to_str D) of
        Some s \<Rightarrow> str_trim s = ''text/event-stream''
      | None \<Rightarrow> False)"

section \<open>Suffixes are whole segments\<close>

text \<open>A path ends with \<open>/\<close> and a text without \<open>/\<close> exactly when that text is its last segment
  and there is a segment before it.\<close>

lemma ends_with_segment:
  assumes "CHR ''/'' \<notin> set t"
  shows "ends_with p (CHR ''/'' # t) \<longleftrightarrow> (\<exists>ss. ss \<noteq> [] \<and> split_on (CHR ''/'') p = ss @ [t])"
proof
  assume "ends_with p (CHR ''/'' # t)"
  then obtain q where "p = q @ CHR ''/'' # t" by (auto simp: ends_with_iff)
  with assms show "\<exists>ss. ss \<noteq> [] \<and> split_on (CHR ''/'') p = ss @ [t]"
    by (auto simp: rust_str intro!: exI [of _ "split_on (CHR ''/'') q"])
next
  assume "\<exists>ss. ss \<noteq> [] \<and> split_on (CHR ''/'') p = ss @ [t]"
  then obtain ss where ss: "ss \<noteq> []" "split_on (CHR ''/'') p = ss @ [t]" by blast
  have "join_with c (ss @ [t]) = join_with c ss @ c # t" if "ss \<noteq> []" for c
    using that by (induction c ss rule: join_with.induct) auto
  with ss have "p = join_with (CHR ''/'') ss @ CHR ''/'' # t"
    by (metis join_split_on)
  then show "ends_with p (CHR ''/'' # t)" by (auto simp: ends_with_iff)
qed

lemma ends_with_two_segments:
  assumes "CHR ''/'' \<notin> set t" "CHR ''/'' \<notin> set u"
  shows "ends_with p (CHR ''/'' # t @ CHR ''/'' # u) \<longleftrightarrow>
    (\<exists>ss. ss \<noteq> [] \<and> split_on (CHR ''/'') p = ss @ [t, u])"
proof
  assume "ends_with p (CHR ''/'' # t @ CHR ''/'' # u)"
  then obtain q where "p = q @ CHR ''/'' # t @ CHR ''/'' # u" by (auto simp: ends_with_iff)
  with assms show "\<exists>ss. ss \<noteq> [] \<and> split_on (CHR ''/'') p = ss @ [t, u]"
    by (auto simp: rust_str intro!: exI [of _ "split_on (CHR ''/'') q"])
next
  assume "\<exists>ss. ss \<noteq> [] \<and> split_on (CHR ''/'') p = ss @ [t, u]"
  then obtain ss where ss: "ss \<noteq> []" "split_on (CHR ''/'') p = ss @ [t, u]" by blast
  have "join_with c (ss @ [t, u]) = join_with c ss @ c # t @ c # u" if "ss \<noteq> []" for c
    using that by (induction c ss rule: join_with.induct) auto
  with ss have "p = join_with (CHR ''/'') ss @ CHR ''/'' # t @ CHR ''/'' # u"
    by (metis join_split_on)
  then show "ends_with p (CHR ''/'' # t @ CHR ''/'' # u)" by (auto simp: ends_with_iff)
qed

lemma alt_sse_pair:
  "(case split_once (CHR ''='') p of Some (k, v) \<Rightarrow> (k, v) | None \<Rightarrow> (p, '''')) = (''alt'', ''sse'')
    \<longleftrightarrow> p = ''alt=sse''"
proof (cases "split_once (CHR ''='') p")
  case None
  then have "CHR ''='' \<notin> set p" by (simp add: split_once_None_iff)
  then show ?thesis unfolding None by auto
next
  case (Some kv)
  then obtain k v where kv: "split_once (CHR ''='') p = Some (k, v)" by (cases kv) auto
  then have "p = k @ CHR ''='' # v" "CHR ''='' \<notin> set k" by (simp_all add: split_once_Some)
  moreover have "split_once (CHR ''='') (''alt=sse'') = Some (''alt'', ''sse'')"
    by (simp add: split_once_Some)
  ultimately show ?thesis using kv by auto
qed

lemma alt_sse_pairs_iff: "alt_sse_pairs ps \<longleftrightarrow> ''alt=sse'' \<in> set ps"
proof (induction ps)
  case Nil
  then show ?case by simp
next
  case (Cons p ps)
  obtain k v where kv: "(case split_once (CHR ''='') p of Some (k, v) \<Rightarrow> (k, v) | None \<Rightarrow> (p, '''')) = (k, v)"
    by (cases "case split_once (CHR ''='') p of Some (k, v) \<Rightarrow> (k, v) | None \<Rightarrow> (p, '''')") auto
  then have "k = ''alt'' \<and> v = ''sse'' \<longleftrightarrow> p = ''alt=sse''"
    using alt_sse_pair [of p] by auto
  with Cons kv show ?case by auto
qed

text \<open>The reference: the endpoint named by the list of path segments and the query.\<close>

definition kind_of_segments :: "str list \<Rightarrow> str option \<Rightarrow> endpoint_kind option" where
  "kind_of_segments segs q =
     (case rev segs of
        [] \<Rightarrow> None
      | l # before \<Rightarrow>
          if l = ''completions'' \<and> 2 \<le> length before \<and> hd before = ''chat'' then Some ChatCompletions
          else if l = ''responses'' \<and> before \<noteq> [] then Some Responses
          else if l = ''messages'' \<and> before \<noteq> [] then Some AnthropicMessages
          else if ends_with l '':streamGenerateContent'' \<and>
                  ''alt=sse'' \<in> set (split_on (CHR ''&'') (case q of Some s \<Rightarrow> s | None \<Rightarrow> ''''))
          then Some GeminiStream else None)"

lemma ends_with_last_segment:
  assumes "CHR ''/'' \<notin> set t" "split_on (CHR ''/'') p = segs @ [l]"
  shows "ends_with p (CHR ''/'' # t) \<longleftrightarrow> l = t \<and> segs \<noteq> []"
  using ends_with_segment [OF assms(1), of p] assms(2) by auto

lemma ends_with_chat:
  assumes "split_on (CHR ''/'') p = segs @ [l]"
  shows "ends_with p ''/chat/completions'' \<longleftrightarrow>
    l = ''completions'' \<and> 2 \<le> length segs \<and> last segs = ''chat''"
proof -
  have "ends_with p ''/chat/completions'' \<longleftrightarrow>
      (\<exists>ss. ss \<noteq> [] \<and> segs @ [l] = ss @ [''chat'', ''completions''])"
    using ends_with_two_segments [of "''chat''" "''completions''" p] assms by simp
  also have "\<dots> \<longleftrightarrow> l = ''completions'' \<and> (\<exists>ss. ss \<noteq> [] \<and> segs = ss @ [''chat''])"
    using append_eq_append_conv [of "[l]" "[''completions'']" segs] by auto
  also have "\<dots> \<longleftrightarrow> l = ''completions'' \<and> 2 \<le> length segs \<and> last segs = ''chat''"
    by (cases segs rule: rev_cases) (auto simp: Suc_le_eq)
  finally show ?thesis .
qed

lemma match_endpoint_kind:
  "match_endpoint meth path query =
     (if meth = ''POST'' then kind_of_segments (split_on (CHR ''/'') path) query else None)"
proof -
  obtain segs l where sl: "split_on (CHR ''/'') path = segs @ [l]"
    by (cases "split_on (CHR ''/'') path" rule: rev_cases) auto
  then have "rsplit_next (CHR ''/'') path = Some l" by (simp add: rust_str)
  moreover have "kind_of_segments (segs @ [l]) query =
     (if ends_with path ''/chat/completions'' then Some ChatCompletions
      else if ends_with path ''/responses'' then Some Responses
      else if ends_with path ''/messages'' then Some AnthropicMessages
      else if ends_with l '':streamGenerateContent'' \<and>
              has_alt_sse (case query of Some q \<Rightarrow> q | None \<Rightarrow> '''')
      then Some GeminiStream else None)"
    using ends_with_chat [OF sl] ends_with_last_segment [OF _ sl, of "''responses''"]
      ends_with_last_segment [OF _ sl, of "''messages''"]
    by (simp add: kind_of_segments_def has_alt_sse_def alt_sse_pairs_iff hd_rev)
  ultimately show ?thesis using sl by (simp add: match_endpoint_def)
qed

text \<open>C18: matching an endpoint by suffixes of the path is matching whole path segments, under
  any prefix: a POST request is recognised exactly when its last segments, and for Gemini one
  whole pair of its query, are those of the endpoint; any other method is never recognised.\<close>

theorem match_endpoint_segments:
  "match_endpoint meth path query =
     (if meth = ''POST'' then kind_of_segments (split_on (CHR ''/'') path) query else None)"
  by (rule match_endpoint_kind)

lemma ends_with_both:
  "ends_with s a \<Longrightarrow> ends_with s b \<Longrightarrow> length a \<le> length b \<Longrightarrow> ends_with b a"
  by (auto simp: ends_with_iff append_eq_append_conv2)

lemma last_segment_split: "rsplit_next c s = Some l \<Longrightarrow> c \<notin> set l \<and> (s = l \<or> (\<exists>q. s = q @ c # l))"
proof (induction s arbitrary: l)
  case Nil
  then show ?case by (simp add: rust_str)
next
  case (Cons x xs)
  obtain m where m: "rsplit_next c xs = Some m" by (simp add: rust_str)
  with Cons.prems have "l = (if x \<noteq> c \<and> c \<notin> set xs then x # xs else m)"
    by (cases "c \<in> set xs") (auto simp: rust_str split: list.splits, metis split_on_segments list.set_intros(1) join_split_on join_with.simps(2))
  with Cons.IH [OF m] show ?case by (auto intro: exI [of _ "x # _"])
qed

lemma last_segment_ends_with:
  assumes "rsplit_next c s = Some l" "c \<notin> set t"
  shows "ends_with l t \<longleftrightarrow> ends_with s t"
proof -
  from last_segment_split [OF assms(1)] consider "s = l" | q where "s = q @ c # l" by blast
  then show ?thesis
  proof cases
    case 1
    then show ?thesis by simp
  next
    case 2
    with assms(2) show ?thesis
      by (auto simp: ends_with_iff append_eq_append_conv2 append_eq_Cons_conv Cons_eq_append_conv)
  qed
qed

text \<open>The README's ``any prefix'': putting any text in front of a recognised path leaves it
  recognised as the same endpoint.\<close>

lemma match_endpoint_prefix:
  assumes "match_endpoint meth path query = Some kind"
  shows "match_endpoint meth (pre @ path) query = Some kind"
proof -
  obtain l where l: "rsplit_next (CHR ''/'') path = Some l" by (simp add: rust_str)
  obtain l' where l': "rsplit_next (CHR ''/'') (pre @ path) = Some l'" by (simp add: rust_str)
  let ?s = "'':streamGenerateContent''"
  have seg: "ends_with l ?s \<longleftrightarrow> ends_with path ?s" "ends_with l' ?s \<longleftrightarrow> ends_with (pre @ path) ?s"
    using last_segment_ends_with [OF l] last_segment_ends_with [OF l'] by simp_all
  have up: "ends_with path t \<Longrightarrow> ends_with (pre @ path) t" for t
    by (auto simp: ends_with_iff)
  have clash: "ends_with (pre @ path) a \<Longrightarrow> \<not> ends_with b a \<Longrightarrow> \<not> ends_with a b \<Longrightarrow> \<not> ends_with (pre @ path) b"
    for a b using ends_with_both by (metis nat_le_linear)
  from assms have post: "meth = ''POST''" by (simp add: match_endpoint_def split: if_splits)
  show ?thesis
  proof (cases kind)
    case ChatCompletions
    with assms l seg up [of "''/chat/completions''"] show ?thesis
      by (simp add: match_endpoint_def split: if_splits)
  next
    case Responses
    with assms l seg have "ends_with (pre @ path) ''/responses''"
      by (intro up) (simp add: match_endpoint_def split: if_splits)
    with post Responses clash [of "''/responses''" "''/chat/completions''"] show ?thesis
      by (simp add: match_endpoint_def, simp add: ends_with_def)
  next
    case AnthropicMessages
    with assms l seg have "ends_with (pre @ path) ''/messages''"
      by (intro up) (simp add: match_endpoint_def split: if_splits)
    with post AnthropicMessages clash [of "''/messages''" "''/chat/completions''"]
      clash [of "''/messages''" "''/responses''"] show ?thesis
      by (simp add: match_endpoint_def, simp add: ends_with_def)
  next
    case GeminiStream
    with assms l seg have "ends_with (pre @ path) ?s"
      "has_alt_sse (case query of Some q \<Rightarrow> q | None \<Rightarrow> '''')"
      by (auto intro!: up simp: match_endpoint_def split: if_splits)
    with post GeminiStream l' seg clash [of ?s "''/chat/completions''"]
      clash [of ?s "''/responses''"] clash [of ?s "''/messages''"] show ?thesis
      by (simp add: match_endpoint_def, simp add: ends_with_def)
  qed
qed

text \<open>The query test looks at whole pairs: \<open>alt=sse\<close> is found exactly when it is one of
  the segments between \<open>&\<close>; in particular a leading question mark is not tolerated, although
  the comment of the function says so.\<close>

lemma has_alt_sse_pairs:
  "(has_alt_sse query \<longleftrightarrow> ''alt=sse'' \<in> set (split_on (CHR ''&'') query)) \<and>
   has_alt_sse ''foo=bar&alt=sse&'' \<and> \<not> has_alt_sse ''?alt=sse''"
  by (simp add: has_alt_sse_def alt_sse_pairs_iff)

text \<open>The \<open>Accept\<close> test is exact: it holds when the first \<open>Accept\<close> value is readable text
  that is \<open>text/event-stream\<close> surrounded by white space only, so lists of types, parameters and
  other spellings are refused.\<close>

lemma accepts_event_stream_iff:
  "accepts_event_stream D headers \<longleftrightarrow>
    (\<exists>v s ws vs. hm_get headers ''accept'' = Some v \<and> header_to_str D v = Some s \<and>
       set ws \<subseteq> set white_space \<and> set vs \<subseteq> set white_space \<and>
       s = concat ws @ ''text/event-stream'' @ concat vs)"
proof -
  have 1: "\<forall>w \<in> set white_space. take (length w) (''text/event-stream'') \<noteq> w"
    by (simp add: white_space_def)
  have 2: "\<forall>w \<in> set white_space. \<not> ends_with (''text/event-stream'') w"
    by (simp add: white_space_def ends_with_def)
  show ?thesis
    using str_trim_eq_iff [OF 1 2]
    by (auto simp: accepts_event_stream_def split: option.splits bind_splits)
qed

end
