(* ===== verification/Sample.thy ===== *)
theory Sample
  imports Externals
begin

text \<open>
  A concrete instance of the parameter \<open>deps\<close>, used only by the witnesses: it shows that the
  named hypotheses on the crates can hold together, and lets the witnesses evaluate. It is not
  a model of the crates: the decoders are stand-ins (\<open>gzip\<close> doubles every byte, so that decoding
  expands), the JSON parser knows a few texts. The JSON printer is a real compact printer, for
  which \<open>json_one_line\<close> is proved.
\<close>

section \<open>Byte search\<close>

fun index2 :: "byte \<Rightarrow> byte \<Rightarrow> bytes \<Rightarrow> nat option" where
  "index2 a b [] = None"
| "index2 a b (x # xs) = (if x = a \<or> x = b then Some 0 else map_option Suc (index2 a b xs))"

lemma index2_spec:
  "case index2 a b s of
     None \<Rightarrow> a \<notin> set s \<and> b \<notin> set s
   | Some i \<Rightarrow> i < length s \<and> s ! i \<in> {a, b} \<and> (\<forall>j < i. s ! j \<notin> {a, b})"
proof (induction s)
  case Nil
  then show ?case by simp
next
  case (Cons x s)
  show ?case
  proof (cases "x = a \<or> x = b")
    case True
    then show ?thesis by auto
  next
    case False
    with Cons show ?thesis
      by (cases "index2 a b s") (auto simp: nth_Cons split: nat.split)
  qed
qed

section \<open>A compact JSON printer\<close>

definition hex_digit :: "nat \<Rightarrow> char" where
  "hex_digit n = (if n < 10 then char_of (48 + n) else char_of (87 + n))"

definition escape :: "char \<Rightarrow> str" where
  "escape c =
     (if c = CHR 0x22 then [CHR 0x5C, CHR 0x22]
      else if c = CHR 0x5C then [CHR 0x5C, CHR 0x5C]
      else if byte_val c < 32
      then [CHR 0x5C, CHR ''u'', CHR ''0'', CHR ''0'', hex_digit (byte_val c div 16), hex_digit (byte_val c mod 16)]
      else [c])"

definition print_string :: "str \<Rightarrow> str" where
  "print_string s = [CHR 0x22] @ concat (map escape s) @ [CHR 0x22]"

fun commas :: "str list \<Rightarrow> str" where
  "commas [] = []"
| "commas [s] = s"
| "commas (s # t # ts) = s @ '','' @ commas (t # ts)"

fun print_number :: "jnumber \<Rightarrow> str" where
  "print_number (PosInt n) = show_nat (unat n)"
| "print_number (NegInt n) = ''-'' @ show_nat (nat (- sint n))"
| "print_number (Float n) = ''0.0''"

fun print_json :: "json \<Rightarrow> str" where
  "print_json JNull = ''null''"
| "print_json (JBool b) = (if b then ''true'' else ''false'')"
| "print_json (JNumber n) = print_number n"
| "print_json (JString s) = print_string s"
| "print_json (JArray vs) = ''['' @ commas (map print_json vs) @ '']''"
| "print_json (JObject es) =
     ''{'' @ commas (map (\<lambda>e. print_string (fst e) @ '':'' @ print_json (snd e)) es) @ ''}''"

definition one_line :: "str \<Rightarrow> bool" where
  "one_line s \<longleftrightarrow> LF \<notin> set s \<and> CR \<notin> set s"

lemma one_line_simps [simp]:
  "one_line []" "one_line (a @ b) \<longleftrightarrow> one_line a \<and> one_line b"
  "one_line (c # s) \<longleftrightarrow> c \<noteq> LF \<and> c \<noteq> CR \<and> one_line s"
  by (auto simp: one_line_def)



lemma hex_digit_neq: "n < 16 \<Longrightarrow> hex_digit n \<noteq> LF \<and> hex_digit n \<noteq> CR"
proof -
  assume "n < 16"
  then have "byte_val (hex_digit n) = (if n < 10 then 48 + n else 87 + n)"
    by (simp add: hex_digit_def)
  then have "byte_val (hex_digit n) \<noteq> 10" "byte_val (hex_digit n) \<noteq> 13" by auto
  then show ?thesis by auto
qed

lemma escape_one_line: "one_line (escape c)"
  using hex_digit_neq [of "byte_val c div 16"] hex_digit_neq [of "byte_val c mod 16"]
  by (auto simp: escape_def)

lemma print_string_one_line: "one_line (print_string s)"
proof -
  have "one_line (concat (map escape s))" by (induction s) (auto simp: escape_one_line)
  then show ?thesis by (simp add: print_string_def)
qed

lemma commas_one_line: "(\<And>s. s \<in> set ss \<Longrightarrow> one_line s) \<Longrightarrow> one_line (commas ss)"
  by (induction ss rule: commas.induct) auto

lemma show_nat_one_line: "one_line (show_nat n)"
proof -
  have "c \<noteq> LF \<and> c \<noteq> CR" if "c \<in> set (show_nat n)" for c
    using show_nat_digits [OF that] by (auto simp: is_digit_def)
  then show ?thesis by (auto simp: one_line_def)
qed

lemma print_json_one_line: "one_line (print_json v)"
proof (induction v rule: print_json.induct)
  case (3 n)
  then show ?case by (cases n) (auto simp: show_nat_one_line)
next
  case (5 vs)
  then show ?case by (auto intro!: commas_one_line)
next
  case (6 es)
  then show ?case by (auto intro!: commas_one_line simp: print_string_one_line)
qed (auto simp: print_string_one_line)

section \<open>The instance\<close>

definition visible :: "bytes \<Rightarrow> bool" where
  "visible b \<longleftrightarrow> list_all (\<lambda>c. (32 \<le> byte_val c \<and> byte_val c < 127) \<or> c = CHR 0x09) b"

fun collect_frames :: "nat \<Rightarrow> incoming \<Rightarrow> collect_error + bytes" where
  "collect_frames n [] = Inr []"
| "collect_frames n (Inl e # fs) = Inl (BodyError e)"
| "collect_frames n (Inr b # fs) =
     (if n < length b then Inl LengthLimitError
      else map_sum id ((@) b) (collect_frames (n - length b) fs))"

lemma collect_frames_data:
  "collect_frames n (map Inr cs) =
     (if length (concat cs) \<le> n then Inr (concat cs) else Inl LengthLimitError)"
  by (induction cs arbitrary: n) auto

definition slow_down :: json where
  "slow_down = json_object [(''error'', json_object [(''message'', JString ''slow down'')])]"

definition sample_deps :: deps where
  "sample_deps = \<lparr>
     memchr2 = index2,
     header_to_str = (\<lambda>b. if visible b then Some b else None),
     header_name_try_from = (\<lambda>s. if s \<noteq> [] \<and> visible s then Some (to_ascii_lowercase s) else None),
     header_value_from_str = (\<lambda>s. if visible s then Some s else None),
     json_from_slice = map_of [(''{\"error\": {\"message\": \"slow down\"}}'', slow_down)],
     json_to_string = (\<lambda>v. Some (print_json v)),
     probe_from_slice = map_of [(''{\"stream\":true}'', True), (''{}'', False)],
     canonical_reason = map_of [(429, ''Too Many Requests''), (500, ''Internal Server Error''), (502, ''Bad Gateway'')],
     gzip_decoder = (\<lambda>r. r\<lparr>delivered := concat (map (\<lambda>c. [c, c]) (delivered r))\<rparr>),
     zlib_decoder = id, brotli_decoder = id, zstd_decoder = id,
     stream_reader = (\<lambda>xs. \<lparr>delivered = items_bytes xs, failure = items_error xs\<rparr>),
     reader_stream = (\<lambda>r. (if delivered r = [] then [] else [Inr (delivered r)]) @
                          (case failure r of None \<Rightarrow> [] | Some e \<Rightarrow> [Inl e])),
     limited_collect = (\<lambda>n. collect_frames (unat n)),
     uri_path = (\<lambda>u. case u_path_and_query u of None \<Rightarrow> [] | Some p \<Rightarrow> takeWhile (\<lambda>c. c \<noteq> CHR ''?'') p),
     uri_query = (\<lambda>u. case u_path_and_query u of None \<Rightarrow> None
        | Some p \<Rightarrow> map_option snd (split_once (CHR ''?'') p)),
     uri_from_str = (\<lambda>s. if take 7 s = ''http://'' \<and> visible s
        then Inr \<lparr>u_scheme = Some ''http'', u_authority = Some (takeWhile (\<lambda>c. c \<noteq> CHR ''/'') (drop 7 s)),
                  u_path_and_query = Some (case dropWhile (\<lambda>c. c \<noteq> CHR ''/'') (drop 7 s) of [] \<Rightarrow> ''/'' | p \<Rightarrow> p)\<rparr>
        else Inl ''invalid format''),
     path_and_query_from_str = (\<lambda>s. if s = [] then None else Some s),
     uri_from_parts = (\<lambda>u. if u_path_and_query u = Some [] \<or> (u_scheme u \<noteq> None \<and> u_path_and_query u = None)
        then None else Some u),
     instant_max = 9223372036854775808000000000\<rparr>"

text \<open>The range of a Unix clock: \<open>i64\<close> seconds, here in nanoseconds.\<close>

lemma sample_max: "instant_max sample_deps = 9223372036854775808000000000"
  by (simp add: sample_deps_def)

lemma sample_memchr2_ok: "memchr2_ok sample_deps"
  unfolding memchr2_ok_def using index2_spec by (simp add: sample_deps_def)

lemma sample_json_total: "json_total sample_deps"
  by (simp add: json_total_def sample_deps_def)

lemma sample_json_one_line: "json_one_line sample_deps"
  using print_json_one_line by (simp add: json_one_line_def sample_deps_def one_line_def)

lemma sample_streams_ok: "streams_ok sample_deps"
  unfolding streams_ok_def
proof (intro conjI allI)
  fix r
  show "\<exists>cs. reader_stream sample_deps r =
          map Inr cs @ (case failure r of None \<Rightarrow> [] | Some e \<Rightarrow> [Inl e]) \<and> concat cs = delivered r"
    by (intro exI [of _ "if delivered r = [] then [] else [delivered r]"])
      (auto simp: sample_deps_def)
qed (simp_all add: sample_deps_def)

lemma sample_limited_ok: "limited_ok sample_deps"
  by (simp add: limited_ok_def sample_deps_def collect_frames_data)

lemma sample_uri_ok: "uri_ok sample_deps"
  by (auto simp: uri_ok_def sample_deps_def split: option.splits if_splits)

lemma visible_takeWhile: "visible s \<Longrightarrow> visible (takeWhile P (drop n s))"
  by (auto simp: visible_def list_all_iff dest!: set_takeWhileD in_set_dropD)

lemma sample_uri_parse_ok: "uri_parse_ok sample_deps"
  by (auto simp: uri_parse_ok_def sample_deps_def visible_takeWhile split: list.splits if_splits)

end
