(* ===== verification/Encoding.thy ===== *)
theory Encoding
  imports Headers Sample
begin

text \<open>
  \<open>src/encoding.rs\<close>: the content codings and their parsing, one-shot decoding with an output
  limit, the streaming decoder, and \<open>SseWriter\<close>. The contract of a writer towards the tasks
  that use it is the locale \<open>event_sink\<close>.
\<close>

section \<open>Content codings\<close>

datatype coding = Identity | Gzip | Deflate | Br | Zstd

definition coding_parse :: "str \<Rightarrow> coding option" where
  "coding_parse s =
     (if eq_ignore_ascii_case s ''identity'' then Some Identity
      else (let l = to_ascii_lowercase s in
        if l = ''gzip'' \<or> l = ''x-gzip'' then Some Gzip
        else if l = ''deflate'' then Some Deflate
        else if l = ''br'' then Some Br
        else if l = ''zstd'' then Some Zstd
        else None))"

definition parse_content_encoding :: "deps \<Rightarrow> header_map \<Rightarrow> coding option" where
  "parse_content_encoding D headers =
     (case hm_get_all headers ''content-encoding'' of
        [] \<Rightarrow> Some Identity
      | first # rest \<Rightarrow>
          if rest \<noteq> [] then None
          else (case header_to_str D first of
                  None \<Rightarrow> None
                | Some s \<Rightarrow>
                    (let ps = filter (\<lambda>p. p \<noteq> []) (map str_trim (split_on (CHR '','') s))
                     in if length ps \<noteq> 1 then None else coding_parse (ps ! 0))))"

section \<open>One-shot decoding\<close>

text \<open>\<open>take(n)\<close> and \<open>read_to_end\<close> of tokio's \<open>AsyncReadExt\<close>: at most \<open>n\<close> bytes are read, and an
  error of the reader is met only if fewer than \<open>n\<close> bytes come before it.\<close>

definition take_read_to_end :: "reader \<Rightarrow> u64 \<Rightarrow> io_error + bytes" where
  "take_read_to_end r n =
     (if unat n \<le> length (delivered r) then Inr (take (unat n) (delivered r))
      else (case failure r of None \<Rightarrow> Inr (delivered r) | Some e \<Rightarrow> Inl e))"

text \<open>\<open>max_out as u64 + 1\<close> wraps in a release build.\<close>

definition decode_async :: "reader \<Rightarrow> usize \<Rightarrow> io_error + bytes" where
  "decode_async decoder max_out =
     (case take_read_to_end decoder (max_out + 1) of
        Inl e \<Rightarrow> Inl e
      | Inr out \<Rightarrow>
          if length out > unat max_out
          then Inl (IoError InvalidData (''decoded size exceeds limit '' @ show_nat (unat max_out)))
          else Inr out)"

text \<open>A slice of bytes as a reader.\<close>

definition slice_reader :: "bytes \<Rightarrow> reader" where
  "slice_reader b = \<lparr>delivered = b, failure = None\<rparr>"

definition decode_bytes :: "deps \<Rightarrow> coding \<Rightarrow> bytes \<Rightarrow> usize \<Rightarrow> io_error + bytes" where
  "decode_bytes D c input max_out =
     (case c of
        Identity \<Rightarrow>
          if length input > unat max_out
          then Inl (IoError InvalidData
                 (''decoded size '' @ show_nat (length input) @ '' exceeds limit '' @ show_nat (unat max_out)))
          else Inr input
      | Gzip \<Rightarrow> decode_async (gzip_decoder D (slice_reader input)) max_out
      | Deflate \<Rightarrow> decode_async (zlib_decoder D (slice_reader input)) max_out
      | Br \<Rightarrow> decode_async (brotli_decoder D (slice_reader input)) max_out
      | Zstd \<Rightarrow> decode_async (zstd_decoder D (slice_reader input)) max_out)"

section \<open>Streaming decoding\<close>

text \<open>Body errors become \<open>io::Error::other\<close>. \<open>BufReader\<close> only buffers; it is part of the
  parameter \<open>stream_reader\<close>.\<close>

definition body_to_io_stream :: "incoming \<Rightarrow> io_item list" where
  "body_to_io_stream body = map (map_sum (IoError Other) id) body"

definition decoder_stream :: "deps \<Rightarrow> coding \<Rightarrow> incoming \<Rightarrow> io_item list" where
  "decoder_stream D c body =
     (let bufreader = stream_reader D (body_to_io_stream body) in
      case c of
        Identity \<Rightarrow> reader_stream D bufreader
      | Gzip \<Rightarrow> reader_stream D (gzip_decoder D bufreader)
      | Deflate \<Rightarrow> reader_stream D (zlib_decoder D bufreader)
      | Br \<Rightarrow> reader_stream D (brotli_decoder D bufreader)
      | Zstd \<Rightarrow> reader_stream D (zstd_decoder D bufreader))"

section \<open>The downstream writer\<close>

text \<open>
  \<open>SseWriter\<close> owns the sender of the frame channel. Its state is the list of frames accepted so
  far and, in \<open>room\<close>, how many more the receiver takes before it is dropped (\<open>None\<close>: it is never
  dropped); the sends of a task see the receiver alive up to some point and closed from then on,
  so this number stands for any moment of disconnection. The theory of the channel shows that
  every run of the bounded channel is one of these.
\<close>

record sse_writer =
  sent :: "bytes list"
  room :: "nat option"

definition writer_new :: "nat option \<Rightarrow> sse_writer" where
  "writer_new r = \<lparr>sent = [], room = r\<rparr>"

definition write_event :: "bytes \<Rightarrow> sse_writer \<Rightarrow> (io_error + unit) \<times> sse_writer" where
  "write_event b w =
     (case room w of
        None \<Rightarrow> (Inr (), w\<lparr>sent := sent w @ [b]\<rparr>)
      | Some 0 \<Rightarrow> (Inl (IoError Other ''client gone''), w)
      | Some (Suc n) \<Rightarrow> (Inr (), w\<lparr>sent := sent w @ [b], room := Some n\<rparr>))"

text \<open>\<open>end\<close> drops the sender: the body ends after the frames already sent.\<close>

definition writer_end :: "sse_writer \<Rightarrow> bytes list" where
  "writer_end w = sent w"

locale event_sink =
  fixes put :: "bytes \<Rightarrow> 'w \<Rightarrow> (io_error + unit) \<times> 'w"
    and frames :: "'w \<Rightarrow> bytes list"
  assumes write_ok: "put b w = (Inr u, w') \<Longrightarrow> frames w' = frames w @ [b]"
    and write_err: "put b w = (Inl e, w') \<Longrightarrow> w' = w"
    and write_gone: "put b w = (Inl e, w') \<Longrightarrow> put b' w' = (Inl e, w')"
begin

lemma write_cases:
  obtains (ok) w' where "put b w = (Inr (), w')" "frames w' = frames w @ [b]"
  | (gone) e where "put b w = (Inl e, w)"
proof (cases "put b w")
  case (Pair r w')
  then show ?thesis using write_ok write_err ok gone by (cases r) auto
qed

text \<open>Once a write has failed, a list of writes adds nothing.\<close>

lemma gone_forever:
  "put b w = (Inl e, w) \<Longrightarrow> snd (put b' w) = w"
  using write_gone by fastforce

end

interpretation ws: event_sink write_event sent
  by unfold_locales (auto simp: write_event_def split: option.splits nat.splits)

lemma write_event_simps [writer_simps]:
  "room w = None \<Longrightarrow> write_event b w = (Inr (), w\<lparr>sent := sent w @ [b]\<rparr>)"
  "room w = Some 0 \<Longrightarrow> write_event b w = (Inl (IoError Other ''client gone''), w)"
  "room w = Some (Suc n) \<Longrightarrow> write_event b w = (Inr (), w\<lparr>sent := sent w @ [b], room := Some n\<rparr>)"
  by (simp_all add: write_event_def)

section \<open>Properties\<close>

definition coding_names :: "(str \<times> coding) list" where
  "coding_names =
     [(''identity'', Identity), (''gzip'', Gzip), (''x-gzip'', Gzip), (''deflate'', Deflate),
      (''br'', Br), (''zstd'', Zstd)]"

lemma coding_parse_names: "coding_parse s = map_of coding_names (to_ascii_lowercase s)"
proof -
  have "to_ascii_lowercase (''identity'') = ''identity''" by code_simp
  then have "eq_ignore_ascii_case s ''identity'' \<longleftrightarrow> to_ascii_lowercase s = ''identity''"
    by (simp add: eq_ignore_ascii_case_def to_ascii_lowercase_def)
  then show ?thesis by (auto simp: coding_parse_def coding_names_def Let_def)
qed

text \<open>A response or request has a known coding exactly when it has no \<open>Content-Encoding\<close> header
  (then it is the identity), or exactly one whose text holds, between commas and up to white
  space, exactly one token, and that token is one of the six names in any case.\<close>

lemma parse_content_encoding_iff:
  "parse_content_encoding D headers = Some c \<longleftrightarrow>
     (hm_get_all headers ''content-encoding'' = [] \<and> c = Identity) \<or>
     (\<exists>v s p. hm_get_all headers ''content-encoding'' = [v] \<and> header_to_str D v = Some s \<and>
        filter (\<lambda>p. p \<noteq> []) (map str_trim (split_on (CHR '','') s)) = [p] \<and>
        map_of coding_names (to_ascii_lowercase p) = Some c)"
  by (auto simp: parse_content_encoding_def coding_parse_names Let_def length_Suc_conv
      split: list.splits option.splits if_splits)

text \<open>The reader behind a coding, and its outcome without a limit.\<close>

definition decoder_reader :: "deps \<Rightarrow> coding \<Rightarrow> reader \<Rightarrow> reader" where
  "decoder_reader D c r =
     (case c of Identity \<Rightarrow> r | Gzip \<Rightarrow> gzip_decoder D r | Deflate \<Rightarrow> zlib_decoder D r
      | Br \<Rightarrow> brotli_decoder D r | Zstd \<Rightarrow> zstd_decoder D r)"

lemma unat_plus_one: "m \<noteq> - 1 \<Longrightarrow> unat (m + 1) = unat m + 1" for m :: u64
proof -
  assume "m \<noteq> - 1"
  then have "1 + m \<noteq> 0" by (metis add_eq_0_iff)
  then show ?thesis by (simp add: unatSuc add.commute)
qed

lemma decode_async_simp:
  assumes "m \<noteq> - 1"
  shows "decode_async r m =
    (if length (delivered r) > unat m
     then Inl (IoError InvalidData (''decoded size exceeds limit '' @ show_nat (unat m)))
     else case failure r of None \<Rightarrow> Inr (delivered r) | Some e \<Rightarrow> Inl e)"
  using assms by (auto simp: decode_async_def take_read_to_end_def unat_plus_one split: option.splits)

lemma decode_async_bound: "decode_async r m = Inr out \<Longrightarrow> length out \<le> unat m"
  by (auto simp: decode_async_def split: sum.splits if_splits)

lemma decode_bytes_reader:
  "c \<noteq> Identity \<Longrightarrow> decode_bytes D c input m = decode_async (decoder_reader D c (slice_reader input)) m"
  by (cases c) (auto simp: decode_bytes_def decoder_reader_def)

lemma decode_bytes_bound: "decode_bytes D c input m = Inr out \<Longrightarrow> length out \<le> unat m"
  by (cases c) (auto simp: decode_bytes_def split: if_splits dest: decode_async_bound)

text \<open>C31: one-shot decoding with any limit below the largest \<open>usize\<close> returns what the decoder
  delivers exactly when the decoder ends without an error and the output is within the limit;
  an output above the limit is an \<open>InvalidData\<close> error even if the decoder fails later, and any
  other failure is the decoder's.\<close>

theorem decode_bytes_limit:
  assumes "m \<noteq> - 1" and "decoder_reader D c (slice_reader input) = r"
  shows "(decode_bytes D c input m = Inr out \<longleftrightarrow>
            failure r = None \<and> out = delivered r \<and> length out \<le> unat m) \<and>
         (unat m < length (delivered r) \<longrightarrow>
            (\<exists>msg. decode_bytes D c input m = Inl (IoError InvalidData msg))) \<and>
         (length (delivered r) \<le> unat m \<longrightarrow> failure r = Some e \<longrightarrow> decode_bytes D c input m = Inl e)"
proof (cases "c = Identity")
  case True
  with assms(2) show ?thesis by (auto simp: decode_bytes_def decoder_reader_def slice_reader_def)
next
  case False
  with assms(2) have "decode_bytes D c input m = decode_async r m" by (auto simp: decode_bytes_reader)
  then show ?thesis unfolding decode_async_simp [OF assms(1)] by (auto split: option.splits)
qed

theorem decode_bytes_limit_witness:
  "decode_bytes sample_deps Gzip ''ab'' 4 = Inr ''aabb'' \<and>
   (\<exists>msg. decode_bytes sample_deps Gzip ''ab'' 3 = Inl (IoError InvalidData msg))"
proof -
  let ?r = "\<lparr>delivered = ''aabb'', failure = None\<rparr>"
  have r: "decoder_reader sample_deps Gzip (slice_reader ''ab'') = ?r"
    by (simp add: decoder_reader_def slice_reader_def sample_deps_def)
  have "decode_bytes sample_deps Gzip ''ab'' 4 = Inr ''aabb''"
    using decode_bytes_limit [OF _ r, of 4 "''aabb''"] by simp
  moreover have "\<exists>msg. decode_bytes sample_deps Gzip ''ab'' 3 = Inl (IoError InvalidData msg)"
    using decode_bytes_limit [OF _ r, of 3] by simp
  ultimately show ?thesis by blast
qed

text \<open>The sum \<open>max_out as u64 + 1\<close> wraps at the largest limit, so with that limit (which
  \<open>--max-probe-body\<close> accepts) every compressed input decodes to the empty string, whatever it
  holds; within the limit or not, no result is ever longer than the limit.\<close>

lemma decode_bytes_wrap:
  "(c \<noteq> Identity \<longrightarrow> decode_bytes D c input (- 1) = Inr []) \<and>
   (\<forall>m out. decode_bytes D c input m = Inr out \<longrightarrow> length out \<le> unat m)"
  by (auto simp: decode_bytes_reader decode_async_def take_read_to_end_def dest: decode_bytes_bound)

text \<open>The bytes and the error of a body as the program passes them on.\<close>

lemma items_bytes_append_Inr: "items_bytes (map Inr cs @ xs) = concat cs @ items_bytes xs"
  by (induction cs) auto

lemma items_error_append_Inr: "items_error (map Inr cs @ xs) = items_error xs"
  by (induction cs) auto

lemma decoder_stream_reader:
  "decoder_stream D c body =
     reader_stream D (decoder_reader D c (stream_reader D (body_to_io_stream body)))"
  by (cases c) (simp_all add: decoder_stream_def decoder_reader_def Let_def)

lemma reader_stream_items:
  assumes "streams_ok D"
  shows "items_bytes (reader_stream D r) = delivered r \<and> items_error (reader_stream D r) = failure r"
proof -
  from assms obtain cs where
    "reader_stream D r = map Inr cs @ (case failure r of None \<Rightarrow> [] | Some e \<Rightarrow> [Inl e])"
    "concat cs = delivered r" unfolding streams_ok_def by blast
  then show ?thesis
    by (auto simp: items_bytes_append_Inr items_error_append_Inr split: option.splits)
qed

text \<open>The streaming decoder of an identity body loses nothing and adds nothing: the chunks it
  yields hold, in order, the bytes of the body up to its first error, and it ends with that
  error as an \<open>io::Error::other\<close>, or normally when the body has none.\<close>

lemma decoder_stream_identity:
  assumes "streams_ok D"
  shows "items_bytes (decoder_stream D Identity body) = items_bytes (body_to_io_stream body) \<and>
         items_error (decoder_stream D Identity body) = items_error (body_to_io_stream body)"
  using assms reader_stream_items [OF assms]
  by (auto simp: decoder_stream_reader decoder_reader_def streams_ok_def)

end
