(* ===== verification/Channel.thy ===== *)
theory Channel
  imports Encoding
begin

text \<open>
  \<open>sse_channel\<close> of \<open>src/sse.rs\<close>: the channel between a bridging task and the response body. The
  channel itself is tokio's bounded \<open>mpsc\<close>, with a \<open>ReceiverStream\<close> as the body; it is a parameter,
  the set of the traces that a channel of a given capacity may show, and what its documentation
  promises is \<open>mpsc_ok\<close>. The lemmas show that the writer the tasks are modelled with (frames accepted
  up to some moment, all refused from then on) is what any such channel does.
\<close>

section \<open>The channel\<close>

text \<open>What is seen at a channel: a send that is accepted or refused, a frame received, the drop of
  either half, and the end of the stream.\<close>

datatype chan_event =
  Accepted bytes | Refused bytes | Received bytes | Dropped_tx | Dropped_rx | Ended

type_synonym mpsc = "nat \<Rightarrow> chan_event list \<Rightarrow> bool"

fun accepted :: "chan_event list \<Rightarrow> bytes list" where
  "accepted [] = []"
| "accepted (Accepted b # tr) = b # accepted tr"
| "accepted (e # tr) = accepted tr"

fun received :: "chan_event list \<Rightarrow> bytes list" where
  "received [] = []"
| "received (Received b # tr) = b # received tr"
| "received (e # tr) = received tr"

fun refused :: "chan_event list \<Rightarrow> bytes list" where
  "refused [] = []"
| "refused (Refused b # tr) = b # refused tr"
| "refused (e # tr) = refused tr"

text \<open>The documentation of \<open>tokio::sync::mpsc\<close>: messages are received in the order they were sent,
  at most as many as the capacity wait, a send fails exactly when the receiver has been dropped,
  and \<open>recv\<close> returns \<open>None\<close> when the sender is gone and no message is left.\<close>

definition mpsc_ok :: "mpsc \<Rightarrow> bool" where
  "mpsc_ok M \<longleftrightarrow>
     (\<forall>n tr. M n tr \<longrightarrow>
        prefix (received tr) (accepted tr) \<and>
        (Dropped_rx \<notin> set tr \<longrightarrow> length (accepted tr) \<le> length (received tr) + n \<and> refused tr = []) \<and>
        (\<forall>a b. tr = a @ Dropped_rx # b \<longrightarrow> accepted b = [] \<and> received b = []) \<and>
        (Ended \<in> set tr \<longrightarrow> Dropped_tx \<in> set tr \<and> received tr = accepted tr) \<and>
        (\<forall>a b. tr = a @ b \<longrightarrow> M n a))"

lemma mpsc_laws:
  assumes "mpsc_ok M" "M n tr"
  shows "prefix (received tr) (accepted tr)"
    and "Dropped_rx \<notin> set tr \<Longrightarrow> length (accepted tr) \<le> length (received tr) + n"
    and "Ended \<in> set tr \<Longrightarrow> Dropped_tx \<in> set tr \<and> received tr = accepted tr"
    and "Dropped_rx \<notin> set tr \<Longrightarrow> refused tr = []"
    and "tr = a @ Dropped_rx # b \<Longrightarrow> accepted b = []"
    and "tr = a @ b \<Longrightarrow> M n a"
  using assms unfolding mpsc_ok_def by blast+

definition CAPACITY :: nat where "CAPACITY = 16"

text \<open>\<open>sse_channel\<close> makes a channel of that capacity; the body yields what is received, frame by
  frame, and ends with the stream.\<close>

definition sse_channel :: "mpsc \<Rightarrow> chan_event list \<Rightarrow> bool" where
  "sse_channel M tr \<longleftrightarrow> M CAPACITY tr"

section \<open>Lemmas\<close>

lemma accepted_append [simp]: "accepted (a @ b) = accepted a @ accepted b"
  by (induction a rule: accepted.induct) auto

lemma refused_append [simp]: "refused (a @ b) = refused a @ refused b"
  by (induction a rule: refused.induct) auto

text \<open>The calls of the sender: accepted sends, and its drop.\<close>

fun sender_side :: "chan_event list \<Rightarrow> chan_event list" where
  "sender_side [] = []"
| "sender_side (Accepted b # tr) = Accepted b # sender_side tr"
| "sender_side (Dropped_tx # tr) = Dropped_tx # sender_side tr"
| "sender_side (e # tr) = sender_side tr"

lemma sender_side_accepted: "accepted (sender_side tr) = accepted tr"
  by (induction tr rule: sender_side.induct) auto

lemma sender_side_dropped: "Dropped_tx \<in> set (sender_side tr) \<longleftrightarrow> Dropped_tx \<in> set tr"
  by (induction tr rule: sender_side.induct) auto

lemma accepted_sends [simp]: "accepted (map Accepted bs) = bs"
  by (induction bs) auto

text \<open>A trace whose sender side is the beginning of a list of sends with a drop at the very end.\<close>

lemma sender_prefix:
  assumes "prefix (sender_side tr) (map Accepted bs @ (if fin then [Dropped_tx] else []))"
  shows "prefix (accepted tr) bs"
    and "Dropped_tx \<in> set tr \<Longrightarrow> fin \<and> accepted tr = bs"
proof -
  obtain z where z: "map Accepted bs @ (if fin then [Dropped_tx] else []) = sender_side tr @ z"
    using assms by (auto simp: prefix_def)
  then have "accepted (map Accepted bs @ (if fin then [Dropped_tx] else [])) = accepted (sender_side tr @ z)" by simp
  then have bs: "bs = accepted tr @ accepted z" by (simp add: sender_side_accepted split: if_splits)
  then show "prefix (accepted tr) bs" by simp
  assume "Dropped_tx \<in> set tr"
  then have d: "Dropped_tx \<in> set (sender_side tr)" by (simp add: sender_side_dropped)
  with z have "Dropped_tx \<in> set (map Accepted bs @ (if fin then [Dropped_tx] else []))" by simp
  then have fin by (auto split: if_splits)
  moreover have "z = []"
  proof (rule ccontr)
    assume "z \<noteq> []"
    then obtain y x where "z = y @ [x]" by (cases z rule: rev_cases) auto
    with z \<open>fin\<close> have "map Accepted bs = sender_side tr @ y" by simp
    with d have "Dropped_tx \<in> set (map Accepted bs)" by simp
    then show False by auto
  qed
  ultimately show "fin \<and> accepted tr = bs" using bs by simp
qed

section \<open>The writer it implements\<close>

text \<open>The sends of a trace with their results, in order.\<close>

fun sends :: "chan_event list \<Rightarrow> (bytes \<times> (io_error + unit)) list" where
  "sends [] = []"
| "sends (Accepted b # tr) = (b, Inr ()) # sends tr"
| "sends (Refused b # tr) = (b, Inl (IoError Other ''client gone'')) # sends tr"
| "sends (e # tr) = sends tr"

lemma sends_append [simp]: "sends (a @ b) = sends a @ sends b"
  by (induction a rule: sends.induct) auto

text \<open>Frames written one after the other to an \<open>SseWriter\<close>.\<close>

fun write_all :: "sse_writer \<Rightarrow> bytes list \<Rightarrow> (io_error + unit) list \<times> sse_writer" where
  "write_all w [] = ([], w)"
| "write_all w (b # bs) =
     (let (r, w') = write_event b w; (rs, w'') = write_all w' bs in (r # rs, w''))"

abbreviation gone :: "io_error + unit" where "gone \<equiv> Inl (IoError Other ''client gone'')"

lemma write_all_live:
  "room w = None \<Longrightarrow> write_all w bs = (map (\<lambda>b. Inr ()) bs, w\<lparr>sent := sent w @ bs\<rparr>)"
  by (induction bs arbitrary: w) (simp_all add: writer_simps)

lemma write_all_gone:
  "room w = Some 0 \<Longrightarrow> write_all w bs = (map (\<lambda>b. gone) bs, w)"
  by (induction bs) (simp_all add: writer_simps)

lemma write_all_room:
  "room w = Some (length bs) \<Longrightarrow>
     write_all w (bs @ cs) = (map (\<lambda>b. Inr ()) bs @ map (\<lambda>b. gone) cs, w\<lparr>sent := sent w @ bs, room := Some 0\<rparr>)"
  by (induction bs arbitrary: w) (simp_all add: writer_simps write_all_gone)

lemma sends_accepted: "refused tr = [] \<Longrightarrow> sends tr = map (\<lambda>b. (b, Inr ())) (accepted tr)"
  by (induction tr rule: sends.induct) auto

lemma sends_refused: "accepted tr = [] \<Longrightarrow> sends tr = map (\<lambda>b. (b, gone)) (refused tr)"
  by (induction tr rule: sends.induct) auto

text \<open>In any trace of a channel the accepted sends come before the refused ones, and none is refused
  while the receiver lives.\<close>

lemma mpsc_sends:
  assumes "mpsc_ok M" "M n tr"
  shows "sends tr = map (\<lambda>b. (b, Inr ())) (accepted tr) @ map (\<lambda>b. (b, gone)) (refused tr)"
    and "Dropped_rx \<notin> set tr \<Longrightarrow> refused tr = []"
proof -
  note laws = mpsc_laws [OF assms]
  show no: "Dropped_rx \<notin> set tr \<Longrightarrow> refused tr = []" by (rule laws(4))
  show "sends tr = map (\<lambda>b. (b, Inr ())) (accepted tr) @ map (\<lambda>b. (b, gone)) (refused tr)"
  proof (cases "Dropped_rx \<in> set tr")
    case True
    then obtain a b where tr: "tr = a @ Dropped_rx # b" "Dropped_rx \<notin> set a" by (meson split_list_first)
    then have "M n a" "accepted b = []" using laws(5,6) by blast+
    moreover from mpsc_laws(4) [OF assms(1) this(1) tr(2)] have "refused a = []" .
    ultimately show ?thesis by (simp add: tr(1) sends_accepted sends_refused)
  next
    case False
    with no show ?thesis by (simp add: sends_accepted)
  qed
qed

text \<open>So every trace is a run of a writer that takes some number of frames, any number while the
  receiver lives: the parameter \<open>room\<close> of the tasks.\<close>

lemma mpsc_refines_writer:
  assumes "mpsc_ok M" "M n tr"
  shows "\<exists>r w. write_all (writer_new r) (map fst (sends tr)) = (map snd (sends tr), w) \<and>
    sent w = accepted tr \<and> (Dropped_rx \<notin> set tr \<longrightarrow> r = None)"
proof (cases "Dropped_rx \<in> set tr")
  case True
  with mpsc_sends [OF assms] write_all_room [of "writer_new (Some (length (accepted tr)))" "accepted tr" "refused tr"]
  show ?thesis
    by (intro exI [of _ "Some (length (accepted tr))"]) (auto simp: writer_new_def o_def)
next
  case False
  with mpsc_sends [OF assms] write_all_live [of "writer_new None" "accepted tr"] show ?thesis
    by (intro exI [of _ None]) (auto simp: writer_new_def o_def)
qed

section \<open>An instance\<close>

text \<open>A queue, with a flag for each half that is still there.\<close>

fun fifo_from :: "nat \<Rightarrow> bytes list \<Rightarrow> bool \<Rightarrow> bool \<Rightarrow> chan_event list \<Rightarrow> bool" where
  "fifo_from n q rx tx [] = True"
| "fifo_from n q rx tx (Accepted b # tr) = (tx \<and> rx \<and> length q < n \<and> fifo_from n (q @ [b]) rx tx tr)"
| "fifo_from n q rx tx (Refused b # tr) = (tx \<and> \<not> rx \<and> fifo_from n q rx tx tr)"
| "fifo_from n q rx tx (Received b # tr) = (rx \<and> q \<noteq> [] \<and> hd q = b \<and> fifo_from n (tl q) rx tx tr)"
| "fifo_from n q rx tx (Dropped_tx # tr) = (tx \<and> fifo_from n q rx False tr)"
| "fifo_from n q rx tx (Dropped_rx # tr) = (rx \<and> fifo_from n [] False tx tr)"
| "fifo_from n q rx tx (Ended # tr) = (rx \<and> \<not> tx \<and> q = [] \<and> fifo_from n q rx tx tr)"

definition fifo :: mpsc where "fifo n tr \<longleftrightarrow> fifo_from n [] True True tr"

lemma fifo_tx: "fifo_from n q rx False tr \<Longrightarrow> accepted tr = []"
proof (induction tr arbitrary: q rx)
  case (Cons e tr)
  then show ?case by (cases e) auto
qed simp

lemma fifo_rx: "fifo_from n q False tx tr \<Longrightarrow> accepted tr = [] \<and> received tr = []"
proof (induction tr arbitrary: q tx)
  case (Cons e tr)
  then show ?case by (cases e) auto
qed simp

lemma fifo_order: "fifo_from n q True tx tr \<Longrightarrow> prefix (received tr) (q @ accepted tr)"
proof (induction tr arbitrary: q tx)
  case (Cons e tr)
  then show ?case by (cases e; cases q) (fastforce dest: fifo_rx)+
qed simp

lemma fifo_bound:
  "fifo_from n q True tx tr \<Longrightarrow> Dropped_rx \<notin> set tr \<Longrightarrow> length q \<le> n \<Longrightarrow>
     length q + length (accepted tr) \<le> length (received tr) + n \<and> refused tr = []"
proof (induction tr arbitrary: q tx)
  case (Cons e tr)
  then show ?case by (cases e; cases q) fastforce+
qed simp

lemma fifo_split:
  "fifo_from n q rx tx (a @ b) \<Longrightarrow> fifo_from n q rx tx a \<and> (\<exists>q rx tx. fifo_from n q rx tx b)"
  by (induction n q rx tx a rule: fifo_from.induct) auto

lemma fifo_ended:
  "fifo_from n q rx tx tr \<Longrightarrow> Ended \<in> set tr \<Longrightarrow>
     rx \<and> (tx \<longrightarrow> Dropped_tx \<in> set tr) \<and> received tr = q @ accepted tr"
proof (induction n q rx tx tr rule: fifo_from.induct)
  case (4 n q rx tx b tr)
  then show ?case by (cases q) auto
next
  case (7 n q rx tx tr)
  then have "accepted tr = []" "prefix (received tr) (accepted tr)"
    using fifo_tx [of n "[]" True tr] fifo_order [of n "[]" False tr] by auto
  with 7 show ?case by auto
qed auto

lemma fifo_ok: "mpsc_ok fifo"
  unfolding mpsc_ok_def fifo_def
proof (intro allI impI conjI)
  fix n tr
  assume f: "fifo_from n [] True True tr"
  show "prefix (received tr) (accepted tr)" using fifo_order [OF f] by simp
  show "Dropped_rx \<notin> set tr \<Longrightarrow> length (accepted tr) \<le> length (received tr) + n"
    "Dropped_rx \<notin> set tr \<Longrightarrow> refused tr = []"
    using fifo_bound [OF f] by simp_all
  show "Ended \<in> set tr \<Longrightarrow> Dropped_tx \<in> set tr" "Ended \<in> set tr \<Longrightarrow> received tr = accepted tr"
    using fifo_ended [OF f] by simp_all
  fix a b
  show "tr = a @ b \<Longrightarrow> fifo_from n [] True True a" using f fifo_split by blast
  assume "tr = a @ Dropped_rx # b"
  with f obtain q rx tx where "fifo_from n q rx tx (Dropped_rx # b)" using fifo_split by blast
  then have "fifo_from n [] False tx b" by simp
  then show "accepted b = []" "received b = []" using fifo_rx by blast+
qed

end
