(* ===== verification/Config.thy ===== *)
theory Config
  imports Sample
begin

text \<open>
  \<open>src/config.rs\<close>: the defaults of the command line, \<open>ResolvedConfig::parse\<close> with its four
  errors, and \<open>parse_or_exit\<close>. Addresses and URIs are values of the crates; a duration is a number
  of nanoseconds. The parsing of the command line and of the environment is clap's: the model
  starts from the values it finds, \<open>None\<close> where neither the option nor its variable is given.
\<close>

section \<open>Configuration\<close>

record config =
  c_listen :: str
  c_upstream :: str
  c_heartbeat_interval :: u64
  c_connect_timeout :: u64
  c_max_probe_body :: usize
  c_shutdown_timeout :: u64

record resolved_config =
  rc_listen :: str
  rc_upstream :: uri
  rc_upstream_authority :: str
  rc_heartbeat_interval :: nat
  rc_connect_timeout :: nat
  rc_max_probe_body :: usize
  rc_shutdown_timeout :: nat

text \<open>The attributes \<open>default_value\<close> and \<open>default_value_t\<close>; the upstream has no default.\<close>

definition config_of_args ::
    "str option \<Rightarrow> str \<Rightarrow> u64 option \<Rightarrow> u64 option \<Rightarrow> usize option \<Rightarrow> u64 option \<Rightarrow> config" where
  "config_of_args listen upstream heartbeat connect probe shutdown =
     \<lparr>c_listen = (case listen of Some l \<Rightarrow> l | None \<Rightarrow> ''0.0.0.0:8080''),
      c_upstream = upstream,
      c_heartbeat_interval = (case heartbeat of Some n \<Rightarrow> n | None \<Rightarrow> 60),
      c_connect_timeout = (case connect of Some n \<Rightarrow> n | None \<Rightarrow> 10),
      c_max_probe_body = (case probe of Some n \<Rightarrow> n | None \<Rightarrow> 32 * 1024 * 1024),
      c_shutdown_timeout = (case shutdown of Some n \<Rightarrow> n | None \<Rightarrow> 30)\<rparr>"

text \<open>\<open>Duration::from_secs\<close>, in nanoseconds.\<close>

definition from_secs :: "u64 \<Rightarrow> nat" where
  "from_secs n = unat n * 1000000000"

definition resolved_config_parse :: "deps \<Rightarrow> config \<Rightarrow> str + resolved_config" where
  "resolved_config_parse D cfg =
     (case uri_from_str D (c_upstream cfg) of
        Inl e \<Rightarrow> Inl (''invalid --upstream `'' @ c_upstream cfg @ ''`: '' @ e)
      | Inr u \<Rightarrow>
          if u_scheme u \<noteq> Some ''http''
          then Inl (''--upstream must use `http://` scheme, got `'' @
                 (case u_scheme u of Some s \<Rightarrow> s | None \<Rightarrow> ''(none)'') @ ''`'')
          else (case u_authority u of
                  None \<Rightarrow> Inl ''--upstream missing authority (host[:port])''
                | Some authority \<Rightarrow>
                    if uri_path D u \<noteq> ''/'' \<and> uri_path D u \<noteq> []
                    then Inl (''--upstream must not carry a path; got `'' @ uri_path D u @ ''`'')
                    else Inr \<lparr>rc_listen = c_listen cfg, rc_upstream = u,
                              rc_upstream_authority = authority,
                              rc_heartbeat_interval = from_secs (c_heartbeat_interval cfg),
                              rc_connect_timeout = from_secs (c_connect_timeout cfg),
                              rc_max_probe_body = c_max_probe_body cfg,
                              rc_shutdown_timeout = from_secs (c_shutdown_timeout cfg)\<rparr>))"

text \<open>On an error: what goes to standard error, and \<open>ExitCode::FAILURE\<close>.\<close>

datatype exit_code = EXIT_SUCCESS | EXIT_FAILURE

definition parse_or_exit :: "deps \<Rightarrow> config \<Rightarrow> (str \<times> exit_code) + resolved_config" where
  "parse_or_exit D cfg =
     (case resolved_config_parse D cfg of
        Inr rc \<Rightarrow> Inr rc
      | Inl e \<Rightarrow> Inl (''keep-sse: '' @ e, EXIT_FAILURE))"

section \<open>Valid configurations\<close>

text \<open>What the rest of the program relies on in a resolved configuration.\<close>

definition config_ok :: "deps \<Rightarrow> resolved_config \<Rightarrow> bool" where
  "config_ok D rc \<longleftrightarrow>
     u_scheme (rc_upstream rc) = Some ''http'' \<and>
     u_authority (rc_upstream rc) = Some (rc_upstream_authority rc) \<and>
     header_value_from_str D (rc_upstream_authority rc) = Some (rc_upstream_authority rc)"

lemma resolved_config_parse_Inr:
  "resolved_config_parse D cfg = Inr rc \<longleftrightarrow>
     (\<exists>u a. uri_from_str D (c_upstream cfg) = Inr u \<and> u_scheme u = Some ''http'' \<and> u_authority u = Some a \<and>
        uri_path D u \<in> {''/'', []} \<and>
        rc = \<lparr>rc_listen = c_listen cfg, rc_upstream = u, rc_upstream_authority = a,
              rc_heartbeat_interval = from_secs (c_heartbeat_interval cfg),
              rc_connect_timeout = from_secs (c_connect_timeout cfg),
              rc_max_probe_body = c_max_probe_body cfg,
              rc_shutdown_timeout = from_secs (c_shutdown_timeout cfg)\<rparr>)"
  by (auto simp: resolved_config_parse_def split: sum.splits option.splits if_splits)

lemma resolved_config_ok:
  "uri_parse_ok D \<Longrightarrow> resolved_config_parse D cfg = Inr rc \<Longrightarrow> config_ok D rc"
  by (auto simp: resolved_config_parse_Inr config_ok_def uri_parse_ok_def)

text \<open>A configuration for the witnesses of the other theories.\<close>

definition sample_cfg :: resolved_config where
  "sample_cfg =
     \<lparr>rc_listen = ''0.0.0.0:8080'',
      rc_upstream = \<lparr>u_scheme = Some ''http'', u_authority = Some ''up:80'', u_path_and_query = Some ''/''\<rparr>,
      rc_upstream_authority = ''up:80'', rc_heartbeat_interval = 60000000000,
      rc_connect_timeout = 10000000000, rc_max_probe_body = 64, rc_shutdown_timeout = 30000000000\<rparr>"

lemma sample_cfg_ok: "config_ok sample_deps sample_cfg"
  by (simp add: config_ok_def sample_cfg_def sample_deps_def visible_def)

text \<open>C39: a configuration is accepted exactly when its upstream is a URI with scheme \<open>http\<close>, an
  authority and no path beyond \<open>/\<close>; then each of the seven resolved settings is the one given (the
  three durations in nanoseconds), and the authority is a valid header value; otherwise the program
  stops with the exit code of a failure and a message on standard error that starts with its name
  and says which of the four conditions failed.\<close>

theorem parse_or_exit_iff:
  assumes "uri_parse_ok D"
  shows "(case parse_or_exit D cfg of
      Inr rc \<Rightarrow> (\<exists>u a. uri_from_str D (c_upstream cfg) = Inr u \<and> u_scheme u = Some ''http'' \<and>
          u_authority u = Some a \<and> uri_path D u \<in> {''/'', []} \<and>
          rc = \<lparr>rc_listen = c_listen cfg, rc_upstream = u, rc_upstream_authority = a,
                rc_heartbeat_interval = unat (c_heartbeat_interval cfg) * 10 ^ 9,
                rc_connect_timeout = unat (c_connect_timeout cfg) * 10 ^ 9,
                rc_max_probe_body = c_max_probe_body cfg,
                rc_shutdown_timeout = unat (c_shutdown_timeout cfg) * 10 ^ 9\<rparr>) \<and>
        config_ok D rc
    | Inl (out, code) \<Rightarrow> code = EXIT_FAILURE \<and>
        (case uri_from_str D (c_upstream cfg) of
           Inl e \<Rightarrow> prefix ''keep-sse: invalid --upstream'' out \<and> suffix e out
         | Inr u \<Rightarrow>
             if u_scheme u \<noteq> Some ''http'' then prefix ''keep-sse: --upstream must use'' out
             else if u_authority u = None then out = ''keep-sse: --upstream missing authority (host[:port])''
             else uri_path D u \<notin> {''/'', []} \<and> prefix ''keep-sse: --upstream must not carry a path'' out))"
proof (cases "resolved_config_parse D cfg")
  case (Inr rc)
  then have "parse_or_exit D cfg = Inr rc" by (simp add: parse_or_exit_def)
  moreover have "config_ok D rc" using assms Inr by (rule resolved_config_ok)
  ultimately show ?thesis
    using Inr [unfolded resolved_config_parse_Inr] by (auto simp: from_secs_def)
next
  case (Inl e)
  then show ?thesis
    by (auto simp: parse_or_exit_def resolved_config_parse_def split: sum.splits option.splits if_splits
        intro!: suffix_ConsI suffix_appendI)
qed

theorem parse_or_exit_iff_witness:
  "\<exists>rc. parse_or_exit sample_deps (config_of_args None ''http://up:80'' (Some 5) None None None) = Inr rc \<and>
     rc_heartbeat_interval rc = 5000000000 \<and> config_ok sample_deps rc"
proof -
  let ?cfg = "config_of_args None ''http://up:80'' (Some 5) None None None"
  have "\<exists>rc. parse_or_exit sample_deps ?cfg = Inr rc"
    by (simp add: parse_or_exit_def resolved_config_parse_def config_of_args_def sample_deps_def visible_def)
  with parse_or_exit_iff [OF sample_uri_parse_ok, of ?cfg] show ?thesis
    by (auto simp: config_of_args_def)
qed

end
