(* ===== verification/Proxy.thy ===== *)
theory Proxy
  imports Headers Config
begin

text \<open>
  \<open>src/proxy.rs\<close>: hop-by-hop headers, the upstream URI, the rewriting of a request, the 502
  response and the transparent path. The HTTP client of hyper-util is the parameter \<open>client\<close>: the
  answer it gives to a request. An exchange is the request that was sent, if any, and the response
  given to the downstream client. The response bodies that a spawned task feeds are a constructor
  of \<open>resp_body\<close> in terms of a type of tasks, which the theory of the SSE path instantiates.
\<close>

section \<open>Responses\<close>

datatype 't resp_body = Resp_Full bytes | Resp_Incoming incoming | Resp_Task 't

record 't response =
  rs_status :: status_code
  rs_headers :: header_map
  rs_body :: "'t resp_body"

type_synonym 't exchange = "request option \<times> 't response"

section \<open>Hop-by-hop headers\<close>

definition HOP_BY_HOP :: "str list" where
  "HOP_BY_HOP =
     [''keep-alive'', ''transfer-encoding'', ''te'', ''trailer'', ''upgrade'',
      ''proxy-authorization'', ''proxy-authenticate'']"

definition connection_list :: "deps \<Rightarrow> header_map \<Rightarrow> str list" where
  "connection_list D headers =
     List.map_filter (header_name_try_from D)
       (filter (\<lambda>s. s \<noteq> [])
          (concat (map (\<lambda>s. map str_trim (split_on (CHR '','') s))
             (List.map_filter (header_to_str D) (hm_get_all headers ''connection'')))))"

definition strip_hop_by_hop :: "deps \<Rightarrow> header_map \<Rightarrow> header_map" where
  "strip_hop_by_hop D headers =
     fold hm_remove HOP_BY_HOP
       (fold hm_remove (connection_list D headers) (hm_remove ''connection'' headers))"

section \<open>Rewriting a request\<close>

definition upstream_uri :: "deps \<Rightarrow> resolved_config \<Rightarrow> uri \<Rightarrow> uri rs" where
  "upstream_uri D cfg original =
     (let path_and_query = (case u_path_and_query original of Some p \<Rightarrow> p | None \<Rightarrow> ''/'') in
      rs_bind (expect ''path_and_query valid'' (path_and_query_from_str D path_and_query)) (\<lambda>pq.
      expect ''uri parts valid'' (uri_from_parts D ((rc_upstream cfg)\<lparr>u_path_and_query := Some pq\<rparr>))))"

definition rewrite_host :: "bytes \<Rightarrow> header_map \<Rightarrow> header_map" where
  "rewrite_host host_val headers = hm_insert ''host'' host_val (hm_remove ''host'' headers)"

definition rewrite_request :: "deps \<Rightarrow> resolved_config \<Rightarrow> request \<Rightarrow> request rs" where
  "rewrite_request D cfg req =
     rs_bind (upstream_uri D cfg (p_uri req)) (\<lambda>uri.
     rs_bind (expect ''authority valid'' (header_value_from_str D (rc_upstream_authority cfg))) (\<lambda>host_val.
     Ret (req\<lparr>p_headers := strip_hop_by_hop D (rewrite_host host_val (p_headers req)), p_uri := uri\<rparr>)))"

section \<open>The transparent path\<close>

text \<open>The status, header and body given to the builder are valid, so building cannot fail; printing
  the JSON value is the only step that might.\<close>

definition json_error_response :: "deps \<Rightarrow> status_code \<Rightarrow> str \<Rightarrow> str \<Rightarrow> 't response rs" where
  "json_error_response D status msg ty =
     rs_bind (expect ''json serializable'' (json_to_string D
        (json_object [(''error'', json_object [(''message'', JString msg), (''type'', JString ty)])])))
       (\<lambda>s. Ret \<lparr>rs_status = status, rs_headers = hm_insert ''content-type'' ''application/json'' [],
                 rs_body = Resp_Full s\<rparr>)"

definition bad_gateway :: "deps \<Rightarrow> str \<Rightarrow> 't response rs" where
  "bad_gateway D reason =
     json_error_response D 502 (''upstream request failed: '' @ reason) ''server_error''"

definition passthrough_response :: "deps \<Rightarrow> upstream_response \<Rightarrow> 't response" where
  "passthrough_response D resp =
     \<lparr>rs_status = up_status resp, rs_headers = strip_hop_by_hop D (up_headers resp),
      rs_body = Resp_Incoming (up_body resp)\<rparr>"

definition proxy_req ::
    "deps \<Rightarrow> resolved_config \<Rightarrow> (request \<Rightarrow> upstream_result) \<Rightarrow> request \<Rightarrow> 't exchange rs" where
  "proxy_req D cfg client req =
     rs_bind (rewrite_request D cfg req) (\<lambda>up_req.
     rs_bind (case client up_req of
                Inr resp \<Rightarrow> Ret (passthrough_response D resp)
              | Inl e \<Rightarrow> bad_gateway D e) (\<lambda>resp.
     Ret (Some up_req, resp)))"

text \<open>\<open>Request::from_parts\<close>; the two entries differ in the body only.\<close>

definition request_from_parts :: "parts \<Rightarrow> req_body \<Rightarrow> request" where
  "request_from_parts p b =
     \<lparr>p_method = p_method p, p_uri = p_uri p, p_headers = p_headers p, r_body = b\<rparr>"

definition proxy ::
    "deps \<Rightarrow> resolved_config \<Rightarrow> (request \<Rightarrow> upstream_result) \<Rightarrow> parts \<Rightarrow> incoming \<Rightarrow> 't exchange rs" where
  "proxy D cfg client p body = proxy_req D cfg client (request_from_parts p (Req_Incoming body))"

definition proxy_buffered ::
    "deps \<Rightarrow> resolved_config \<Rightarrow> (request \<Rightarrow> upstream_result) \<Rightarrow> parts \<Rightarrow> bytes \<Rightarrow> 't exchange rs" where
  "proxy_buffered D cfg client p body = proxy_req D cfg client (request_from_parts p (Req_Full body))"

text \<open>The settings of the client.\<close>

record client_settings =
  cs_connect_timeout :: "nat option"
  cs_enforce_http :: bool
  cs_pool_idle_timeout :: "nat option"
  cs_set_host :: bool

definition build_client :: "resolved_config \<Rightarrow> client_settings" where
  "build_client cfg =
     \<lparr>cs_connect_timeout = Some (rc_connect_timeout cfg), cs_enforce_http = True,
      cs_pool_idle_timeout = Some (from_secs 90), cs_set_host = False\<rparr>"

section \<open>Which headers go\<close>

definition hop_names :: "deps \<Rightarrow> header_map \<Rightarrow> str set" where
  "hop_names D h = insert ''connection'' (set HOP_BY_HOP \<union> set (connection_list D h))"

lemma fold_remove_filter: "fold hm_remove ns h = filter (\<lambda>(k, v). k \<notin> set ns) h"
  by (induction ns arbitrary: h)
    (auto simp: hm_remove_def split_beta intro!: filter_cong)

lemma strip_filter: "strip_hop_by_hop D h = filter (\<lambda>(k, v). k \<notin> hop_names D h) h"
  by (auto simp: strip_hop_by_hop_def fold_remove_filter hm_remove_def hop_names_def split_beta
      intro!: filter_cong)

lemma get_all_strip [header_simps]:
  "hm_get_all (strip_hop_by_hop D h) n = (if n \<in> hop_names D h then [] else hm_get_all h n)"
  by (simp add: strip_hop_by_hop_def hop_names_def header_laws)

lemma map_filter_mem: "y \<in> set (List.map_filter f xs) \<longleftrightarrow> (\<exists>x \<in> set xs. f x = Some y)"
  by (force simp: List.map_filter_def)

lemma connection_list_mem:
  "n \<in> set (connection_list D h) \<longleftrightarrow>
     (\<exists>v \<in> set (hm_get_all h ''connection''). \<exists>s. header_to_str D v = Some s \<and>
        (\<exists>p \<in> set (split_on (CHR '','') s). str_trim p \<noteq> [] \<and> header_name_try_from D (str_trim p) = Some n))"
  by (fastforce simp: connection_list_def map_filter_mem)

lemma connection_list_congr:
  "hm_get_all h ''connection'' = hm_get_all g ''connection'' \<Longrightarrow> connection_list D h = connection_list D g"
  by (simp add: connection_list_def)

lemma connection_list_strip [simp]: "connection_list D (strip_hop_by_hop D h) = []"
  by (simp add: connection_list_def get_all_strip hop_names_def)

lemma connection_list_host [simp]: "connection_list D (rewrite_host v h) = connection_list D h"
  by (rule connection_list_congr) (simp add: rewrite_host_def header_laws)

text \<open>A header name is listed by a value of \<open>Connection\<close>.\<close>

definition listed :: "deps \<Rightarrow> header_map \<Rightarrow> str \<Rightarrow> bool" where
  "listed D h n \<longleftrightarrow>
     (\<exists>v \<in> set (hm_get_all h ''connection''). \<exists>s. header_to_str D v = Some s \<and>
        (\<exists>p \<in> set (split_on (CHR '','') s). str_trim p \<noteq> [] \<and> header_name_try_from D (str_trim p) = Some n))"

lemma hop_names_listed:
  "n \<in> hop_names D h \<longleftrightarrow> n = ''connection'' \<or> n \<in> set HOP_BY_HOP \<or> listed D h n"
  by (simp add: hop_names_def listed_def connection_list_mem)

lemma strip_idem: "strip_hop_by_hop D (strip_hop_by_hop D h) = strip_hop_by_hop D h"
  by (simp add: strip_filter [of D "strip_hop_by_hop D h"] hop_names_def)
    (auto simp: strip_filter hop_names_def intro!: filter_cong)

section \<open>Properties\<close>

text \<open>C16: \<open>strip_hop_by_hop\<close> removes every value of \<open>Connection\<close>, of the seven hop-by-hop headers and
  of each header that a value of \<open>Connection\<close> lists, and leaves every other header, with all its
  values in their order, as it was (the crate may reorder different names); a second pass changes
  nothing.\<close>

theorem strip_hop_by_hop_exact:
  "strip_hop_by_hop D h =
     filter (\<lambda>(k, v). \<not> (k = ''connection'' \<or> k \<in> set HOP_BY_HOP \<or> listed D h k)) h \<and>
   strip_hop_by_hop D (strip_hop_by_hop D h) = strip_hop_by_hop D h"
  by (simp add: strip_idem) (simp add: strip_filter hop_names_listed)

lemma upstream_uri_total:
  assumes "uri_ok D" "config_ok D cfg" "uri_from_parts D u = Some u"
  shows "upstream_uri D cfg u =
    Ret \<lparr>u_scheme = Some ''http'', u_authority = Some (rc_upstream_authority cfg),
         u_path_and_query = Some (case u_path_and_query u of Some p \<Rightarrow> p | None \<Rightarrow> ''/'')\<rparr>"
proof -
  let ?p = "case u_path_and_query u of Some p \<Rightarrow> p | None \<Rightarrow> ''/''"
  let ?v = "(rc_upstream cfg)\<lparr>u_path_and_query := Some ?p\<rparr>"
  have p: "path_and_query_from_str D ?p = Some ?p"
    using assms(1,3) by (auto simp: uri_ok_def split: option.splits)
  then have "uri_from_parts D ?v = Some ?v"
    using assms(1,2) by (auto simp: uri_ok_def config_ok_def)
  moreover have "?v = \<lparr>u_scheme = Some ''http'', u_authority = Some (rc_upstream_authority cfg), u_path_and_query = Some ?p\<rparr>"
    using assms(2) by (cases "rc_upstream cfg") (auto simp: config_ok_def)
  ultimately show ?thesis using p by (simp add: upstream_uri_def Let_def)
qed

text \<open>The request that reaches the upstream.\<close>

definition rewritten :: "deps \<Rightarrow> resolved_config \<Rightarrow> request \<Rightarrow> request" where
  "rewritten D cfg req = req\<lparr>
     p_headers := strip_hop_by_hop D (rewrite_host (rc_upstream_authority cfg) (p_headers req)),
     p_uri := \<lparr>u_scheme = Some ''http'', u_authority = Some (rc_upstream_authority cfg),
        u_path_and_query = Some (case u_path_and_query (p_uri req) of Some p \<Rightarrow> p | None \<Rightarrow> ''/'')\<rparr>\<rparr>"

lemma rewrite_request_rewritten:
  "uri_ok D \<Longrightarrow> config_ok D cfg \<Longrightarrow> uri_from_parts D (p_uri req) = Some (p_uri req) \<Longrightarrow>
     rewrite_request D cfg req = Ret (rewritten D cfg req)"
  by (simp add: rewrite_request_def upstream_uri_total rewritten_def config_ok_def)

lemma rewritten_headers:
  "hm_get_all (p_headers (rewritten D cfg req)) n =
     (if n = ''connection'' \<or> n \<in> set HOP_BY_HOP \<or> listed D (p_headers req) n then []
      else if n = ''host'' then [rc_upstream_authority cfg] else hm_get_all (p_headers req) n)"
proof -
  have "hop_names D (rewrite_host (rc_upstream_authority cfg) (p_headers req)) = hop_names D (p_headers req)"
    by (simp add: hop_names_def)
  then show ?thesis
    by (simp add: rewritten_def get_all_strip hop_names_listed) (simp add: rewrite_host_def header_laws)
qed

text \<open>C17: rewriting a request never panics for a configuration that was parsed and a valid request
  URI: the method and the body are untouched, the URI is the upstream's scheme and authority with
  the path and query of the client, and of the headers exactly \<open>Host\<close> (now the upstream's
  authority, unless it is listed by \<open>Connection\<close>) and the hop-by-hop headers change.\<close>

theorem rewrite_request_exact:
  assumes "uri_ok D" "config_ok D cfg" "uri_from_parts D (p_uri req) = Some (p_uri req)"
  shows "\<exists>req'. rewrite_request D cfg req = Ret req' \<and>
    p_method req' = p_method req \<and> r_body req' = r_body req \<and>
    p_uri req' = \<lparr>u_scheme = Some ''http'', u_authority = Some (rc_upstream_authority cfg),
      u_path_and_query = Some (case u_path_and_query (p_uri req) of Some p \<Rightarrow> p | None \<Rightarrow> ''/'')\<rparr> \<and>
    (\<forall>n. hm_get_all (p_headers req') n =
       (if n = ''connection'' \<or> n \<in> set HOP_BY_HOP \<or> listed D (p_headers req) n then []
        else if n = ''host'' then [rc_upstream_authority cfg] else hm_get_all (p_headers req) n))"
  using rewrite_request_rewritten [OF assms]
  by (simp add: rewritten_headers) (simp add: rewritten_def)

lemma sample_uri_valid:
  "uri_from_parts sample_deps \<lparr>u_scheme = None, u_authority = None, u_path_and_query = Some (CHR ''/'' # p)\<rparr> =
     Some \<lparr>u_scheme = None, u_authority = None, u_path_and_query = Some (CHR ''/'' # p)\<rparr>"
  by (simp add: sample_deps_def)

theorem rewrite_request_exact_witness:
  "\<exists>req'. rewrite_request sample_deps sample_cfg
      \<lparr>p_method = ''GET'', p_uri = \<lparr>u_scheme = None, u_authority = None, u_path_and_query = Some ''/v1/models?x=1''\<rparr>,
       p_headers = [(''host'', ''gw''), (''te'', ''trailers''), (''accept'', ''*/*'')], r_body = Req_Full ''''\<rparr> = Ret req' \<and>
     u_authority (p_uri req') = Some ''up:80'' \<and> u_path_and_query (p_uri req') = Some ''/v1/models?x=1'' \<and>
     hm_get_all (p_headers req') ''host'' = [''up:80''] \<and> hm_get_all (p_headers req') ''te'' = [] \<and>
     hm_get_all (p_headers req') ''accept'' = [''*/*'']"
proof -
  let ?req = "\<lparr>p_method = ''GET'', p_uri = \<lparr>u_scheme = None, u_authority = None, u_path_and_query = Some ''/v1/models?x=1''\<rparr>,
       p_headers = [(''host'', ''gw''), (''te'', ''trailers''), (''accept'', ''*/*'')], r_body = Req_Full ''''\<rparr>"
  have "uri_from_parts sample_deps (p_uri ?req) = Some (p_uri ?req)"
    using sample_uri_valid by simp
  from rewrite_request_exact [OF sample_uri_ok sample_cfg_ok this] obtain req' where
    r: "rewrite_request sample_deps sample_cfg ?req = Ret req'"
    "p_uri req' = \<lparr>u_scheme = Some ''http'', u_authority = Some ''up:80'', u_path_and_query = Some ''/v1/models?x=1''\<rparr>"
    and h: "\<And>n. hm_get_all (p_headers req') n =
      (if n = ''connection'' \<or> n \<in> set HOP_BY_HOP \<or> listed sample_deps (p_headers ?req) n then []
       else if n = ''host'' then [''up:80''] else hm_get_all (p_headers ?req) n)"
    by (auto simp: sample_cfg_def)
  moreover have "\<not> listed sample_deps (p_headers ?req) n" for n
    by (simp add: listed_def hm_get_all_def)
  moreover have "hm_get_all (p_headers ?req) ''accept'' = [''*/*'']" by (simp add: hm_get_all_def)
  ultimately show ?thesis by (intro exI [of _ req']) (simp add: HOP_BY_HOP_def)
qed

text \<open>Because the hop-by-hop headers are removed after \<open>Host\<close> has been rewritten, a client that
  lists \<open>host\<close> in its \<open>Connection\<close> header makes the gateway send a request without any \<open>Host\<close>.\<close>

lemma connection_host_drops_host:
  assumes "uri_ok D" "config_ok D cfg" "uri_from_parts D (p_uri req) = Some (p_uri req)"
    and "listed D (p_headers req) ''host''"
  shows "\<exists>req'. rewrite_request D cfg req = Ret req' \<and> hm_get_all (p_headers req') ''host'' = []"
  using rewrite_request_rewritten [OF assms(1-3)] assms(4) by (simp add: rewritten_headers)

lemma json_error_response_total:
  "json_total D \<Longrightarrow> \<exists>s. json_error_response D st msg ty =
     Ret \<lparr>rs_status = st, rs_headers = [(''content-type'', ''application/json'')], rs_body = Resp_Full s\<rparr> \<and>
     json_to_string D (JObject [(''error'', JObject [(''message'', JString msg), (''type'', JString ty)])]) = Some s"
proof -
  assume "json_total D"
  then obtain s where
    "json_to_string D (JObject [(''error'', JObject [(''message'', JString msg), (''type'', JString ty)])]) = Some s"
    by (auto simp: json_total_def)
  then show ?thesis by (auto simp: json_error_response_def json_object_def hm_insert_def hm_remove_def)
qed

text \<open>The exchange of the transparent path, as a function of the client's answer.\<close>

lemma proxy_req_exchange:
  assumes "uri_ok D" "config_ok D cfg" "uri_from_parts D (p_uri req) = Some (p_uri req)" "json_total D"
  shows "\<exists>resp :: 't response. proxy_req D cfg client req = Ret (Some (rewritten D cfg req), resp) \<and>
    (case client (rewritten D cfg req) of
       Inr up \<Rightarrow> resp = passthrough_response D up
     | Inl e \<Rightarrow> \<exists>s. rs_status resp = 502 \<and> rs_headers resp = [(''content-type'', ''application/json'')] \<and>
         rs_body resp = Resp_Full s \<and>
         json_to_string D (JObject [(''error'', JObject
           [(''message'', JString (''upstream request failed: '' @ e)), (''type'', JString ''server_error'')])]) = Some s)"
proof (cases "client (rewritten D cfg req)")
  case (Inr up)
  then show ?thesis by (simp add: proxy_req_def rewrite_request_rewritten [OF assms(1-3)])
next
  case (Inl e)
  obtain s where
    "(bad_gateway D e :: 't response rs) = Ret \<lparr>rs_status = 502, rs_headers = [(''content-type'', ''application/json'')], rs_body = Resp_Full s\<rparr>"
    "json_to_string D (JObject [(''error'', JObject
       [(''message'', JString (''upstream request failed: '' @ e)), (''type'', JString ''server_error'')])]) = Some s"
    using json_error_response_total [OF assms(4)] unfolding bad_gateway_def by blast
  with Inl show ?thesis by (auto simp: proxy_req_def rewrite_request_rewritten [OF assms(1-3)])
qed

text \<open>C32: the transparent path sends the upstream exactly one request, the rewritten one with the
  body as it comes in; an answer goes back with its status and body as they are and without its
  hop-by-hop headers, and a failed request is answered by a 502 with a JSON body that gives the
  reason.\<close>

theorem proxy_exchange:
  assumes "uri_ok D" "config_ok D cfg" "uri_from_parts D (p_uri p) = Some (p_uri p)" "json_total D"
  shows "\<exists>req (resp :: 't response). proxy D cfg client p body = Ret (Some req, resp) \<and>
    rewrite_request D cfg (request_from_parts p (Req_Incoming body)) = Ret req \<and> r_body req = Req_Incoming body \<and>
    (case client req of
       Inr up \<Rightarrow> rs_status resp = up_status up \<and> rs_body resp = Resp_Incoming (up_body up) \<and>
         rs_headers resp = strip_hop_by_hop D (up_headers up)
     | Inl e \<Rightarrow> \<exists>s. rs_status resp = 502 \<and> rs_headers resp = [(''content-type'', ''application/json'')] \<and>
         rs_body resp = Resp_Full s \<and>
         json_to_string D (JObject [(''error'', JObject
           [(''message'', JString (''upstream request failed: '' @ e)), (''type'', JString ''server_error'')])]) = Some s)"
proof -
  let ?req = "request_from_parts p (Req_Incoming body)"
  have u: "uri_from_parts D (p_uri ?req) = Some (p_uri ?req)"
    using assms(3) by (simp add: request_from_parts_def)
  have "r_body (rewritten D cfg ?req) = Req_Incoming body"
    by (simp add: rewritten_def request_from_parts_def)
  with proxy_req_exchange [OF assms(1,2) u assms(4), where client = client] rewrite_request_rewritten [OF assms(1,2) u]
  show ?thesis
    by (auto simp: proxy_def passthrough_response_def split: sum.splits)
qed

theorem proxy_exchange_witness:
  "\<exists>req (resp :: nat response) s. proxy sample_deps sample_cfg (\<lambda>r. Inl ''refused'')
       \<lparr>p_method = ''GET'', p_uri = \<lparr>u_scheme = None, u_authority = None, u_path_and_query = Some ''/''\<rparr>, p_headers = []\<rparr> [] =
     Ret (Some req, resp) \<and> rs_status resp = 502 \<and> rs_body resp = Resp_Full s"
proof -
  let ?p = "\<lparr>p_method = ''GET'', p_uri = \<lparr>u_scheme = None, u_authority = None, u_path_and_query = Some ''/''\<rparr>, p_headers = []\<rparr>"
  have "uri_from_parts sample_deps (p_uri ?p) = Some (p_uri ?p)"
    using sample_uri_valid [of "''''"] by simp
  from proxy_exchange [OF sample_uri_ok sample_cfg_ok this sample_json_total, of "\<lambda>r. Inl ''refused''" "[]"]
  show ?thesis by auto
qed

end
