(* ===== verification/Sse_Client.thy ===== *)
theory Sse_Client
  imports Prelude
begin

text \<open>
  The abstract specification the SSE path is measured against: how a client interprets an
  event stream (the line and field rules of the WHATWG event stream format, without the
  optional byte order mark at the very start). It is a specification, not code of the
  repository: the gateway only promises what such a client sees. The lemmas say what the
  heartbeat comment, the terminator of a truncated event and a complete \<open>data:\<close> field do to
  the state of the client.
\<close>

section \<open>The client\<close>

record sse_event =
  ev_type :: str
  ev_data :: str
  ev_id :: str

text \<open>The pending line, whether a line feed is still to be skipped (after a carriage return),
  the data, type and identifier buffers, and the events dispatched so far.\<close>

record client =
  cl_line :: str
  cl_skip_lf :: bool
  cl_data :: str
  cl_type :: str
  cl_id :: str
  cl_events :: "sse_event list"

definition client_init :: client where
  "client_init = \<lparr>cl_line = [], cl_skip_lf = False, cl_data = [], cl_type = [], cl_id = [], cl_events = []\<rparr>"

text \<open>Dispatch at a blank line.\<close>

definition cl_dispatch :: "client \<Rightarrow> client" where
  "cl_dispatch c =
     (if cl_data c = [] then c\<lparr>cl_type := []\<rparr>
      else c\<lparr>cl_events := cl_events c @
               [\<lparr>ev_type = (if cl_type c = [] then ''message'' else cl_type c),
                 ev_data = butlast (cl_data c), ev_id = cl_id c\<rparr>],
             cl_data := [], cl_type := []\<rparr>)"

definition cl_field :: "str \<Rightarrow> str \<Rightarrow> client \<Rightarrow> client" where
  "cl_field name val c =
     (if name = ''data'' then c\<lparr>cl_data := cl_data c @ val @ [LF]\<rparr>
      else if name = ''event'' then c\<lparr>cl_type := val\<rparr>
      else if name = ''id'' \<and> CHR 0x00 \<notin> set val then c\<lparr>cl_id := val\<rparr>
      else c)"

text \<open>A complete line: blank, a comment (first byte a colon), a field with a value (one space
  after the colon dropped), or a field without one.\<close>

definition cl_process :: "str \<Rightarrow> client \<Rightarrow> client" where
  "cl_process l c =
     (if l = [] then cl_dispatch c
      else if hd l = CHR '':'' then c
      else (case dropWhile (\<lambda>x. x \<noteq> CHR '':'') l of
              [] \<Rightarrow> cl_field l [] c
            | _ # v \<Rightarrow>
                cl_field (takeWhile (\<lambda>x. x \<noteq> CHR '':'') l)
                  (case v of x # v' \<Rightarrow> if x = CHR '' '' then v' else v | [] \<Rightarrow> []) c))"

definition cl_end_line :: "client \<Rightarrow> client" where
  "cl_end_line c = cl_process (cl_line c) (c\<lparr>cl_line := []\<rparr>)"

definition cl_byte :: "client \<Rightarrow> byte \<Rightarrow> client" where
  "cl_byte c b =
     (if b = LF then (if cl_skip_lf c then c\<lparr>cl_skip_lf := False\<rparr> else cl_end_line c)
      else if b = CR then (cl_end_line c)\<lparr>cl_skip_lf := True\<rparr>
      else c\<lparr>cl_line := cl_line c @ [b], cl_skip_lf := False\<rparr>)"

definition cl_feed :: "client \<Rightarrow> bytes \<Rightarrow> client" where
  "cl_feed c bs = foldl cl_byte c bs"

text \<open>The events a client dispatches on a stream of bytes.\<close>

definition events_of :: "bytes \<Rightarrow> sse_event list" where
  "events_of bs = cl_events (cl_feed client_init bs)"

section \<open>Feeding\<close>

lemma cl_feed_Nil [simp]: "cl_feed c [] = c"
  by (simp add: cl_feed_def)

lemma cl_feed_Cons [simp]: "cl_feed c (b # bs) = cl_feed (cl_byte c b) bs"
  by (simp add: cl_feed_def)

lemma cl_feed_append [simp]: "cl_feed c (a @ b) = cl_feed (cl_feed c a) b"
  by (simp add: cl_feed_def)

text \<open>A client that is quiet is between two events: no pending line, nothing buffered.\<close>

definition cl_quiet :: "client \<Rightarrow> bool" where
  "cl_quiet c \<longleftrightarrow> cl_line c = [] \<and> cl_data c = [] \<and> cl_type c = []"

text \<open>After a carriage return nothing is pending.\<close>

definition cl_ok :: "client \<Rightarrow> bool" where
  "cl_ok c \<longleftrightarrow> (cl_skip_lf c \<longrightarrow> cl_line c = [])"

lemma cl_dispatch_frame [simp]:
  "cl_line (cl_dispatch c) = cl_line c" "cl_skip_lf (cl_dispatch c) = cl_skip_lf c"
  "cl_data (cl_dispatch c) = []" "cl_type (cl_dispatch c) = []" "cl_id (cl_dispatch c) = cl_id c"
  by (auto simp: cl_dispatch_def)

lemma cl_field_frame [simp]:
  "cl_line (cl_field n v c) = cl_line c" "cl_skip_lf (cl_field n v c) = cl_skip_lf c"
  "cl_events (cl_field n v c) = cl_events c"
  by (auto simp: cl_field_def)

lemma cl_process_frame [simp]:
  "cl_line (cl_process l c) = cl_line c" "cl_skip_lf (cl_process l c) = cl_skip_lf c"
  by (auto simp: cl_process_def split: list.splits)

lemma cl_end_line_frame [simp]:
  "cl_line (cl_end_line c) = []" "cl_skip_lf (cl_end_line c) = cl_skip_lf c"
  by (auto simp: cl_end_line_def)

lemma cl_ok_init [simp]: "cl_ok client_init"
  by (simp add: cl_ok_def client_init_def)

lemma cl_ok_byte: "cl_ok c \<Longrightarrow> cl_ok (cl_byte c b)"
  by (auto simp: cl_ok_def cl_byte_def)

lemma cl_ok_feed: "cl_ok c \<Longrightarrow> cl_ok (cl_feed c bs)"
  by (induction bs arbitrary: c) (auto simp: cl_ok_byte)

lemma cl_quiet_init [simp]: "cl_quiet client_init"
  by (simp add: cl_quiet_def client_init_def)

lemma cl_blank_line [client_simps]:
  "cl_line c = [] \<Longrightarrow> cl_end_line c = cl_dispatch c"
  by (cases c) (simp add: cl_end_line_def cl_process_def)

lemma cl_quiet_dispatch [client_simps]: "cl_quiet c \<Longrightarrow> cl_dispatch c = c"
  by (cases c) (simp add: cl_quiet_def cl_dispatch_def)

text \<open>Two line feeds end whatever is pending: the client is quiet afterwards.\<close>

lemma cl_two_lf_quiet:
  assumes "cl_ok c"
  shows "cl_quiet (cl_feed c [LF, LF])" "\<not> cl_skip_lf (cl_feed c [LF, LF])"
  using assms
  by (auto simp: cl_byte_def cl_quiet_def cl_ok_def client_simps)

section \<open>Heartbeats\<close>

text \<open>Two clients that agree up to the pending line feed of a quiet client dispatch the same
  events from then on.\<close>

definition cl_sim :: "client \<Rightarrow> client \<Rightarrow> bool" where
  "cl_sim c d \<longleftrightarrow> c = d \<or> (cl_quiet c \<and> d = c\<lparr>cl_skip_lf := cl_skip_lf d\<rparr>)"

lemma cl_sim_refl [simp]: "cl_sim c c"
  by (simp add: cl_sim_def)

lemma cl_sim_events: "cl_sim c d \<Longrightarrow> cl_events d = cl_events c"
  by (auto simp: cl_sim_def) (metis client.select_convs(6) client.surjective client.update_convs(2))

lemma cl_sim_quiet: "cl_sim c d \<Longrightarrow> cl_quiet d = cl_quiet c"
  by (cases c; cases d) (auto simp: cl_sim_def cl_quiet_def)

lemma cl_sim_byte: "cl_sim c d \<Longrightarrow> cl_sim (cl_byte c b) (cl_byte d b)"
proof (cases "c = d")
  case True
  then show ?thesis by simp
next
  case False
  assume "cl_sim c d"
  with False have q: "cl_quiet c" "d = c\<lparr>cl_skip_lf := cl_skip_lf d\<rparr>" by (auto simp: cl_sim_def)
  then obtain s where d: "d = c\<lparr>cl_skip_lf := s\<rparr>" by blast
  with q(1) show ?thesis
    by (cases c)
      (auto simp: cl_sim_def cl_byte_def cl_quiet_def cl_end_line_def cl_process_def cl_dispatch_def)
qed

lemma cl_sim_feed: "cl_sim c d \<Longrightarrow> cl_sim (cl_feed c bs) (cl_feed d bs)"
  by (induction bs arbitrary: c d) (auto simp: cl_sim_byte)

text \<open>The comment \<open>":\n\n"\<close> sent to a quiet client changes nothing but the pending line feed.\<close>

lemma cl_comment_quiet:
  assumes "cl_quiet c"
  shows "cl_sim c (cl_feed c [CHR '':'', LF, LF])"
  using assms
  by (cases c)
    (auto simp: cl_sim_def cl_byte_def cl_quiet_def cl_end_line_def cl_process_def cl_dispatch_def)

lemma cl_sim_trans:
  assumes "cl_sim c d" "cl_sim d e" shows "cl_sim c e"
proof (cases "c = d \<or> d = e")
  case True
  with assms show ?thesis by auto
next
  case False
  with assms have q: "cl_quiet c" and d: "d = c\<lparr>cl_skip_lf := cl_skip_lf d\<rparr>"
    and e: "e = d\<lparr>cl_skip_lf := cl_skip_lf e\<rparr>" by (simp_all add: cl_sim_def)
  have "e = c\<lparr>cl_skip_lf := cl_skip_lf e\<rparr>" by (subst e, subst d) (cases c, simp)
  with q show ?thesis by (simp add: cl_sim_def)
qed

lemma cl_sim_comment:
  assumes "cl_sim c d" "cl_quiet c"
  shows "cl_sim c (cl_feed d [CHR '':'', LF, LF])"
proof -
  from assms have "cl_quiet d" by (simp add: cl_sim_quiet)
  then have "cl_sim d (cl_feed d [CHR '':'', LF, LF])" by (rule cl_comment_quiet)
  with assms(1) show ?thesis by (rule cl_sim_trans)
qed

section \<open>Complete fields\<close>

text \<open>A line without terminators in it, then a line feed.\<close>

lemma cl_feed_line:
  assumes "LF \<notin> set l" "CR \<notin> set l" "cl_line c = []" "l \<noteq> []"
  shows "cl_feed c (l @ [LF]) = cl_process l (c\<lparr>cl_line := [], cl_skip_lf := False\<rparr>)"
proof -
  have "cl_feed c l = (if l = [] then c else c\<lparr>cl_line := cl_line c @ l, cl_skip_lf := False\<rparr>)" for c
    using assms(1,2) by (induction l arbitrary: c) (auto simp: cl_byte_def)
  with assms show ?thesis by (cases c) (simp add: cl_byte_def cl_end_line_def)
qed

lemma cl_process_data:
  "cl_process (''data: '' @ v) c = c\<lparr>cl_data := cl_data c @ v @ [LF]\<rparr>"
  by (simp add: cl_process_def cl_field_def)

lemma cl_process_event:
  "cl_process (''event: '' @ v) c = c\<lparr>cl_type := v\<rparr>"
  by (simp add: cl_process_def cl_field_def)

text \<open>A whole event with one data line, with or without a type line, sent to a quiet client is
  dispatched as it is, and the client is quiet again.\<close>

definition one_event :: "str \<Rightarrow> str \<Rightarrow> client \<Rightarrow> client" where
  "one_event ty v c =
     c\<lparr>cl_skip_lf := False,
       cl_events := cl_events c @ [\<lparr>ev_type = ty, ev_data = v, ev_id = cl_id c\<rparr>]\<rparr>"

lemma cl_one_event_quiet [simp]: "cl_quiet (one_event ty v c) = cl_quiet c"
  by (simp add: one_event_def cl_quiet_def)

lemma cl_feed_data_event:
  assumes "LF \<notin> set v" "CR \<notin> set v" "cl_quiet c"
  shows "cl_feed c (''data: '' @ v @ [LF, LF]) = one_event ''message'' v c"
proof -
  have "cl_feed c ((''data: '' @ v) @ [LF]) = cl_process (''data: '' @ v) (c\<lparr>cl_line := [], cl_skip_lf := False\<rparr>)"
    using assms by (intro cl_feed_line) (auto simp: cl_quiet_def)
  then have "cl_feed c (((''data: '' @ v) @ [LF]) @ [LF]) =
      cl_byte (c\<lparr>cl_line := [], cl_skip_lf := False, cl_data := v @ [LF]\<rparr>) LF"
    using assms(3) unfolding cl_feed_append cl_process_data by (simp add: cl_quiet_def)
  with assms(3) show ?thesis
    by (cases c) (simp add: cl_byte_def client_simps cl_quiet_def cl_dispatch_def one_event_def)
qed

lemma cl_feed_typed_event:
  assumes "LF \<notin> set v" "CR \<notin> set v" "LF \<notin> set ty" "CR \<notin> set ty" "ty \<noteq> []" "cl_quiet c"
  shows "cl_feed c (''event: '' @ ty @ [LF] @ ''data: '' @ v @ [LF, LF]) = one_event ty v c"
proof -
  let ?c = "c\<lparr>cl_line := [], cl_skip_lf := False\<rparr>"
  have 1: "cl_feed c ((''event: '' @ ty) @ [LF]) = ?c\<lparr>cl_type := ty\<rparr>"
    using assms cl_feed_line [of "''event: '' @ ty" c] by (simp only: cl_process_event) (simp add: cl_quiet_def)
  have 2: "cl_feed (?c\<lparr>cl_type := ty\<rparr>) ((''data: '' @ v) @ [LF]) =
      ?c\<lparr>cl_type := ty, cl_data := v @ [LF]\<rparr>"
    using assms cl_feed_line [of "''data: '' @ v" "?c\<lparr>cl_type := ty\<rparr>"]
    by (simp only: cl_process_data) (simp add: cl_quiet_def)
  have seq: "cl_feed c (a @ b @ [LF]) = cl_byte (cl_feed (cl_feed c a) b) LF" for a b
    by simp
  have "cl_feed c (''event: '' @ ty @ [LF] @ ''data: '' @ v @ [LF, LF]) =
      cl_feed c (((''event: '' @ ty) @ [LF]) @ ((''data: '' @ v) @ [LF]) @ [LF])"
    by (rule arg_cong [where f = "cl_feed c"]) simp
  also have "\<dots> = cl_byte (?c\<lparr>cl_type := ty, cl_data := v @ [LF]\<rparr>) LF"
    unfolding seq 1 2 ..
  also have "\<dots> = one_event ty v c"
    using assms(5,6)
    by (cases c) (simp add: cl_byte_def client_simps cl_quiet_def cl_dispatch_def one_event_def)
  finally show ?thesis .
qed

end
