(* ===== verification/Boundary.thy ===== *)
theory Boundary
  imports Sample Sse_Client
begin

text \<open>
  \<open>EventBoundaryTracker\<close> of \<open>src/sse.rs\<close>: the tracker's three flags, its \<open>feed\<close> with the
  \<open>memchr2\<close> loop, and the byte by byte machine it accelerates. The lemmas show the two equal,
  that feeding is independent of how the bytes are cut into chunks, and that ``at a boundary''
  implies that the client of the specification is between two events. The contract a heartbeat
  writer needs from a tracker is the locale \<open>boundary_observer\<close>; inside it, heartbeats written
  only at boundaries are shown to be invisible to the client.
\<close>

section \<open>The tracker\<close>

record tracker =
  at_boundary :: bool
  line_empty :: bool
  prev_cr :: bool

definition tracker_new :: tracker where
  "tracker_new = \<lparr>at_boundary = True, line_empty = True, prev_cr = False\<rparr>"

text \<open>The three assignments made for a non-empty run without terminators.\<close>

definition tracker_content :: "tracker \<Rightarrow> tracker" where
  "tracker_content t = t\<lparr>prev_cr := False, at_boundary := False, line_empty := False\<rparr>"

definition tracker_lf :: "tracker \<Rightarrow> tracker" where
  "tracker_lf t =
     (if prev_cr t then t\<lparr>prev_cr := False\<rparr>
      else if line_empty t then t\<lparr>at_boundary := True\<rparr>
      else t\<lparr>at_boundary := False, line_empty := True\<rparr>)"

definition tracker_cr :: "tracker \<Rightarrow> tracker" where
  "tracker_cr t =
     (if line_empty t then t\<lparr>at_boundary := True\<rparr>
      else t\<lparr>at_boundary := False, line_empty := True\<rparr>)\<lparr>prev_cr := True\<rparr>"

text \<open>\<open>feed\<close>: the loop from position \<open>pos\<close>. Indexing out of range and the \<open>unreachable!\<close> arm
  are panics.\<close>

function feed_loop :: "deps \<Rightarrow> bytes \<Rightarrow> nat \<Rightarrow> tracker \<Rightarrow> tracker rs" where
  "feed_loop D bs pos t =
     (case memchr2 D LF CR (drop pos bs) of
        None \<Rightarrow> Ret (if pos < length bs then tracker_content t else t)
      | Some i \<Rightarrow>
          (let nl = pos + i;
               t1 = (if nl > pos then tracker_content t else t)
           in if nl < length bs
              then (if bs ! nl = LF then feed_loop D bs (nl + 1) (tracker_lf t1)
                    else if bs ! nl = CR then feed_loop D bs (nl + 1) (tracker_cr t1)
                    else Panic ''internal error: entered unreachable code'')
              else Panic ''index out of bounds''))"
  by pat_completeness auto
termination
  by (relation "measure (\<lambda>(D, bs, pos, t). length bs - pos)") auto

declare feed_loop.simps [simp del]

definition feed :: "deps \<Rightarrow> tracker \<Rightarrow> bytes \<Rightarrow> tracker rs" where
  "feed D t bs = feed_loop D bs 0 t"

section \<open>The byte by byte machine\<close>

definition tracker_byte :: "tracker \<Rightarrow> byte \<Rightarrow> tracker" where
  "tracker_byte t b =
     (if b = LF then tracker_lf t else if b = CR then tracker_cr t else tracker_content t)"

definition tracker_bytes :: "tracker \<Rightarrow> bytes \<Rightarrow> tracker" where
  "tracker_bytes t bs = foldl tracker_byte t bs"

lemma tracker_bytes_Nil [simp]: "tracker_bytes t [] = t"
  by (simp add: tracker_bytes_def)

lemma tracker_bytes_Cons [simp]: "tracker_bytes t (b # bs) = tracker_bytes (tracker_byte t b) bs"
  by (simp add: tracker_bytes_def)

lemma tracker_bytes_append [simp]: "tracker_bytes t (a @ b) = tracker_bytes (tracker_bytes t a) b"
  by (simp add: tracker_bytes_def)

lemma tracker_content_idem [simp]: "tracker_content (tracker_content t) = tracker_content t"
  by (simp add: tracker_content_def)

lemma tracker_bytes_content:
  "LF \<notin> set bs \<Longrightarrow> CR \<notin> set bs \<Longrightarrow> tracker_bytes t bs = (if bs = [] then t else tracker_content t)"
  by (induction bs arbitrary: t) (auto simp: tracker_byte_def)

lemma feed_loop_bytes:
  "memchr2_ok D \<Longrightarrow> pos \<le> length bs \<Longrightarrow>
     feed_loop D bs pos t = Ret (tracker_bytes t (drop pos bs))"
proof (induction D bs pos t rule: feed_loop.induct)
  case (1 D bs pos t)
  show ?case
  proof (cases "memchr2 D LF CR (drop pos bs)")
    case None
    with memchr2_None [OF "1.prems"(1) None] "1.prems"(2) show ?thesis
      by (auto simp: feed_loop.simps [of D bs pos t] tracker_bytes_content)
  next
    case (Some i)
    let ?nl = "pos + i" and ?seg = "take i (drop pos bs)"
    let ?t1 = "if ?nl > pos then tracker_content t else t"
    from memchr2_Some [OF "1.prems"(1) Some] have i: "?nl < length bs" "bs ! ?nl \<in> {LF, CR}"
      and before: "\<forall>j < i. bs ! (pos + j) \<notin> {LF, CR}"
      by (auto simp: less_diff_conv add.commute)
    then have "LF \<notin> set ?seg" "CR \<notin> set ?seg"
      by (auto simp: in_set_conv_nth)
    then have seg: "tracker_bytes t ?seg = ?t1"
      using i by (subst tracker_bytes_content) auto
    have split: "drop pos bs = ?seg @ bs ! ?nl # drop (?nl + 1) bs"
      using i(1) id_take_nth_drop [of i "drop pos bs"] by (simp add: add.commute)
    have "tracker_bytes t (drop pos bs) =
        tracker_bytes (tracker_byte ?t1 (bs ! ?nl)) (drop (?nl + 1) bs)"
      by (subst split) (simp only: tracker_bytes_append tracker_bytes_Cons seg)
    moreover have "feed_loop D bs pos t =
        Ret (tracker_bytes (tracker_byte ?t1 (bs ! ?nl)) (drop (?nl + 1) bs))"
      using 1 Some i by (auto simp: feed_loop.simps [of D bs pos t] tracker_byte_def Let_def)
    ultimately show ?thesis by simp
  qed
qed

lemma feed_Ret: "memchr2_ok D \<Longrightarrow> feed D t bs = Ret (tracker_bytes t bs)"
  using feed_loop_bytes [of D 0 bs t] by (simp add: feed_def)

text \<open>C22: the \<open>memchr2\<close> loop of \<open>feed\<close> computes, without panicking, the state of the byte by byte
  machine, from every state of the tracker and for every chunk; so cutting the bytes into
  chunks differently makes no difference.\<close>

theorem feed_bytewise:
  assumes "memchr2_ok D"
  shows "feed D t bs = Ret (foldl tracker_byte t bs) \<and>
         rs_bind (feed D t bs) (\<lambda>t'. feed D t' cs) = feed D t (bs @ cs)"
  using assms by (simp add: feed_Ret tracker_bytes_def)

theorem feed_bytewise_witness:
  "rs_bind (feed sample_deps tracker_new [CHR ''a'', CR]) (\<lambda>t. feed sample_deps t [LF, CR, LF]) =
     feed sample_deps tracker_new ([CHR ''a'', CR] @ [LF, CR, LF])"
  by (rule conjunct2 [OF feed_bytewise [OF sample_memchr2_ok]])

section \<open>Boundaries and the client\<close>

text \<open>The relation between a tracker and the client that has been fed the same bytes.\<close>

definition tracks :: "tracker \<Rightarrow> client \<Rightarrow> bool" where
  "tracks t c \<longleftrightarrow>
     (line_empty t \<longleftrightarrow> cl_line c = []) \<and> (prev_cr t \<longleftrightarrow> cl_skip_lf c) \<and>
     (prev_cr t \<longrightarrow> line_empty t) \<and> (at_boundary t \<longrightarrow> line_empty t \<and> cl_quiet c)"

lemma tracks_new: "tracks tracker_new client_init"
  by (simp add: tracks_def tracker_new_def client_init_def cl_quiet_def)

lemma tracks_byte: "tracks t c \<Longrightarrow> tracks (tracker_byte t b) (cl_byte c b)"
proof -
  assume t: "tracks t c"
  have "cl_line c = [] \<Longrightarrow> cl_quiet (cl_end_line c)"
    by (simp add: client_simps cl_quiet_def)
  with t show ?thesis
    by (auto simp: tracks_def tracker_byte_def tracker_lf_def tracker_cr_def tracker_content_def
        cl_byte_def cl_quiet_def)
qed

lemma tracks_bytes: "tracks t c \<Longrightarrow> tracks (tracker_bytes t bs) (cl_feed c bs)"
  by (induction bs arbitrary: t c) (auto simp: tracks_byte)

lemma boundary_quiet:
  "at_boundary (tracker_bytes tracker_new bs) \<Longrightarrow> cl_quiet (cl_feed client_init bs)"
  using tracks_bytes [OF tracks_new, of bs] by (simp add: tracks_def)

section \<open>The contract of an observer of boundaries\<close>

text \<open>What a writer emits: bytes of the upstream, or a heartbeat; \<open>wire\<close> is what goes out and
  \<open>payload\<close> what came from the upstream. \<open>well_placed\<close> holds when every heartbeat is emitted in
  a state where the observer, fed with the upstream bytes so far, is at a boundary.\<close>

datatype emission = Data bytes | Beat

abbreviation heartbeat_bytes :: bytes where "heartbeat_bytes \<equiv> [CHR '':'', LF, LF]"

fun wire :: "emission list \<Rightarrow> bytes" where
  "wire [] = []"
| "wire (Data b # es) = b @ wire es"
| "wire (Beat # es) = heartbeat_bytes @ wire es"

fun payload :: "emission list \<Rightarrow> bytes" where
  "payload [] = []"
| "payload (Data b # es) = b @ payload es"
| "payload (Beat # es) = payload es"

fun well_placed :: "('t \<Rightarrow> bytes \<Rightarrow> 't) \<Rightarrow> ('t \<Rightarrow> bool) \<Rightarrow> 't \<Rightarrow> emission list \<Rightarrow> bool" where
  "well_placed obs bnd t [] = True"
| "well_placed obs bnd t (Data b # es) = well_placed obs bnd (obs t b) es"
| "well_placed obs bnd t (Beat # es) = (bnd t \<and> well_placed obs bnd t es)"

lemma wire_append [simp]: "wire (a @ b) = wire a @ wire b"
  by (induction a rule: wire.induct) auto

lemma payload_append [simp]: "payload (a @ b) = payload a @ payload b"
  by (induction a rule: payload.induct) auto

locale boundary_observer =
  fixes new :: 't
    and obs :: "'t \<Rightarrow> bytes \<Rightarrow> 't"
    and bnd :: "'t \<Rightarrow> bool"
  assumes obs_append: "obs t (a @ b) = obs (obs t a) b"
    and obs_Nil: "obs t [] = t"
    and bnd_quiet: "bnd (obs new bs) \<Longrightarrow> cl_quiet (cl_feed client_init bs)"
begin

lemma well_placed_append:
  "well_placed obs bnd t (es @ fs) \<longleftrightarrow>
     well_placed obs bnd t es \<and> well_placed obs bnd (obs t (payload es)) fs"
proof (induction es arbitrary: t)
  case Nil
  then show ?case by (simp add: obs_Nil)
next
  case (Cons e es)
  then show ?case by (cases e) (auto simp: obs_append)
qed

text \<open>The client of the wire and a client of the payload alone differ at most in a pending line
  feed between events, as long as the heartbeats are well placed.\<close>

lemma beats_invisible:
  assumes "well_placed obs bnd new es"
  shows "cl_sim (cl_feed client_init (payload es)) (cl_feed client_init (wire es))"
  using assms
proof (induction es rule: rev_induct)
  case Nil
  then show ?case by simp
next
  case (snoc e es)
  from snoc.prems have es: "well_placed obs bnd new es"
    and e: "well_placed obs bnd (obs new (payload es)) [e]"
    by (simp_all add: well_placed_append)
  from snoc.IH [OF es] show ?case
  proof (cases e)
    case (Data b)
    with snoc.IH [OF es] show ?thesis by (simp add: cl_sim_feed)
  next
    case Beat
    with e have "cl_quiet (cl_feed client_init (payload es))" by (simp add: bnd_quiet)
    with snoc.IH [OF es] Beat show ?thesis
      using cl_sim_comment by simp
  qed
qed

lemma beats_same_events:
  "well_placed obs bnd new es \<Longrightarrow> events_of (wire es) = events_of (payload es)"
  unfolding events_of_def by (rule cl_sim_events [OF beats_invisible])

end

interpretation tr: boundary_observer tracker_new tracker_bytes at_boundary
  by unfold_locales (auto simp: boundary_quiet)

section \<open>What a boundary is\<close>

text \<open>The reference: the stream with every line terminator written as one line feed. The flag
  says that a carriage return came just before.\<close>

fun normalise :: "bool \<Rightarrow> bytes \<Rightarrow> bytes" where
  "normalise cr [] = []"
| "normalise cr (b # bs) =
     (if b = LF then (if cr then normalise False bs else LF # normalise False bs)
      else if b = CR then LF # normalise True bs
      else b # normalise False bs)"

lemma ends_with_snoc [rust_str]:
  "ends_with (u @ [x]) [y] \<longleftrightarrow> x = y"
  "ends_with (u @ [x]) [z, y] \<longleftrightarrow> x = y \<and> ends_with u [z]"
proof -
  show "ends_with (u @ [x]) [y] \<longleftrightarrow> x = y" by (auto simp: ends_with_iff)
  have "(u @ [x] = p @ [z, y]) = (u = p @ [z] \<and> x = y)" for p
    by (metis append_Cons append_Nil append_assoc append1_eq_conv)
  then show "ends_with (u @ [x]) [z, y] \<longleftrightarrow> x = y \<and> ends_with u [z]"
    by (auto simp: ends_with_iff)
qed

lemma tracker_bytes_normalise:
  assumes "at_boundary t \<longleftrightarrow> ends_with u [LF, LF]" "line_empty t \<longleftrightarrow> ends_with u [LF]"
    and "prev_cr t \<longrightarrow> line_empty t"
  shows "at_boundary (tracker_bytes t bs) \<longleftrightarrow> ends_with (u @ normalise (prev_cr t) bs) [LF, LF]"
  using assms
proof (induction bs arbitrary: t u)
  case Nil
  then show ?case by simp
next
  case (Cons b bs)
  define out where
    "out = (if b = LF then (if prev_cr t then [] else [LF]) else if b = CR then [LF] else [b])"
  have n: "normalise (prev_cr t) (b # bs) = out @ normalise (prev_cr (tracker_byte t b)) bs"
    by (auto simp: out_def tracker_byte_def tracker_lf_def tracker_cr_def tracker_content_def)
  have "at_boundary (tracker_byte t b) \<longleftrightarrow> ends_with (u @ out) [LF, LF]"
    "line_empty (tracker_byte t b) \<longleftrightarrow> ends_with (u @ out) [LF]"
    "prev_cr (tracker_byte t b) \<longrightarrow> line_empty (tracker_byte t b)"
    using Cons.prems
    by (auto simp: out_def rust_str tracker_byte_def tracker_lf_def tracker_cr_def tracker_content_def)
  from Cons.IH [OF this] show ?case by (simp only: n tracker_bytes_Cons append_assoc)
qed

lemma at_boundary_normalise:
  "at_boundary (tracker_bytes tracker_new bs) \<longleftrightarrow>
     ends_with ([LF, LF] @ normalise False bs) [LF, LF]"
proof -
  have "at_boundary (tracker_bytes tracker_new bs) \<longleftrightarrow>
      ends_with ([LF, LF] @ normalise (prev_cr tracker_new) bs) [LF, LF]"
    by (rule tracker_bytes_normalise) (simp_all add: tracker_new_def ends_with_def)
  then show ?thesis by (simp add: tracker_new_def)
qed

text \<open>C5: the tracker reports a boundary exactly when the bytes fed so far, with each of the
  terminators CR, LF and CRLF written as one line feed, end with an empty line (the start of the
  stream counts as one), and then the client of the specification is between two events.\<close>

theorem tracker_boundary_iff:
  assumes "memchr2_ok D"
  shows "\<exists>t. feed D tracker_new bs = Ret t \<and>
    (at_boundary t \<longleftrightarrow> ends_with ([LF, LF] @ normalise False bs) [LF, LF]) \<and>
    (at_boundary t \<longrightarrow> cl_quiet (cl_feed client_init bs))"
  using assms by (simp add: feed_Ret at_boundary_normalise boundary_quiet)

theorem tracker_boundary_iff_witness:
  "\<exists>t. feed sample_deps tracker_new (''data: hi'' @ [CR, LF, CR]) = Ret t \<and> at_boundary t"
  using tracker_boundary_iff [OF sample_memchr2_ok, of "''data: hi'' @ [CR, LF, CR]"]
  by (auto simp: ends_with_def)

end
