(* ===== verification/Api_Error.thy ===== *)
theory Api_Error
  imports Detect Sse_Client
begin

text \<open>
  A specification, not code: the error that a client of each of the four APIs is to receive for a
  failed request, as a function of the status, the upstream's body and the reason of a connection
  failure. The tables, the object shapes and the framing are those of the API document; the message
  is the longest text that fits. The builders of \<open>src/error_event.rs\<close> are compared with it.
\<close>

section \<open>The message\<close>

text \<open>The longest prefix of at most \<open>n\<close> bytes that is well-formed UTF-8.\<close>

definition longest_text :: "nat \<Rightarrow> str \<Rightarrow> str" where
  "longest_text n s = last (filter utf8_valid (map (\<lambda>j. take j s) [0..<Suc n]))"

definition status_line :: "deps \<Rightarrow> status_code \<Rightarrow> str" where
  "status_line D st =
     show_nat st @ CHR '' '' # (case canonical_reason D st of Some r \<Rightarrow> r | None \<Rightarrow> ''Bad Gateway'')"

definition readable :: "bytes \<Rightarrow> bool" where
  "readable b \<longleftrightarrow> utf8_valid b \<and> str_trim b \<noteq> []"

definition api_message :: "deps \<Rightarrow> status_code \<Rightarrow> bytes option \<Rightarrow> str option \<Rightarrow> str" where
  "api_message D st body reason =
     (case (reason, body) of
        (Some r, _) \<Rightarrow> ''upstream request failed: '' @ r
      | (None, Some b) \<Rightarrow> if readable b then longest_text 4096 (str_trim b) else status_line D st
      | (None, None) \<Rightarrow> status_line D st)"

section \<open>Classes of errors\<close>

definition anthropic_types :: "(status_code \<times> str) list" where
  "anthropic_types =
     [(400, ''invalid_request_error''), (401, ''authentication_error''), (403, ''permission_error''),
      (404, ''not_found_error''), (413, ''request_too_large''), (429, ''rate_limit_error''),
      (529, ''overloaded_error'')]"

definition gemini_types :: "(status_code \<times> str) list" where
  "gemini_types =
     [(400, ''INVALID_ARGUMENT''), (401, ''UNAUTHENTICATED''), (403, ''PERMISSION_DENIED''),
      (404, ''NOT_FOUND''), (429, ''RESOURCE_EXHAUSTED''), (500, ''INTERNAL''),
      (503, ''UNAVAILABLE''), (504, ''DEADLINE_EXCEEDED'')]"

definition lookup_or :: "'b \<Rightarrow> ('a \<times> 'b) list \<Rightarrow> 'a \<Rightarrow> 'b" where
  "lookup_or d xs k = (case map_of xs k of Some v \<Rightarrow> v | None \<Rightarrow> d)"

definition api_class :: "endpoint_kind \<Rightarrow> status_code \<Rightarrow> str" where
  "api_class kind st =
     (case kind of
        ChatCompletions \<Rightarrow>
          if st = 429 then ''rate_limit_error''
          else if st div 100 = 4 then ''invalid_request_error'' else ''server_error''
      | Responses \<Rightarrow>
          if st = 429 then ''rate_limit_exceeded''
          else if st div 100 = 5 then ''server_error'' else ''invalid_request_error''
      | AnthropicMessages \<Rightarrow> lookup_or ''api_error'' anthropic_types st
      | GeminiStream \<Rightarrow> lookup_or ''UNKNOWN'' gemini_types st)"

section \<open>The JSON value\<close>

text \<open>The objects of the APIs, with their keys in the order of the JSON map.\<close>

definition responses_object :: "str \<Rightarrow> str \<Rightarrow> json \<Rightarrow> json" where
  "responses_object code msg param =
     JObject [(''code'', JString code), (''message'', JString msg), (''param'', param),
              (''sequence_number'', JNumber (PosInt 0)), (''type'', JString ''error'')]"

definition api_object :: "endpoint_kind \<Rightarrow> status_code \<Rightarrow> str \<Rightarrow> json" where
  "api_object kind st msg =
     (case kind of
        ChatCompletions \<Rightarrow>
          JObject [(''error'', JObject [(''code'', JNull), (''message'', JString msg), (''param'', JNull),
                                        (''type'', JString (api_class kind st))])]
      | Responses \<Rightarrow> responses_object (api_class kind st) msg JNull
      | AnthropicMessages \<Rightarrow>
          JObject [(''error'', JObject [(''message'', JString msg), (''type'', JString (api_class kind st))]),
                   (''type'', JString ''error'')]
      | GeminiStream \<Rightarrow>
          JObject [(''error'', JObject [(''code'', JNumber (PosInt (of_nat st))), (''message'', JString msg),
                                        (''status'', JString (api_class kind st))])])"

text \<open>What an upstream's own error becomes, if it is one in the API's standard form: for three APIs
  it is passed on as it is, for Responses its code, message and parameter are copied.\<close>

definition standard_error :: "endpoint_kind \<Rightarrow> json \<Rightarrow> json option" where
  "standard_error kind u =
     (case (kind, json_get u ''error'') of
        (_, None) \<Rightarrow> None
      | (Responses, Some e) \<Rightarrow>
          (case (json_get e ''code'', json_get e ''message'') of
             (Some (JString c), Some (JString m)) \<Rightarrow>
               Some (responses_object c m (case json_get e ''param'' of Some p \<Rightarrow> p | None \<Rightarrow> JNull))
           | _ \<Rightarrow> None)
      | (AnthropicMessages, Some e) \<Rightarrow>
          if json_get u ''type'' = Some (JString ''error'') then Some u else None
      | (_, Some e) \<Rightarrow> Some u)"

definition upstream_error :: "deps \<Rightarrow> endpoint_kind \<Rightarrow> bytes option \<Rightarrow> json option" where
  "upstream_error D kind body =
     (case body of
        Some b \<Rightarrow> if b = [] then None else Option.bind (json_from_slice D b) (standard_error kind)
      | None \<Rightarrow> None)"

definition api_error :: "deps \<Rightarrow> endpoint_kind \<Rightarrow> status_code option \<Rightarrow> bytes option \<Rightarrow> str option \<Rightarrow> json" where
  "api_error D kind status body reason =
     (let st = (case status of Some s \<Rightarrow> s | None \<Rightarrow> 502)
      in case upstream_error D kind body of
           Some v \<Rightarrow> v
         | None \<Rightarrow> api_object kind st (api_message D st body reason))"

section \<open>The bytes and the events\<close>

definition api_frame :: "endpoint_kind \<Rightarrow> str \<Rightarrow> bytes" where
  "api_frame kind json =
     (case kind of
        ChatCompletions \<Rightarrow> ''data: '' @ json @ [LF, LF] @ ''data: [DONE]'' @ [LF, LF]
      | GeminiStream \<Rightarrow> ''data: '' @ json @ [LF, LF]
      | _ \<Rightarrow> ''event: error'' @ [LF] @ ''data: '' @ json @ [LF, LF])"

definition event :: "str \<Rightarrow> str \<Rightarrow> str \<Rightarrow> sse_event" where
  "event ty i v = \<lparr>ev_type = ty, ev_data = v, ev_id = i\<rparr>"

definition error_events :: "endpoint_kind \<Rightarrow> str \<Rightarrow> str \<Rightarrow> sse_event list" where
  "error_events kind text i =
     (case kind of
        ChatCompletions \<Rightarrow> [event ''message'' i text, event ''message'' i ''[DONE]'']
      | Responses \<Rightarrow> [event ''error'' i text]
      | AnthropicMessages \<Rightarrow> [event ''error'' i text]
      | GeminiStream \<Rightarrow> [event ''message'' i text])"

section \<open>Lemmas\<close>

lemma utf8_valid_take_boundary:
  assumes "utf8_valid s" "utf8_valid (take j s)" "j \<le> length s"
  shows "is_char_boundary s j"
proof (cases "drop j s")
  case Nil
  with assms(3) show ?thesis by (simp add: is_char_boundary_def)
next
  case (Cons a r)
  have "utf8_valid (drop j s)"
    using utf8_valid_append [OF assms(2), of "drop j s"] assms(1) by simp
  with Cons have "utf8_char (take (utf8_width a) (a # r))" by simp
  then have "\<not> is_cont a"
    by (cases "utf8_width a") (auto dest: utf8_char_head)
  moreover from Cons have "j < length s" "s ! j = a"
    by (auto simp: nth_via_drop not_le [symmetric])
  ultimately show ?thesis by (simp add: is_char_boundary_def)
qed

text \<open>The last element of a filtered list of prefixes is the longest one that passes.\<close>

lemma longest_text_eqI:
  assumes "e \<le> n" "utf8_valid (take e s)" "\<And>j. e < j \<Longrightarrow> j \<le> n \<Longrightarrow> utf8_valid (take j s) \<Longrightarrow> take j s = take e s"
  shows "longest_text n s = take e s"
proof -
  let ?f = "\<lambda>js. filter utf8_valid (map (\<lambda>j. take j s) js)"
  have "[0..<e + (Suc n - e)] = [0..<e] @ [e..<e + (Suc n - e)]" by (rule upt_add_eq_append) simp
  moreover have "[e..<Suc n] = e # [Suc e..<Suc n]" using assms(1) by (simp add: upt_conv_Cons)
  ultimately have "[0..<Suc n] = [0..<e] @ e # [Suc e..<Suc n]" using assms(1) by simp
  then have split: "?f [0..<Suc n] = ?f [0..<e] @ take e s # ?f [Suc e..<Suc n]"
    using assms(2) by simp
  have "\<forall>x \<in> set (?f [Suc e..<Suc n]). x = take e s" using assms(3) by auto
  then have "last (take e s # ?f [Suc e..<Suc n]) = take e s"
    by (metis last.simps last_in_set)
  then show ?thesis unfolding longest_text_def split by simp
qed

lemma longest_text_short: "utf8_valid s \<Longrightarrow> length s \<le> n \<Longrightarrow> longest_text n s = s"
  using longest_text_eqI [of "length s" n s] by simp

end
