(* ===== verification/Error_Event.thy ===== *)
theory Error_Event
  imports Api_Error Sample
begin

text \<open>
  \<open>src/error_event.rs\<close>: the error events of the four endpoints. A builder may panic (the
  \<open>expect\<close> on the JSON printer), so it returns a value of \<open>rs\<close>. The contract the bridging tasks
  need of a builder (its output is a sequence of whole events) is the locale \<open>event_builder\<close>.
\<close>

section \<open>The message\<close>

definition MAX_MSG :: nat where "MAX_MSG = 4 * 1024"

definition status_fallback :: "deps \<Rightarrow> status_code \<Rightarrow> str" where
  "status_fallback D status =
     show_nat status @ '' '' @
     (case canonical_reason D status of Some r \<Rightarrow> r | None \<Rightarrow> ''Bad Gateway'')"

text \<open>The loop that moves the cut back to a character boundary.\<close>

fun back_off :: "str \<Rightarrow> nat \<Rightarrow> nat" where
  "back_off s 0 = 0"
| "back_off s (Suc e) = (if \<not> is_char_boundary s (Suc e) then back_off s e else Suc e)"

definition message :: "deps \<Rightarrow> bytes option \<Rightarrow> str option \<Rightarrow> status_code \<Rightarrow> str" where
  "message D body reason status =
     (case reason of
        Some r \<Rightarrow> ''upstream request failed: '' @ r
      | None \<Rightarrow>
          (case body of
             None \<Rightarrow> status_fallback D status
           | Some b \<Rightarrow>
               if b = [] then status_fallback D status
               else if \<not> utf8_valid b then status_fallback D status
               else (let trimmed = str_trim b in
                 if trimmed = [] then status_fallback D status
                 else if length trimmed \<le> MAX_MSG then trimmed
                 else take (back_off trimmed MAX_MSG) trimmed)))"

section \<open>Standard error bodies\<close>

definition parse_top_level_error :: "deps \<Rightarrow> bytes \<Rightarrow> json option" where
  "parse_top_level_error D body =
     (case json_from_slice D body of
        None \<Rightarrow> None
      | Some v \<Rightarrow> if json_get v ''error'' \<noteq> None then Some v else None)"

definition parse_responses_error :: "deps \<Rightarrow> bytes \<Rightarrow> (str \<times> str \<times> json) option" where
  "parse_responses_error D body =
     (case json_from_slice D body of
        None \<Rightarrow> None
      | Some v \<Rightarrow>
          (case json_get v ''error'' of
             None \<Rightarrow> None
           | Some e \<Rightarrow>
               (case Option.bind (json_get e ''code'') json_as_str of
                  None \<Rightarrow> None
                | Some code \<Rightarrow>
                    (case Option.bind (json_get e ''message'') json_as_str of
                       None \<Rightarrow> None
                     | Some msg \<Rightarrow>
                         Some (code, msg, (case json_get e ''param'' of Some p \<Rightarrow> p | None \<Rightarrow> JNull))))))"

definition parse_anthropic_error :: "deps \<Rightarrow> bytes \<Rightarrow> json option" where
  "parse_anthropic_error D body =
     (case json_from_slice D body of
        None \<Rightarrow> None
      | Some v \<Rightarrow>
          if Option.bind (json_get v ''type'') json_as_str = Some ''error'' \<and> json_get v ''error'' \<noteq> None
          then Some v else None)"

section \<open>The four builders\<close>

text \<open>\<open>body.filter(|b| !b.is_empty())\<close>.\<close>

definition nonempty_body :: "bytes option \<Rightarrow> bytes option" where
  "nonempty_body body = (case body of Some b \<Rightarrow> if b = [] then None else Some b | None \<Rightarrow> None)"

definition to_json_text :: "deps \<Rightarrow> json \<Rightarrow> str rs" where
  "to_json_text D v = expect ''json serializable'' (json_to_string D v)"

definition chat_done :: bytes where
  "chat_done = [LF, LF] @ ''data: [DONE]'' @ [LF, LF]"

definition chat_error_type :: "status_code \<Rightarrow> str" where
  "chat_error_type status =
     (if status = 429 then ''rate_limit_error''
      else if is_client_error status then ''invalid_request_error''
      else ''server_error'')"

definition build_chat :: "deps \<Rightarrow> status_code \<Rightarrow> bytes option \<Rightarrow> str option \<Rightarrow> bytes rs" where
  "build_chat D status body reason =
     (case Option.bind (nonempty_body body) (parse_top_level_error D) of
        Some v \<Rightarrow> rs_bind (to_json_text D v) (\<lambda>s. Ret (''data: '' @ s @ chat_done))
      | None \<Rightarrow>
          (let etype = chat_error_type status;
               msg = message D body reason status;
               payload = json_object
                 [(''error'', json_object
                    [(''message'', JString msg), (''type'', JString etype),
                     (''param'', JNull), (''code'', JNull)])]
           in rs_bind (to_json_text D payload) (\<lambda>s. Ret (''data: '' @ s @ chat_done))))"

definition responses_code :: "status_code \<Rightarrow> str" where
  "responses_code status =
     (if status = 429 then ''rate_limit_exceeded''
      else if is_server_error status \<or> status = 502 then ''server_error''
      else ''invalid_request_error'')"

definition build_responses :: "deps \<Rightarrow> status_code \<Rightarrow> bytes option \<Rightarrow> str option \<Rightarrow> bytes rs" where
  "build_responses D status body reason =
     (let (code, msg, param) =
        (case nonempty_body body of
           Some b \<Rightarrow>
             (case parse_responses_error D b of
                Some (c, m, p) \<Rightarrow> (c, m, p)
              | None \<Rightarrow> (responses_code status, message D body reason status, JNull))
         | None \<Rightarrow> (responses_code status, message D body reason status, JNull));
          payload = json_object
            [(''type'', JString ''error''), (''code'', JString code), (''message'', JString msg),
             (''param'', param), (''sequence_number'', JNumber (PosInt 0))]
      in rs_bind (to_json_text D payload)
           (\<lambda>s. Ret (''event: error'' @ [LF] @ ''data: '' @ s @ [LF, LF])))"

definition anthropic_error_type :: "status_code \<Rightarrow> str" where
  "anthropic_error_type status =
     (if status = 400 then ''invalid_request_error''
      else if status = 401 then ''authentication_error''
      else if status = 403 then ''permission_error''
      else if status = 404 then ''not_found_error''
      else if status = 413 then ''request_too_large''
      else if status = 429 then ''rate_limit_error''
      else if status = 529 then ''overloaded_error''
      else ''api_error'')"

definition build_anthropic :: "deps \<Rightarrow> status_code \<Rightarrow> bytes option \<Rightarrow> str option \<Rightarrow> bytes rs" where
  "build_anthropic D status body reason =
     (case Option.bind (nonempty_body body) (parse_anthropic_error D) of
        Some v \<Rightarrow>
          rs_bind (to_json_text D v)
            (\<lambda>s. Ret (''event: error'' @ [LF] @ ''data: '' @ s @ [LF, LF]))
      | None \<Rightarrow>
          (let etype = anthropic_error_type status;
               msg = message D body reason status;
               payload = json_object
                 [(''type'', JString ''error''),
                  (''error'', json_object [(''type'', JString etype), (''message'', JString msg)])]
           in rs_bind (to_json_text D payload)
                (\<lambda>s. Ret (''event: error'' @ [LF] @ ''data: '' @ s @ [LF, LF]))))"

definition gemini_status :: "status_code \<Rightarrow> str" where
  "gemini_status status =
     (if status = 400 then ''INVALID_ARGUMENT''
      else if status = 401 then ''UNAUTHENTICATED''
      else if status = 403 then ''PERMISSION_DENIED''
      else if status = 404 then ''NOT_FOUND''
      else if status = 429 then ''RESOURCE_EXHAUSTED''
      else if status = 500 then ''INTERNAL''
      else if status = 503 then ''UNAVAILABLE''
      else if status = 504 then ''DEADLINE_EXCEEDED''
      else ''UNKNOWN'')"

definition build_gemini :: "deps \<Rightarrow> status_code \<Rightarrow> bytes option \<Rightarrow> str option \<Rightarrow> bytes rs" where
  "build_gemini D status body reason =
     (case Option.bind (nonempty_body body) (parse_top_level_error D) of
        Some v \<Rightarrow> rs_bind (to_json_text D v) (\<lambda>s. Ret (''data: '' @ s @ [LF, LF]))
      | None \<Rightarrow>
          (let gstatus = gemini_status status;
               code = status;
               msg = message D body reason status;
               payload = json_object
                 [(''error'', json_object
                    [(''code'', JNumber (PosInt (of_nat code))), (''message'', JString msg),
                     (''status'', JString gstatus)])]
           in rs_bind (to_json_text D payload) (\<lambda>s. Ret (''data: '' @ s @ [LF, LF]))))"

definition build :: "deps \<Rightarrow> endpoint_kind \<Rightarrow> status_code option \<Rightarrow> bytes option \<Rightarrow> str option \<Rightarrow> bytes rs" where
  "build D kind status body reason =
     (let st = (case status of Some s \<Rightarrow> s | None \<Rightarrow> 502) in
      case kind of
        ChatCompletions \<Rightarrow> build_chat D st body reason
      | Responses \<Rightarrow> build_responses D st body reason
      | AnthropicMessages \<Rightarrow> build_anthropic D st body reason
      | GeminiStream \<Rightarrow> build_gemini D st body reason)"

section \<open>The message: lemmas\<close>

lemma back_off_le: "back_off s e \<le> e"
  by (induction e) auto

lemma back_off_boundary: "is_char_boundary s (back_off s e)"
  by (induction e) (auto simp: is_char_boundary_def)

lemma back_off_max: "j \<le> e \<Longrightarrow> is_char_boundary s j \<Longrightarrow> j \<le> back_off s e"
proof (induction e)
  case 0
  then show ?case by simp
next
  case (Suc e)
  then show ?case by (cases "j = Suc e") auto
qed

lemma back_off_near:
  assumes "utf8_valid s" "e \<le> length s"
  shows "e \<le> back_off s e + 3"
proof -
  from utf8_boundary_near [OF assms] obtain j where "j \<le> e" "e \<le> j + 3" "is_char_boundary s j"
    by blast
  with back_off_max [of j e s] show ?thesis by linarith
qed

lemma take_back_off_valid:
  "utf8_valid s \<Longrightarrow> e \<le> length s \<Longrightarrow> utf8_valid (take (back_off s e) s)"
  using utf8_take_boundary [OF _ back_off_boundary] back_off_le [of s e] by simp

text \<open>C29: without a reason, the message of a readable error body is a prefix of the trimmed body,
  is well-formed UTF-8 of at most 4096 bytes, is the whole trimmed body when that fits, and
  otherwise loses at most three bytes to the character boundary; a body that is absent, empty,
  blank or not UTF-8 gives the status line.\<close>

theorem message_body:
  assumes "message D body None status = m"
  shows "(case body of
     Some b \<Rightarrow>
       if utf8_valid b \<and> str_trim b \<noteq> []
       then prefix m (str_trim b) \<and> utf8_valid m \<and> length m \<le> 4096 \<and>
         (if length (str_trim b) \<le> 4096 then m = str_trim b else 4093 \<le> length m)
       else m = status_fallback D status
   | None \<Rightarrow> m = status_fallback D status)"
proof (cases body)
  case None
  with assms show ?thesis by (simp add: message_def)
next
  case (Some b)
  show ?thesis
  proof (cases "utf8_valid b \<and> str_trim b \<noteq> []")
    case True
    let ?t = "str_trim b"
    have "b \<noteq> []" using True str_trim_split [of b] by auto
    with True Some assms have m: "m = (if length ?t \<le> MAX_MSG then ?t else take (back_off ?t MAX_MSG) ?t)"
      by (simp add: message_def Let_def)
    have v: "utf8_valid ?t" using True by (simp add: str_trim_valid)
    show ?thesis
    proof (cases "length ?t \<le> MAX_MSG")
      case True
      with m v Some \<open>utf8_valid b \<and> ?t \<noteq> []\<close> show ?thesis by (simp add: MAX_MSG_def)
    next
      case False
      then have "MAX_MSG \<le> length ?t" by simp
      with m False v Some \<open>utf8_valid b \<and> ?t \<noteq> []\<close> back_off_near [OF v, of MAX_MSG] back_off_le [of ?t MAX_MSG]
        take_back_off_valid [OF v, of MAX_MSG]
      show ?thesis by (auto simp: MAX_MSG_def take_is_prefix min_def)
    qed
  next
    case False
    with Some assms show ?thesis by (auto simp: message_def Let_def)
  qed
qed

theorem message_body_witness:
  "message sample_deps (Some ''  oops '') None 500 = ''oops'' \<and>
   message sample_deps (Some [CHR 0xFF]) None 500 = ''500 Internal Server Error''"
proof -
  have t: "str_trim ''  oops '' = ''oops''"
    by (simp add: str_trim_def trim_start.simps trim_end.simps white_space_def ends_with_def)
  have u: "utf8_valid ''  oops ''" "\<not> utf8_valid [CHR 0xFF]"
    by (simp_all add: utf8_width_def)
  have f: "status_fallback sample_deps 500 = ''500 Internal Server Error''"
    by (simp add: status_fallback_def sample_deps_def show_nat.simps)
  from message_body [of sample_deps "Some ''  oops ''" 500] message_body [of sample_deps "Some [CHR 0xFF]" 500]
  show ?thesis by (simp add: t u f del: utf8_valid.simps)
qed

section \<open>The contract of a builder\<close>

text \<open>A builder prints one JSON value and frames the text; the framing, received by a client that
  is between two events, is exactly a list of events and leaves it between two events.\<close>

definition add_events :: "sse_event list \<Rightarrow> client \<Rightarrow> client" where
  "add_events evs c = c\<lparr>cl_skip_lf := False, cl_events := cl_events c @ evs\<rparr>"

lemma add_events_quiet [simp]: "cl_quiet (add_events evs c) = cl_quiet c"
  by (simp add: add_events_def cl_quiet_def)

lemma one_event_add: "one_event ty v c = add_events [\<lparr>ev_type = ty, ev_data = v, ev_id = cl_id c\<rparr>] c"
  by (simp add: one_event_def add_events_def)

lemma add_events_add [simp]: "add_events b (add_events a c) = add_events (a @ b) c"
  by (simp add: add_events_def)

locale event_builder =
  fixes mk :: "deps \<Rightarrow> status_code \<Rightarrow> bytes option \<Rightarrow> str option \<Rightarrow> bytes rs"
    and val :: "deps \<Rightarrow> status_code \<Rightarrow> bytes option \<Rightarrow> str option \<Rightarrow> json"
    and framed :: "str \<Rightarrow> bytes"
    and evs :: "str \<Rightarrow> str \<Rightarrow> sse_event list"
  assumes mk_val: "mk D st body reason = rs_bind (to_json_text D (val D st body reason)) (\<lambda>s. Ret (framed s))"
    and framed_events: "LF \<notin> set s \<Longrightarrow> CR \<notin> set s \<Longrightarrow> cl_quiet c \<Longrightarrow>
      cl_feed c (framed s) = add_events (evs s (cl_id c)) c"
begin

lemma mk_Ret_iff:
  "mk D st body reason = Ret out \<longleftrightarrow>
     (\<exists>s. json_to_string D (val D st body reason) = Some s \<and> out = framed s)"
  by (auto simp: mk_val to_json_text_def rs_bind_Ret_iff expect_def split: option.splits)

lemma mk_total: "json_total D \<Longrightarrow> \<exists>out. mk D st body reason = Ret out"
  by (auto simp: mk_Ret_iff json_total_def)

lemma mk_events:
  assumes "json_one_line D" "mk D st body reason = Ret out" "cl_quiet c"
  shows "\<exists>s. json_to_string D (val D st body reason) = Some s \<and>
    cl_feed c out = add_events (evs s (cl_id c)) c"
  using assms framed_events json_one_lineD [OF assms(1)] by (auto simp: mk_Ret_iff)

end

section \<open>The four interpretations\<close>

text \<open>The builders compared with the specification, one part after the other.\<close>

lemma message_api: "message D body reason st = api_message D st body reason"
proof (cases "\<exists>b. reason = None \<and> body = Some b \<and> readable b")
  case True
  then obtain b where b: "reason = None" "body = Some b" "utf8_valid b" "str_trim b \<noteq> []"
    by (auto simp: readable_def)
  let ?t = "str_trim b"
  have v: "utf8_valid ?t" using b(3) by (rule str_trim_valid)
  have "b \<noteq> []" using b(4) str_trim_split [of b] by auto
  note b = b this
  show ?thesis
  proof (cases "length ?t \<le> MAX_MSG")
    case True
    with b v show ?thesis by (auto simp: message_def api_message_def readable_def longest_text_short MAX_MSG_def Let_def)
  next
    case False
    have "take j ?t = take (back_off ?t MAX_MSG) ?t"
      if "back_off ?t MAX_MSG < j" "j \<le> MAX_MSG" "utf8_valid (take j ?t)" for j
      using utf8_valid_take_boundary [OF v that(3)] back_off_max [of j MAX_MSG ?t] that False by simp
    then have "longest_text MAX_MSG ?t = take (back_off ?t MAX_MSG) ?t"
      using False v by (intro longest_text_eqI back_off_le take_back_off_valid) simp_all
    with b False show ?thesis by (auto simp: message_def api_message_def readable_def MAX_MSG_def Let_def)
  qed
next
  case False
  moreover have "status_fallback D st = status_line D st" by (simp add: status_fallback_def status_line_def)
  ultimately show ?thesis
    by (auto simp: message_def api_message_def readable_def Let_def split: option.splits)
qed

lemma div100: "is_client_error st \<longleftrightarrow> st div 100 = 4" "is_server_error st \<longleftrightarrow> st div 100 = 5"
  by (auto simp: is_client_error_def is_server_error_def)

lemma api_classes:
  "api_class ChatCompletions st = chat_error_type st" "api_class Responses st = responses_code st"
  "api_class AnthropicMessages st = anthropic_error_type st" "api_class GeminiStream st = gemini_status st"
  by (auto simp: api_class_def chat_error_type_def div100 responses_code_def anthropic_error_type_def
      lookup_or_def anthropic_types_def gemini_status_def gemini_types_def)

lemma json_as_str_iff: "json_as_str v = Some s \<longleftrightarrow> v = JString s"
  by (cases v) auto

lemma upstream_error_parsers:
  "upstream_error D ChatCompletions body = Option.bind (nonempty_body body) (parse_top_level_error D)"
  "upstream_error D GeminiStream body = Option.bind (nonempty_body body) (parse_top_level_error D)"
  "upstream_error D AnthropicMessages body = Option.bind (nonempty_body body) (parse_anthropic_error D)"
  "upstream_error D Responses body =
     map_option (\<lambda>(c, m, p). responses_object c m p) (Option.bind (nonempty_body body) (parse_responses_error D))"
  by (auto simp: upstream_error_def standard_error_def nonempty_body_def parse_top_level_error_def
      parse_anthropic_error_def parse_responses_error_def json_as_str_iff bind_eq_Some_conv
      split: option.splits json.splits)

text \<open>The framed texts, as a client that is between two events receives them.\<close>

lemma data_event:
  "LF \<notin> set s \<Longrightarrow> CR \<notin> set s \<Longrightarrow> cl_quiet c \<Longrightarrow>
     cl_feed c (''data: '' @ s @ [LF, LF]) = add_events [event ''message'' (cl_id c) s] c"
  unfolding event_def by (metis cl_feed_data_event one_event_add)

lemma api_frame_events:
  assumes "LF \<notin> set s" "CR \<notin> set s" "cl_quiet c"
  shows "cl_feed c (api_frame kind s) = add_events (error_events kind s (cl_id c)) c"
proof -
  have typed: "cl_feed c (''event: error'' @ [LF] @ ''data: '' @ s @ [LF, LF]) =
      add_events [event ''error'' (cl_id c) s] c"
    using assms cl_feed_typed_event [of s "''error''" c] by (simp only: one_event_add event_def) simp
  let ?c = "add_events [event ''message'' (cl_id c) s] c"
  have "''data: '' @ s @ [LF, LF] @ ''data: [DONE]'' @ [LF, LF] = (''data: '' @ s @ [LF, LF]) @ (''data: '' @ ''[DONE]'' @ [LF, LF])"
    by simp
  moreover have "cl_feed ?c (''data: '' @ ''[DONE]'' @ [LF, LF]) = add_events [event ''message'' (cl_id ?c) ''[DONE]''] ?c"
    using assms(3) by (intro data_event) auto
  ultimately have "cl_feed c (''data: '' @ s @ [LF, LF] @ ''data: [DONE]'' @ [LF, LF]) =
      add_events (error_events ChatCompletions s (cl_id c)) c"
    using data_event [OF assms] by (simp only: cl_feed_append) (simp add: add_events_def error_events_def)
  with typed data_event [OF assms] show ?thesis
    by (cases kind) (simp_all only: api_frame_def error_events_def endpoint_kind.case)
qed

interpretation chat: event_builder build_chat "\<lambda>D st. api_error D ChatCompletions (Some st)"
  "api_frame ChatCompletions" "error_events ChatCompletions"
proof
  fix D st body reason
  show "build_chat D st body reason =
      rs_bind (to_json_text D (api_error D ChatCompletions (Some st) body reason)) (\<lambda>s. Ret (api_frame ChatCompletions s))"
    by (cases "Option.bind (nonempty_body body) (parse_top_level_error D)")
      (simp_all add: build_chat_def api_error_def upstream_error_parsers api_object_def api_classes
        message_api json_object_def api_frame_def chat_done_def Let_def)
qed (simp add: api_frame_events)

interpretation responses: event_builder build_responses "\<lambda>D st. api_error D Responses (Some st)"
  "api_frame Responses" "error_events Responses"
proof
  fix D st body reason
  show "build_responses D st body reason =
      rs_bind (to_json_text D (api_error D Responses (Some st) body reason)) (\<lambda>s. Ret (api_frame Responses s))"
    by (cases "nonempty_body body"; cases "parse_responses_error D (the (nonempty_body body))")
      (auto simp: build_responses_def api_error_def upstream_error_parsers api_object_def api_classes
        message_api responses_object_def json_object_def api_frame_def Let_def)
qed (simp add: api_frame_events)

interpretation anthropic: event_builder build_anthropic "\<lambda>D st. api_error D AnthropicMessages (Some st)"
  "api_frame AnthropicMessages" "error_events AnthropicMessages"
proof
  fix D st body reason
  show "build_anthropic D st body reason =
      rs_bind (to_json_text D (api_error D AnthropicMessages (Some st) body reason)) (\<lambda>s. Ret (api_frame AnthropicMessages s))"
    by (cases "Option.bind (nonempty_body body) (parse_anthropic_error D)")
      (simp_all add: build_anthropic_def api_error_def upstream_error_parsers api_object_def api_classes
        message_api json_object_def api_frame_def Let_def)
qed (simp add: api_frame_events)

interpretation gemini: event_builder build_gemini "\<lambda>D st. api_error D GeminiStream (Some st)"
  "api_frame GeminiStream" "error_events GeminiStream"
proof
  fix D st body reason
  show "build_gemini D st body reason =
      rs_bind (to_json_text D (api_error D GeminiStream (Some st) body reason)) (\<lambda>s. Ret (api_frame GeminiStream s))"
    by (cases "Option.bind (nonempty_body body) (parse_top_level_error D)")
      (simp_all add: build_gemini_def api_error_def upstream_error_parsers api_object_def api_classes
        message_api json_object_def api_frame_def Let_def)
qed (simp add: api_frame_events)

section \<open>The events of an error\<close>

lemma build_api:
  "build D kind status body reason =
     rs_bind (to_json_text D (api_error D kind status body reason)) (\<lambda>s. Ret (api_frame kind s))"
  by (cases kind; cases status)
    (simp_all add: build_def chat.mk_val responses.mk_val anthropic.mk_val gemini.mk_val api_error_def)

lemma build_Ret_iff:
  "build D kind status body reason = Ret out \<longleftrightarrow>
     (\<exists>s. json_to_string D (api_error D kind status body reason) = Some s \<and> out = api_frame kind s)"
  by (auto simp: build_api to_json_text_def rs_bind_Ret_iff expect_def split: option.splits)

lemma build_total: "json_total D \<Longrightarrow> \<exists>out. build D kind status body reason = Ret out"
  by (auto simp: build_Ret_iff json_total_def)

lemma build_events:
  assumes "json_one_line D" "build D kind status body reason = Ret out" "cl_quiet c"
  shows "\<exists>s. json_to_string D (api_error D kind status body reason) = Some s \<and>
    cl_feed c out = add_events (error_events kind s (cl_id c)) c"
  using assms json_one_lineD [OF assms(1)] by (auto simp: build_Ret_iff api_frame_events)

text \<open>C19: building an error event never panics, and a client that is between two events receives
  it as exactly the events of the endpoint: the JSON text as the data of one event (of type
  \<open>error\<close> for Responses and Anthropic), followed by \<open>[DONE]\<close> for Chat Completions; it is then
  between two events again.\<close>

theorem build_is_events:
  assumes "json_total D" "json_one_line D" "cl_quiet c"
  shows "\<exists>out text. build D kind status body reason = Ret out \<and>
    json_to_string D (api_error D kind status body reason) = Some text \<and>
    cl_events (cl_feed c out) = cl_events c @ error_events kind text (cl_id c) \<and>
    cl_quiet (cl_feed c out)"
proof -
  obtain out where out: "build D kind status body reason = Ret out"
    using build_total [OF assms(1)] by blast
  from build_events [OF assms(2) out assms(3)] out assms(3) show ?thesis
    by (auto simp: add_events_def cl_quiet_def)
qed

theorem build_is_events_witness:
  "\<exists>out text. build sample_deps AnthropicMessages (Some 429) (Some ''nope'') None = Ret out \<and>
     cl_events (cl_feed client_init out) = [event ''error'' '''' text]"
  using build_is_events [OF sample_json_total sample_json_one_line cl_quiet_init,
      of AnthropicMessages "Some 429" "Some ''nope''" None]
  by (auto simp: error_events_def client_init_def)


text \<open>A standard error body is passed on: for Chat Completions and Gemini any object with a
  key \<open>error\<close>, for Anthropic one that also has the type \<open>error\<close>, is the value of the event as it
  is; for Responses its code, message and parameter are copied. The value of the key is not
  looked at: \<open>null\<close> counts as well.\<close>

lemma api_error_standard:
  assumes "b \<noteq> []" "json_from_slice D b = Some u" "standard_error kind u = Some v"
  shows "api_error D kind st (Some b) reason = v"
  using assms by (simp add: api_error_def upstream_error_def)

lemma standard_error_null:
  "standard_error ChatCompletions (JObject [(''error'', JNull)]) = Some (JObject [(''error'', JNull)])"
  by (simp add: standard_error_def)

lemma api_error_synthesised:
  assumes "\<And>b. body = Some b \<Longrightarrow> b \<noteq> [] \<Longrightarrow> json_from_slice D b = None"
  shows "api_error D kind status body reason =
    (let st = (case status of Some s \<Rightarrow> s | None \<Rightarrow> 502) in api_object kind st (api_message D st body reason))"
  using assms by (auto simp: api_error_def upstream_error_def split: option.splits)

text \<open>A failure of the connection (no status, no body) is reported like a 502.\<close>

lemma api_error_connection_failure:
  "api_error D kind None None (Some r) = api_object kind 502 (''upstream request failed: '' @ r)"
  by (simp add: api_error_def upstream_error_def api_message_def)

end
