(* ===== verification/Bridge.thy ===== *)
theory Bridge
  imports Boundary Encoding Error_Event
begin

text \<open>
  The bridging tasks of \<open>src/sse.rs\<close>: \<open>handle_success\<close>, \<open>handle_error\<close> and \<open>bridge\<close>. Each
  \<open>select!\<close> loop is a function over a schedule: the list of the branches that won, with the clock
  reading the branch makes. \<open>Fire\<close> is the heartbeat timer, \<open>Ready\<close> the other future (the
  upstream response, the next chunk, the collected body). A schedule that ends leaves the task
  pending, so every theorem about a schedule is also one about each of its prefixes.
\<close>

section \<open>Constants, timers and small steps\<close>

definition HEARTBEAT :: bytes where "HEARTBEAT = [CHR '':'', LF, LF]"

definition MAX_ERROR_BODY :: usize where "MAX_ERROR_BODY = 1024 * 1024"

datatype sel = Fire nat | Ready nat

text \<open>What a task, or a step of it, has come to: suspended, returned, or unwound by a panic.\<close>

datatype status = Pending | Returned | Panicked str

text \<open>The state a task threads through: its writer and the deadline of its heartbeat timer
  (\<open>None\<close>: a deadline beyond the range of the clock, which tokio puts far in the future).\<close>

record task =
  writer :: sse_writer
  heartbeat :: "nat option"

definition sleep_deadline :: "deps \<Rightarrow> nat \<Rightarrow> nat \<Rightarrow> nat option" where
  "sleep_deadline D now interval = (if now + interval \<le> instant_max D then Some (now + interval) else None)"

text \<open>\<open>Instant + Duration\<close> panics when the sum is not representable.\<close>

definition instant_add :: "deps \<Rightarrow> nat \<Rightarrow> nat \<Rightarrow> nat rs" where
  "instant_add D now d =
     expect ''overflow when adding duration to instant''
       (if now + d \<le> instant_max D then Some (now + d) else None)"

text \<open>\<open>heartbeat.as_mut().reset(Instant::now() + interval)\<close>.\<close>

definition reset_heartbeat :: "deps \<Rightarrow> nat \<Rightarrow> nat \<Rightarrow> task \<Rightarrow> task \<times> status" where
  "reset_heartbeat D interval now s =
     (case instant_add D now interval of
        Ret d \<Rightarrow> (s\<lparr>heartbeat := Some d\<rparr>, Pending)
      | Panic m \<Rightarrow> (s, Panicked m))"

text \<open>A write whose failure ends the task, and a write whose result is ignored.\<close>

definition write_or_return :: "bytes \<Rightarrow> task \<Rightarrow> task \<times> status" where
  "write_or_return b s =
     (case write_event b (writer s) of
        (Inl e, w) \<Rightarrow> (s\<lparr>writer := w\<rparr>, Returned)
      | (Inr u, w) \<Rightarrow> (s\<lparr>writer := w\<rparr>, Pending))"

definition write_ignored :: "bytes \<Rightarrow> task \<Rightarrow> task" where
  "write_ignored b s = s\<lparr>writer := snd (write_event b (writer s))\<rparr>"

text \<open>The branch of the timer, common to the three loops: the heartbeat is written under a
  condition (\<open>at_boundary\<close> in \<open>handle_success\<close>, none elsewhere), then the timer is reset.\<close>

definition heartbeat_arm :: "deps \<Rightarrow> nat \<Rightarrow> bool \<Rightarrow> nat \<Rightarrow> task \<Rightarrow> task \<times> status" where
  "heartbeat_arm D interval cond now s =
     (if cond
      then (case write_or_return HEARTBEAT s of
              (s', Pending) \<Rightarrow> reset_heartbeat D interval now s'
            | (s', st) \<Rightarrow> (s', st))
      else reset_heartbeat D interval now s)"

section \<open>Waiting with heartbeats\<close>

text \<open>The loop of phase 1 of \<open>bridge\<close>, and of the collection of an error body: heartbeats until
  the other future is ready. The rest of the schedule is handed on.\<close>

datatype waited = Still_waiting | Completed | Stopped status

fun wait_loop :: "deps \<Rightarrow> nat \<Rightarrow> task \<Rightarrow> sel list \<Rightarrow> task \<times> waited \<times> sel list" where
  "wait_loop D interval s [] = (s, Still_waiting, [])"
| "wait_loop D interval s (Fire now # es) =
     (case heartbeat_arm D interval True now s of
        (s', Pending) \<Rightarrow> wait_loop D interval s' es
      | (s', st) \<Rightarrow> (s', Stopped st, es))"
| "wait_loop D interval s (Ready now # es) = (s, Completed, es)"

definition collect_loop :: "deps \<Rightarrow> nat \<Rightarrow> task \<Rightarrow> sel list \<Rightarrow> task \<times> waited \<times> sel list" where
  "collect_loop D interval s es = wait_loop D interval s es"

definition wait_upstream :: "deps \<Rightarrow> nat \<Rightarrow> task \<Rightarrow> sel list \<Rightarrow> task \<times> waited \<times> sel list" where
  "wait_upstream D interval s es = wait_loop D interval s es"

section \<open>A successful response\<close>

text \<open>The error event after an optional terminator of the truncated event.\<close>

definition error_tail :: "deps \<Rightarrow> endpoint_kind \<Rightarrow> tracker \<Rightarrow> str \<Rightarrow> task \<Rightarrow> task \<times> status" where
  "error_tail D kind t reason s =
     (let s1 = (if \<not> at_boundary t then write_ignored [LF, LF] s else s) in
      case build D kind None None (Some reason) of
        Ret ev \<Rightarrow> (write_ignored ev s1, Returned)
      | Panic m \<Rightarrow> (s1, Panicked m))"

text \<open>A chunk: the tracker sees it, it is written, the timer is reset.\<close>

definition chunk_arm :: "deps \<Rightarrow> nat \<Rightarrow> bytes \<Rightarrow> nat \<Rightarrow> tracker \<Rightarrow> task \<Rightarrow> tracker \<times> task \<times> status" where
  "chunk_arm D interval b now t s =
     (case feed D t b of
        Panic m \<Rightarrow> (t, s, Panicked m)
      | Ret t' \<Rightarrow>
          (case write_or_return b s of
             (s', Pending) \<Rightarrow> (t', reset_heartbeat D interval now s')
           | (s', st) \<Rightarrow> (t', s', st)))"

fun success_loop ::
    "deps \<Rightarrow> endpoint_kind \<Rightarrow> nat \<Rightarrow> tracker \<Rightarrow> io_item list \<Rightarrow> task \<Rightarrow> sel list \<Rightarrow> task \<times> status" where
  "success_loop D kind interval t chunks s [] = (s, Pending)"
| "success_loop D kind interval t chunks s (Fire now # es) =
     (case heartbeat_arm D interval (at_boundary t) now s of
        (s', Pending) \<Rightarrow> success_loop D kind interval t chunks s' es
      | (s', st) \<Rightarrow> (s', st))"
| "success_loop D kind interval t chunks s (Ready now # es) =
     (case chunks of
        [] \<Rightarrow> (s, Returned)
      | Inr b # rest \<Rightarrow>
          (case chunk_arm D interval b now t s of
             (t', s', Pending) \<Rightarrow> success_loop D kind interval t' rest s' es
           | (t', s', st) \<Rightarrow> (s', st))
      | Inl e # rest \<Rightarrow> error_tail D kind t (io_error_text e) s)"

definition handle_success ::
    "deps \<Rightarrow> endpoint_kind \<Rightarrow> nat \<Rightarrow> coding option \<Rightarrow> incoming \<Rightarrow> task \<Rightarrow> sel list \<Rightarrow> task \<times> status" where
  "handle_success D kind interval upstream_ce body s es =
     (case upstream_ce of
        None \<Rightarrow> error_tail D kind tracker_new ''unsupported upstream content-encoding'' s
      | Some ce \<Rightarrow> success_loop D kind interval tracker_new (decoder_stream D ce body) s es)"

section \<open>An error response\<close>

definition error_body :: "deps \<Rightarrow> coding option \<Rightarrow> bytes \<Rightarrow> bytes" where
  "error_body D upstream_ce collected =
     (case upstream_ce of
        Some Identity \<Rightarrow> collected
      | None \<Rightarrow> collected
      | Some ce \<Rightarrow>
          (case decode_bytes D ce collected MAX_ERROR_BODY of Inr b \<Rightarrow> b | Inl e \<Rightarrow> collected))"

text \<open>After the collection: the body (empty when it could not be collected) is decoded, and its
  event written.\<close>

definition report_error ::
    "deps \<Rightarrow> endpoint_kind \<Rightarrow> status_code \<Rightarrow> coding option \<Rightarrow> incoming \<Rightarrow> task \<Rightarrow> task \<times> status" where
  "report_error D kind status upstream_ce body s =
     (let collected = (case limited_collect D MAX_ERROR_BODY body of Inr c \<Rightarrow> c | Inl e \<Rightarrow> []) in
      case build D kind (Some status) (Some (error_body D upstream_ce collected)) None of
        Ret ev \<Rightarrow> (write_ignored ev s, Returned)
      | Panic m \<Rightarrow> (s, Panicked m))"

definition handle_error ::
    "deps \<Rightarrow> endpoint_kind \<Rightarrow> nat \<Rightarrow> status_code \<Rightarrow> coding option \<Rightarrow> incoming \<Rightarrow> task \<Rightarrow> sel list
       \<Rightarrow> task \<times> status" where
  "handle_error D kind interval status upstream_ce body s es =
     (case collect_loop D interval s es of
        (s', Still_waiting, rest) \<Rightarrow> (s', Pending)
      | (s', Stopped st, rest) \<Rightarrow> (s', st)
      | (s', Completed, rest) \<Rightarrow> report_error D kind status upstream_ce body s')"

section \<open>The background task\<close>

definition upstream_done ::
    "deps \<Rightarrow> endpoint_kind \<Rightarrow> nat \<Rightarrow> upstream_result \<Rightarrow> task \<Rightarrow> sel list \<Rightarrow> task \<times> status" where
  "upstream_done D kind interval upstream_resp s es =
     (case upstream_resp of
        Inr resp \<Rightarrow>
          (let ce = parse_content_encoding D (up_headers resp) in
           if is_success (up_status resp)
           then handle_success D kind interval ce (up_body resp) s es
           else handle_error D kind interval (up_status resp) ce (up_body resp) s es)
      | Inl e \<Rightarrow>
          (case build D kind None None (Some e) of
             Ret ev \<Rightarrow> (write_ignored ev s, Returned)
           | Panic m \<Rightarrow> (s, Panicked m)))"

definition bridge ::
    "deps \<Rightarrow> endpoint_kind \<Rightarrow> nat \<Rightarrow> sse_writer \<Rightarrow> nat \<Rightarrow> upstream_result \<Rightarrow> sel list \<Rightarrow> task \<times> status" where
  "bridge D kind interval w now0 upstream es =
     (case wait_upstream D interval \<lparr>writer = w, heartbeat = sleep_deadline D now0 interval\<rparr> es of
        (s, Still_waiting, rest) \<Rightarrow> (s, Pending)
      | (s, Stopped st, rest) \<Rightarrow> (s, st)
      | (s, Completed, rest) \<Rightarrow> upstream_done D kind interval upstream s rest)"

text \<open>The body the client receives: the frames accepted by the channel; it ends once the task is
  over, because returning, \<open>writer.end()\<close> and unwinding all drop the sender.\<close>

definition task_body :: "task \<times> status \<Rightarrow> bytes" where
  "task_body r = concat (writer_end (writer (fst r)))"

definition body_ended :: "task \<times> status \<Rightarrow> bool" where
  "body_ended r \<longleftrightarrow> snd r \<noteq> Pending"

section \<open>The steps with a live client\<close>

text \<open>Frames appended to what the task has written.\<close>

definition push :: "bytes list \<Rightarrow> task \<Rightarrow> task" where
  "push bs s = s\<lparr>writer := (writer s)\<lparr>sent := sent (writer s) @ bs\<rparr>\<rparr>"

abbreviation overflow_msg :: str where
  "overflow_msg \<equiv> ''overflow when adding duration to instant''"

definition live :: "task \<Rightarrow> bool" where
  "live s \<longleftrightarrow> room (writer s) = None"

lemma push_simps [simp]:
  "sent (writer (push bs s)) = sent (writer s) @ bs" "heartbeat (push bs s) = heartbeat s"
  "room (writer (push bs s)) = room (writer s)" "live (push bs s) = live s"
  "live (s\<lparr>heartbeat := h\<rparr>) = live s" "push [] s = s"
  by (simp_all add: push_def live_def)

lemma write_live [task_simps]:
  "live s \<Longrightarrow> write_or_return b s = (push [b] s, Pending)"
  "live s \<Longrightarrow> write_ignored b s = push [b] s"
  by (simp_all add: live_def write_or_return_def write_ignored_def push_def writer_simps)

lemma reset_heartbeat_eq [task_simps]:
  "reset_heartbeat D iv now s =
     (if now + iv \<le> instant_max D then (s\<lparr>heartbeat := Some (now + iv)\<rparr>, Pending)
      else (s, Panicked overflow_msg))"
  by (simp add: reset_heartbeat_def instant_add_def)

lemma heartbeat_arm_live [task_simps]:
  "live s \<Longrightarrow> heartbeat_arm D iv c now s =
     reset_heartbeat D iv now (push (if c then [HEARTBEAT] else []) s)"
  by (simp add: heartbeat_arm_def write_live)

lemma chunk_arm_live [task_simps]:
  "memchr2_ok D \<Longrightarrow> live s \<Longrightarrow> chunk_arm D iv b now t s =
     (tracker_bytes t b, reset_heartbeat D iv now (push [b] s))"
  by (simp add: chunk_arm_def feed_Ret write_live)

lemma error_tail_live [task_simps]:
  assumes "live s" "build D kind None None (Some r) = Ret ev"
  shows "error_tail D kind t r s = (push ((if at_boundary t then [] else [[LF, LF]]) @ [ev]) s, Returned)"
  using assms by (simp add: error_tail_def write_live Let_def)

section \<open>What the success loop emits\<close>

fun frame :: "emission \<Rightarrow> bytes" where
  "frame (Data b) = b"
| "frame Beat = HEARTBEAT"

lemma frame_wire: "concat (map frame ems) = wire ems"
  by (induction ems rule: wire.induct) (auto simp: HEARTBEAT_def)

text \<open>The frames after the last item: none at a normal end, and after an error its event, preceded
  by the terminator of a truncated event.\<close>

definition success_tail :: "deps \<Rightarrow> endpoint_kind \<Rightarrow> bool \<Rightarrow> io_error option \<Rightarrow> bytes list \<Rightarrow> bool" where
  "success_tail D kind bnd err tail \<longleftrightarrow>
     (case err of
        None \<Rightarrow> tail = []
      | Some e \<Rightarrow> \<exists>ev. build D kind None None (Some (io_error_text e)) = Ret ev \<and>
          tail = (if bnd then [] else [[LF, LF]]) @ [ev])"

text \<open>The outcome of the loop, for the emissions \<open>ems\<close> made from the tracker \<open>t\<close> and the
  items \<open>chunks\<close>: the data emitted is a prefix of that of the items; once the loop has returned
  it is all the data before the first error, and the tail follows.\<close>

definition emits ::
    "deps \<Rightarrow> endpoint_kind \<Rightarrow> tracker \<Rightarrow> io_item list \<Rightarrow> emission list \<Rightarrow> status \<Rightarrow> bytes list \<Rightarrow> bool" where
  "emits D kind t chunks ems st tail \<longleftrightarrow>
     well_placed tracker_bytes at_boundary t ems \<and>
     (if st = Returned
      then payload ems = items_bytes chunks \<and>
           success_tail D kind (at_boundary (tracker_bytes t (items_bytes chunks))) (items_error chunks) tail
      else tail = [] \<and> prefix (payload ems) (items_bytes chunks))"

definition loop_emits ::
    "deps \<Rightarrow> endpoint_kind \<Rightarrow> tracker \<Rightarrow> io_item list \<Rightarrow> task \<Rightarrow> task \<times> status \<Rightarrow> bool" where
  "loop_emits D kind t chunks s r \<longleftrightarrow>
     (\<exists>ems tail. emits D kind t chunks ems (snd r) tail \<and>
        sent (writer (fst r)) = sent (writer s) @ map frame ems @ tail)"

lemma loop_emits_stop: "st \<noteq> Returned \<Longrightarrow> sent (writer s') = sent (writer s) \<Longrightarrow> loop_emits D kind t chunks s (s', st)"
  unfolding loop_emits_def by (intro exI [of _ "[]"]) (simp add: emits_def)

lemma loop_emits_end: "loop_emits D kind t [] s (s, Returned)"
  unfolding loop_emits_def by (intro exI [of _ "[]"]) (simp add: emits_def success_tail_def)

lemma loop_emits_beat:
  assumes "loop_emits D kind t chunks (push (if at_boundary t then [HEARTBEAT] else []) s) r"
  shows "loop_emits D kind t chunks s r"
proof -
  from assms obtain ems tail where e: "emits D kind t chunks ems (snd r) tail"
    "sent (writer (fst r)) = sent (writer s) @ (if at_boundary t then [HEARTBEAT] else []) @ map frame ems @ tail"
    by (auto simp: loop_emits_def)
  then have "emits D kind t chunks ((if at_boundary t then [Beat] else []) @ ems) (snd r) tail"
    by (simp add: emits_def)
  with e(2) show ?thesis
    unfolding loop_emits_def
    by (intro exI [of _ "(if at_boundary t then [Beat] else []) @ ems"] exI [of _ tail]) simp
qed

lemma loop_emits_data:
  assumes "loop_emits D kind (tracker_bytes t b) rest (push [b] s) r"
  shows "loop_emits D kind t (Inr b # rest) s r"
proof -
  from assms obtain ems tail where e: "emits D kind (tracker_bytes t b) rest ems (snd r) tail"
    "sent (writer (fst r)) = sent (writer s) @ b # map frame ems @ tail"
    by (auto simp: loop_emits_def)
  then have "emits D kind t (Inr b # rest) (Data b # ems) (snd r) tail"
    by (simp add: emits_def)
  with e(2) show ?thesis
    unfolding loop_emits_def by (intro exI [of _ "Data b # ems"] exI [of _ tail]) simp
qed

lemma loop_emits_error:
  assumes "live s" "json_total D"
  shows "loop_emits D kind t (Inl x # rest) s (error_tail D kind t (io_error_text x) s)"
proof -
  obtain ev where ev: "build D kind None None (Some (io_error_text x)) = Ret ev"
    using build_total [OF assms(2)] by blast
  with assms(1) show ?thesis
    unfolding loop_emits_def
    by (intro exI [of _ "[]"] exI [of _ "(if at_boundary t then [] else [[LF, LF]]) @ [ev]"])
      (simp add: emits_def success_tail_def error_tail_live)
qed

lemma items_cases:
  fixes chunks :: "io_item list"
  obtains (eof) "chunks = []" | (data) b rest where "chunks = Inr b # rest"
    | (err) x rest where "chunks = Inl x # rest"
  by (metis list.exhaust sum.exhaust)

lemma success_loop_emits:
  assumes "memchr2_ok D" "json_total D" "live s"
  shows "loop_emits D kind t chunks s (success_loop D kind iv t chunks s es)"
  using assms(3)
proof (induction es arbitrary: t chunks s)
  case Nil
  then show ?case by (simp add: loop_emits_stop)
next
  case (Cons e es)
  show ?case
  proof (cases e)
    case (Fire now)
    let ?s = "push (if at_boundary t then [HEARTBEAT] else []) s"
    have "loop_emits D kind t chunks ?s (success_loop D kind iv t chunks (?s\<lparr>heartbeat := Some (now + iv)\<rparr>) es)"
      using Cons.IH [of "?s\<lparr>heartbeat := Some (now + iv)\<rparr>"] Cons.prems by (simp add: loop_emits_def)
    then have "loop_emits D kind t chunks ?s (success_loop D kind iv t chunks s (e # es))"
      using Cons.prems Fire by (simp add: task_simps loop_emits_stop)
    then show ?thesis by (rule loop_emits_beat)
  next
    case (Ready now)
    show ?thesis
    proof (cases chunks rule: items_cases)
      case eof
      with Ready show ?thesis by (simp add: loop_emits_end)
    next
      case (data b rest)
      have "loop_emits D kind (tracker_bytes t b) rest (push [b] s)
          (success_loop D kind iv (tracker_bytes t b) rest ((push [b] s)\<lparr>heartbeat := Some (now + iv)\<rparr>) es)"
        using Cons.IH [of "(push [b] s)\<lparr>heartbeat := Some (now + iv)\<rparr>"] Cons.prems by (simp add: loop_emits_def)
      then have "loop_emits D kind (tracker_bytes t b) rest (push [b] s)
          (success_loop D kind iv t chunks s (e # es))"
        using data Ready Cons.prems assms(1) by (simp add: task_simps loop_emits_stop)
      with data show ?thesis by (auto intro: loop_emits_data)
    next
      case (err x rest)
      with Ready Cons.prems assms(2) show ?thesis by (simp add: loop_emits_error)
    qed
  qed
qed

section \<open>Waiting with a live client\<close>

fun sel_time :: "sel \<Rightarrow> nat" where
  "sel_time (Fire now) = now"
| "sel_time (Ready now) = now"

text \<open>Every clock reading of the schedule leaves room for the interval.\<close>

definition on_clock :: "deps \<Rightarrow> nat \<Rightarrow> sel list \<Rightarrow> bool" where
  "on_clock D iv es \<longleftrightarrow> list_all (\<lambda>e. sel_time e + iv \<le> instant_max D) es"

lemma on_clock_simps [simp]:
  "on_clock D iv []" "on_clock D iv (e # es) \<longleftrightarrow> sel_time e + iv \<le> instant_max D \<and> on_clock D iv es"
  "on_clock D iv (es @ fs) \<longleftrightarrow> on_clock D iv es \<and> on_clock D iv fs"
  by (simp_all add: on_clock_def)

lemma wait_loop_beats:
  "live s \<Longrightarrow> \<exists>k. sent (writer (fst (wait_loop D iv s es))) = sent (writer s) @ replicate k HEARTBEAT"
proof (induction es arbitrary: s)
  case Nil
  then show ?case by (intro exI [of _ 0]) simp
next
  case (Cons e es)
  show ?case
  proof (cases e)
    case (Fire now)
    show ?thesis
    proof (cases "now + iv \<le> instant_max D")
      case True
      let ?s = "(push [HEARTBEAT] s)\<lparr>heartbeat := Some (now + iv)\<rparr>"
      from Cons.IH [of ?s] Cons.prems obtain k where
        "sent (writer (fst (wait_loop D iv ?s es))) = sent (writer s) @ HEARTBEAT # replicate k HEARTBEAT" by auto
      with True Fire Cons.prems show ?thesis
        by (intro exI [of _ "Suc k"]) (simp add: task_simps)
    next
      case False
      with Fire Cons.prems show ?thesis by (intro exI [of _ 1]) (simp add: task_simps)
    qed
  next
    case (Ready now)
    then show ?thesis by (intro exI [of _ 0]) simp
  qed
qed

lemma wait_loop_room: "live s \<Longrightarrow> live (fst (wait_loop D iv s es))"
proof (induction es arbitrary: s)
  case (Cons e es)
  then show ?case by (cases e) (simp_all add: task_simps)
qed simp

lemma wait_loop_stopped:
  "live s \<Longrightarrow> wait_loop D iv s es = (s', Stopped st, rest) \<Longrightarrow>
     st = Panicked overflow_msg \<and> \<not> on_clock D iv es"
proof (induction es arbitrary: s)
  case (Cons e es)
  show ?case
  proof (cases e)
    case (Fire now)
    with Cons.prems Cons.IH [of "(push [HEARTBEAT] s)\<lparr>heartbeat := Some (now + iv)\<rparr>"] show ?thesis
      by (auto simp: task_simps split: if_splits)
  next
    case (Ready now)
    with Cons.prems show ?thesis by simp
  qed
qed simp

text \<open>The timer fires some number of times, then the other future is ready: as many heartbeats.\<close>

lemma wait_loop_fires:
  "live s \<Longrightarrow> on_clock D iv (map Fire ns) \<Longrightarrow>
     \<exists>s'. wait_loop D iv s (map Fire ns @ es) = wait_loop D iv s' es \<and> live s' \<and>
       sent (writer s') = sent (writer s) @ replicate (length ns) HEARTBEAT \<and>
       heartbeat s' = (if ns = [] then heartbeat s else Some (last ns + iv))"
proof (induction ns arbitrary: s)
  case Nil
  then show ?case by auto
next
  case (Cons n ns)
  let ?s = "(push [HEARTBEAT] s)\<lparr>heartbeat := Some (n + iv)\<rparr>"
  from Cons.IH [of ?s] Cons.prems obtain s' where
    "wait_loop D iv ?s (map Fire ns @ es) = wait_loop D iv s' es" "live s'"
    "sent (writer s') = sent (writer s) @ HEARTBEAT # replicate (length ns) HEARTBEAT"
    "heartbeat s' = (if ns = [] then Some (n + iv) else Some (last ns + iv))" by auto
  with Cons.prems show ?case by (intro exI [of _ s']) (simp add: task_simps)
qed

end
