(* ===== verification/Delivery.thy ===== *)
theory Delivery
  imports Bridge
begin

text \<open>
  What the client of a bridged response receives. The specification is \<open>outcome\<close>: the upstream
  bytes that are passed on and the error reported after them, if any, as a function of the
  upstream's answer alone. The lemmas show that every run of \<open>bridge\<close>, \<open>handle_success\<close> and
  \<open>handle_error\<close>, under any schedule of timer and upstream, shows the client the events of the
  outcome once the run has returned, and the events of a prefix before that.
\<close>

section \<open>What the client is promised\<close>

text \<open>The abstract outcome of a request on the bridged path: the upstream bytes passed on, and the
  error reported after them, if any.\<close>

definition success_outcome ::
    "deps \<Rightarrow> endpoint_kind \<Rightarrow> coding option \<Rightarrow> incoming \<Rightarrow> bytes \<times> json option" where
  "success_outcome D kind ce body =
     (case ce of
        None \<Rightarrow> ([], Some (api_error D kind None None (Some ''unsupported upstream content-encoding'')))
      | Some c \<Rightarrow>
          (let items = decoder_stream D c body
           in (items_bytes items,
               map_option (\<lambda>e. api_error D kind None None (Some (io_error_text e))) (items_error items))))"

definition error_outcome ::
    "deps \<Rightarrow> endpoint_kind \<Rightarrow> status_code \<Rightarrow> coding option \<Rightarrow> incoming \<Rightarrow> bytes \<times> json option" where
  "error_outcome D kind status ce body =
     (let collected = (case limited_collect D MAX_ERROR_BODY body of Inr c \<Rightarrow> c | Inl e \<Rightarrow> [])
      in ([], Some (api_error D kind (Some status) (Some (error_body D ce collected)) None)))"

definition outcome :: "deps \<Rightarrow> endpoint_kind \<Rightarrow> upstream_result \<Rightarrow> bytes \<times> json option" where
  "outcome D kind upstream =
     (case upstream of
        Inl e \<Rightarrow> ([], Some (api_error D kind None None (Some e)))
      | Inr resp \<Rightarrow>
          (let ce = parse_content_encoding D (up_headers resp)
           in if is_success (up_status resp) then success_outcome D kind ce (up_body resp)
              else error_outcome D kind (up_status resp) ce (up_body resp)))"

text \<open>The events of an outcome: those of the upstream bytes, then those of the error; the upstream
  bytes are ended by a blank line first, so that an event cut short does not swallow the error.\<close>

definition last_id :: "bytes \<Rightarrow> str" where
  "last_id bs = cl_id (cl_feed client_init bs)"

definition outcome_events :: "deps \<Rightarrow> endpoint_kind \<Rightarrow> bytes \<times> json option \<Rightarrow> sse_event list" where
  "outcome_events D kind oc =
     (case oc of
        (p, None) \<Rightarrow> events_of p
      | (p, Some v) \<Rightarrow>
          events_of (p @ [LF, LF]) @
          error_events kind (case json_to_string D v of Some s \<Rightarrow> s | None \<Rightarrow> []) (last_id (p @ [LF, LF])))"

section \<open>The client of a run\<close>

lemma cl_sim_id: "cl_sim c d \<Longrightarrow> cl_id d = cl_id c"
  by (cases c; cases d) (auto simp: cl_sim_def)

lemma cl_quiet_two_lf:
  assumes "cl_quiet c"
  shows "cl_events (cl_feed c [LF, LF]) = cl_events c" "cl_id (cl_feed c [LF, LF]) = cl_id c"
  using assms by (simp_all add: cl_byte_def client_simps cl_quiet_def cl_dispatch_def)

text \<open>An error event after well placed emissions, with the terminator unless at a boundary.\<close>

lemma error_after_emissions:
  assumes "json_one_line D" "well_placed tracker_bytes at_boundary tracker_new ems"
    and "build D kind st body reason = Ret ev"
  shows "events_of (wire ems @
      concat ((if at_boundary (tracker_bytes tracker_new (payload ems)) then [] else [[LF, LF]]) @ [ev])) =
    outcome_events D kind (payload ems, Some (api_error D kind st body reason))"
proof -
  let ?p = "cl_feed client_init (payload ems)" and ?w = "cl_feed client_init (wire ems)"
  let ?sep = "if at_boundary (tracker_bytes tracker_new (payload ems)) then [] else [LF, LF]"
  let ?c = "cl_feed ?w ?sep" and ?d = "cl_feed ?p [LF, LF]"
  have sim: "cl_sim ?p ?w" using assms(2) by (rule tr.beats_invisible)
  have c: "cl_quiet ?c \<and> cl_events ?c = cl_events ?d \<and> cl_id ?c = cl_id ?d"
  proof (cases "at_boundary (tracker_bytes tracker_new (payload ems))")
    case True
    then have "cl_quiet ?p" by (rule boundary_quiet)
    with True sim show ?thesis
      by (simp del: cl_feed_Cons add: cl_quiet_two_lf cl_sim_events cl_sim_id cl_sim_quiet)
  next
    case False
    moreover have "cl_sim ?d (cl_feed ?w [LF, LF])" using sim by (rule cl_sim_feed)
    moreover have "cl_quiet ?d" by (rule cl_two_lf_quiet) (simp add: cl_ok_feed)
    ultimately show ?thesis
      by (simp del: cl_feed_Cons add: cl_sim_events cl_sim_id cl_sim_quiet)
  qed
  with build_events [OF assms(1,3), of ?c] obtain s where
    s: "json_to_string D (api_error D kind st body reason) = Some s"
    "cl_feed ?c ev = add_events (error_events kind s (cl_id ?c)) ?c" by blast
  have "concat ((if at_boundary (tracker_bytes tracker_new (payload ems)) then [] else [[LF, LF]]) @ [ev]) = ?sep @ ev"
    by simp
  then have "events_of (wire ems @
      concat ((if at_boundary (tracker_bytes tracker_new (payload ems)) then [] else [[LF, LF]]) @ [ev])) =
      cl_events (cl_feed ?c ev)"
    by (simp only: events_of_def cl_feed_append)
  with s c show ?thesis
    by (simp del: cl_feed_Cons add: outcome_events_def events_of_def last_id_def add_events_def)
qed

text \<open>Heartbeats at the start are well placed.\<close>

lemma replicate_beats:
  "map frame (replicate k Beat @ ems) = replicate k HEARTBEAT @ map frame ems"
  "payload (replicate k Beat @ ems) = payload ems"
  by (induction k) simp_all

lemma well_placed_beats:
  "at_boundary t \<Longrightarrow> well_placed tracker_bytes at_boundary t (replicate k Beat @ ems) =
     well_placed tracker_bytes at_boundary t ems"
  by (induction k) auto

text \<open>What a run has sent, against an outcome.\<close>

definition serves :: "deps \<Rightarrow> endpoint_kind \<Rightarrow> bytes \<times> json option \<Rightarrow> bytes list \<Rightarrow> status \<Rightarrow> bool" where
  "serves D kind oc out st \<longleftrightarrow>
     (if st = Returned then events_of (concat out) = outcome_events D kind oc
      else \<exists>p. prefix p (fst oc) \<and> events_of (concat out) = events_of p)"

lemma serves_error:
  assumes "json_one_line D" "build D kind status body reason = Ret ev"
  shows "serves D kind ([], Some (api_error D kind status body reason)) (replicate k HEARTBEAT @ [ev]) Returned"
proof -
  have "map frame (replicate k Beat) = replicate k HEARTBEAT" "payload (replicate k Beat) = []"
    using replicate_beats [of k "[]"] by simp_all
  moreover have "well_placed tracker_bytes at_boundary tracker_new (replicate k Beat)"
    using well_placed_beats [of tracker_new k "[]"] by (simp add: tracker_new_def)
  ultimately show ?thesis
    using error_after_emissions [OF assms(1) _ assms(2), of "replicate k Beat"] frame_wire [of "replicate k Beat"]
    by (simp add: serves_def tracker_new_def)
qed

lemma serves_beats: "st \<noteq> Returned \<Longrightarrow> serves D kind oc (replicate k HEARTBEAT) st"
proof -
  assume "st \<noteq> Returned"
  moreover have "map frame (replicate k Beat) = replicate k HEARTBEAT" "payload (replicate k Beat) = []"
    using replicate_beats [of k "[]"] by simp_all
  moreover have "well_placed tracker_bytes at_boundary tracker_new (replicate k Beat)"
    using well_placed_beats [of tracker_new k "[]"] by (simp add: tracker_new_def)
  ultimately show ?thesis
    using tr.beats_same_events [of "replicate k Beat"] frame_wire [of "replicate k Beat"]
    by (auto simp: serves_def intro!: exI [of _ "[]"])
qed

lemma serves_loop:
  assumes "json_one_line D" "loop_emits D kind tracker_new chunks s r"
    and "sent (writer s) = replicate k HEARTBEAT"
  shows "serves D kind (items_bytes chunks,
       map_option (\<lambda>e. api_error D kind None None (Some (io_error_text e))) (items_error chunks))
     (sent (writer (fst r))) (snd r)"
proof -
  from assms(2,3) obtain ems tail where e: "emits D kind tracker_new chunks ems (snd r) tail"
    and s: "sent (writer (fst r)) = map frame (replicate k Beat @ ems) @ tail"
    by (auto simp: loop_emits_def replicate_beats)
  let ?ems = "replicate k Beat @ ems"
  have p: "payload ?ems = payload ems" by (simp only: replicate_beats)
  have w: "well_placed tracker_bytes at_boundary tracker_new ?ems"
    using e well_placed_beats [of tracker_new k ems] by (simp add: tracker_new_def emits_def)
  have c: "concat (map frame ?ems @ tail) = wire ?ems @ concat tail"
    by (simp only: concat_append frame_wire)
  show ?thesis
  proof (cases "snd r = Returned \<and> items_error chunks \<noteq> None")
    case True
    then obtain x ev where x: "items_error chunks = Some x" "snd r = Returned"
      and ev: "build D kind None None (Some (io_error_text x)) = Ret ev"
      and t: "tail = (if at_boundary (tracker_bytes tracker_new (payload ?ems)) then [] else [[LF, LF]]) @ [ev]"
      and pl: "payload ?ems = items_bytes chunks"
      using e p by (auto simp: emits_def success_tail_def)
    have "events_of (concat (map frame ?ems @ tail)) =
        outcome_events D kind (payload ?ems, Some (api_error D kind None None (Some (io_error_text x))))"
      unfolding c unfolding t by (rule error_after_emissions [OF assms(1) w ev])
    with x s pl show ?thesis by (simp add: serves_def)
  next
    case False
    with e have "tail = []" "snd r = Returned \<longrightarrow> items_error chunks = None"
      by (auto simp: emits_def success_tail_def split: if_splits)
    moreover from this(1) have "events_of (concat (sent (writer (fst r)))) = events_of (payload ems)"
      using tr.beats_same_events [OF w] unfolding s c p by (simp del: wire_append)
    moreover have "if snd r = Returned then payload ems = items_bytes chunks else prefix (payload ems) (items_bytes chunks)"
      using e by (simp add: emits_def)
    ultimately show ?thesis by (auto simp: serves_def outcome_events_def)
  qed
qed

lemma tracker_new_boundary [simp]: "at_boundary tracker_new"
  by (simp add: tracker_new_def)

lemma handle_success_serves:
  assumes "memchr2_ok D" "json_total D" "json_one_line D" "live s"
    and "sent (writer s) = replicate k HEARTBEAT"
    and "handle_success D kind iv ce body s es = r"
  shows "serves D kind (success_outcome D kind ce body) (sent (writer (fst r))) (snd r)"
proof (cases ce)
  case None
  obtain ev where ev: "build D kind None None (Some ''unsupported upstream content-encoding'') = Ret ev"
    using build_total [OF assms(2)] by blast
  with None assms(4-6) have "r = (push [ev] s, Returned)"
    by (simp add: handle_success_def error_tail_live)
  with None assms(5) serves_error [OF assms(3) ev, of k] show ?thesis
    by (simp add: success_outcome_def)
next
  case (Some c)
  have "loop_emits D kind tracker_new (decoder_stream D c body) s r"
    using success_loop_emits [OF assms(1,2,4)] assms(6) Some by (auto simp: handle_success_def)
  from serves_loop [OF assms(3) this assms(5)] Some show ?thesis
    by (simp add: success_outcome_def Let_def)
qed

lemma replicate_snoc_beats: "replicate k HEARTBEAT @ replicate j HEARTBEAT = replicate (k + j) HEARTBEAT"
  by (simp add: replicate_add)

lemma wait_loop_serves:
  assumes "live s" "sent (writer s) = replicate k HEARTBEAT" "wait_loop D iv s es = (s', w, rest)"
  obtains j where "live s'" "sent (writer s') = replicate j HEARTBEAT" "w \<noteq> Stopped Returned"
  using wait_loop_beats [OF assms(1), of D iv es] wait_loop_room [OF assms(1), of D iv es]
    wait_loop_stopped [OF assms(1), of D iv es s' Returned rest] assms(2,3) replicate_snoc_beats
  by fastforce

text \<open>The event of an error response, whatever the client does.\<close>

lemma report_error_writes:
  assumes "json_total D"
  obtains ev where
    "build D kind (Some st) (Some (error_body D ce
       (case limited_collect D MAX_ERROR_BODY body of Inr c \<Rightarrow> c | Inl e \<Rightarrow> []))) None = Ret ev"
    "\<And>s. report_error D kind st ce body s = (write_ignored ev s, Returned)"
  using build_total [OF assms] by (fastforce simp: report_error_def)

lemma handle_error_serves:
  assumes "json_total D" "json_one_line D" "live s" "sent (writer s) = replicate k HEARTBEAT"
    and "handle_error D kind iv st ce body s es = r"
  shows "serves D kind (error_outcome D kind st ce body) (sent (writer (fst r))) (snd r)"
proof -
  obtain s' w rest where w: "wait_loop D iv s es = (s', w, rest)" by (cases "wait_loop D iv s es")
  from wait_loop_serves [OF assms(3,4) w] obtain j where
    s': "live s'" "sent (writer s') = replicate j HEARTBEAT" "w \<noteq> Stopped Returned" by metis
  obtain ev where ev: "build D kind (Some st) (Some (error_body D ce
      (case limited_collect D MAX_ERROR_BODY body of Inr c \<Rightarrow> c | Inl e \<Rightarrow> []))) None = Ret ev"
    "\<And>s. report_error D kind st ce body s = (write_ignored ev s, Returned)"
    using report_error_writes [OF assms(1)] by metis
  show ?thesis
  proof (cases w)
    case Completed
    with w ev s' assms(5) have "r = (push [ev] s', Returned)"
      by (auto simp: handle_error_def collect_loop_def task_simps)
    with s' serves_error [OF assms(2) ev(1), of j] show ?thesis by (simp add: error_outcome_def Let_def)
  qed (use w assms(5) s' in \<open>auto simp: handle_error_def collect_loop_def serves_beats\<close>)
qed

lemma upstream_done_serves:
  assumes "memchr2_ok D" "json_total D" "json_one_line D" "live s"
    and "sent (writer s) = replicate k HEARTBEAT" "upstream_done D kind iv upstream s es = r"
  shows "serves D kind (outcome D kind upstream) (sent (writer (fst r))) (snd r)"
proof (cases upstream)
  case (Inl e)
  obtain ev where ev: "build D kind None None (Some e) = Ret ev"
    using build_total [OF assms(2)] by blast
  with Inl assms(4,6) have "r = (push [ev] s, Returned)"
    by (auto simp: upstream_done_def task_simps)
  with Inl assms(5) serves_error [OF assms(3) ev, of k] show ?thesis by (simp add: outcome_def)
next
  case (Inr resp)
  with assms(6) show ?thesis
    using handle_success_serves [OF assms(1-5)] handle_error_serves [OF assms(2-5)]
    by (auto simp: outcome_def upstream_done_def Let_def)
qed

lemma bridge_serves:
  assumes "memchr2_ok D" "json_total D" "json_one_line D"
    and "bridge D kind iv (writer_new None) now0 upstream es = r"
  shows "serves D kind (outcome D kind upstream) (sent (writer (fst r))) (snd r)"
proof -
  let ?s = "\<lparr>writer = writer_new None, heartbeat = sleep_deadline D now0 iv\<rparr>"
  have s: "live ?s" "sent (writer ?s) = replicate 0 HEARTBEAT" by (simp_all add: live_def writer_new_def)
  obtain s' w rest where w: "wait_loop D iv ?s es = (s', w, rest)" by (cases "wait_loop D iv ?s es")
  from wait_loop_serves [OF s w] obtain j where
    s': "live s'" "sent (writer s') = replicate j HEARTBEAT" "w \<noteq> Stopped Returned" by metis
  show ?thesis
  proof (cases w)
    case Completed
    with w assms(4) have "upstream_done D kind iv upstream s' rest = r"
      by (simp add: bridge_def wait_upstream_def)
    then show ?thesis by (rule upstream_done_serves [OF assms(1-3) s'(1,2)])
  qed (use w assms(4) s' in \<open>auto simp: bridge_def wait_upstream_def serves_beats\<close>)
qed

section \<open>Properties\<close>

text \<open>C3: end to end, for every endpoint, upstream answer, interval and schedule of timer and
  upstream, with a client that stays: when the task has returned, the client has received exactly
  the events of the upstream bytes, followed by the events of the error if the outcome has one;
  before that (and after a panic of the clock) it has received the events of a prefix of the
  upstream bytes. Heartbeats never show.\<close>

theorem bridge_delivers:
  assumes "memchr2_ok D" "json_total D" "json_one_line D"
  shows "let r = bridge D kind interval (writer_new None) now0 upstream es;
             oc = outcome D kind upstream
         in if snd r = Returned then events_of (task_body r) = outcome_events D kind oc
            else \<exists>p. prefix p (fst oc) \<and> events_of (task_body r) = events_of p"
  using bridge_serves [OF assms refl, where kind = kind and iv = interval and upstream = upstream]
  by (simp add: serves_def task_body_def writer_end_def Let_def)

theorem bridge_delivers_witness:
  "\<exists>text. events_of (task_body (bridge sample_deps ChatCompletions 60 (writer_new None) 0
        (Inl ''refused'') [Fire 60, Fire 120, Ready 130])) =
      [event ''message'' '''' text, event ''message'' '''' ''[DONE]'']"
proof -
  let ?r = "bridge sample_deps ChatCompletions 60 (writer_new None) 0 (Inl ''refused'') [Fire 60, Fire 120, Ready 130]"
  obtain ev where "build sample_deps ChatCompletions None None (Some ''refused'') = Ret ev"
    using build_total [OF sample_json_total] by blast
  then have "snd ?r = Returned"
    by (simp add: bridge_def wait_upstream_def upstream_done_def task_simps sample_max live_def writer_new_def
        push_def)
  with bridge_delivers [OF sample_memchr2_ok sample_json_total sample_json_one_line,
      of ChatCompletions 60 0 "Inl ''refused''" "[Fire 60, Fire 120, Ready 130]"]
  show ?thesis
    by (auto simp: Let_def outcome_def outcome_events_def error_events_def events_of_def last_id_def
        client_init_def cl_byte_def client_simps cl_dispatch_def)
qed

text \<open>C4: on the wire, the streaming of a successful response to a client that stays is the
  upstream's decoded chunks, unchanged and in order, with heartbeats between them only where the
  bytes so far end at an event boundary; at the end of the stream nothing is added, and after an
  error of the stream exactly one error event, behind \<open>"\n\n"\<close> when an event was cut short.\<close>

theorem handle_success_wire:
  assumes "memchr2_ok D" "json_total D" "room (writer s) = None"
    and "handle_success D kind interval (Some ce) body s es = (s', st)"
    and "decoder_stream D ce body = items"
  shows "\<exists>ems tail. sent (writer s') = sent (writer s) @ map frame ems @ tail \<and>
     well_placed tracker_bytes at_boundary tracker_new ems \<and>
     (if st = Returned
      then payload ems = items_bytes items \<and>
        (case items_error items of
           None \<Rightarrow> tail = []
         | Some e \<Rightarrow> \<exists>ev. build D kind None None (Some (io_error_text e)) = Ret ev \<and>
             tail = (if at_boundary (tracker_bytes tracker_new (items_bytes items)) then [] else [[LF, LF]]) @ [ev])
      else tail = [] \<and> prefix (payload ems) (items_bytes items))"
proof -
  have "loop_emits D kind tracker_new items s (s', st)"
    using success_loop_emits [OF assms(1,2), of s kind tracker_new items interval es] assms(3-5)
    by (simp add: handle_success_def live_def)
  then show ?thesis
    by (auto simp: loop_emits_def emits_def success_tail_def split: if_splits)
qed

theorem handle_success_wire_witness:
  "\<exists>ems. sent (writer (fst (handle_success sample_deps Responses 60 (Some Identity) [Inr ''data: x'']
       \<lparr>writer = writer_new None, heartbeat = Some 60\<rparr> [Fire 60, Ready 70, Fire 130, Ready 131]))) = map frame ems \<and>
     well_placed tracker_bytes at_boundary tracker_new ems \<and> payload ems = ''data: x''"
proof -
  let ?s = "\<lparr>writer = writer_new None, heartbeat = Some 60\<rparr>"
  let ?r = "handle_success sample_deps Responses 60 (Some Identity) [Inr ''data: x''] ?s [Fire 60, Ready 70, Fire 130, Ready 131]"
  have items: "decoder_stream sample_deps Identity [Inr ''data: x''] = [Inr ''data: x'']"
    by (simp add: decoder_stream_def body_to_io_stream_def sample_deps_def)
  have st: "snd ?r = Returned"
    using sample_memchr2_ok items
    by (simp add: handle_success_def task_simps sample_max live_def writer_new_def push_def)
  show ?thesis
    using handle_success_wire [OF sample_memchr2_ok sample_json_total _ surjective_pairing items, of ?s Responses 60
        "[Fire 60, Ready 70, Fire 130, Ready 131]"] st
    by (auto simp: writer_new_def)
qed

lemma success_loop_readies:
  assumes "memchr2_ok D"
  shows "live s \<Longrightarrow> on_clock D iv (map Ready ts) \<Longrightarrow> length ts = length cs \<Longrightarrow>
    \<exists>s'. success_loop D kind iv t (map Inr cs @ rest) s (map Ready ts @ es) =
           success_loop D kind iv (tracker_bytes t (concat cs)) rest s' es \<and>
         live s' \<and> sent (writer s') = sent (writer s) @ cs"
proof (induction cs arbitrary: t s ts)
  case Nil
  then show ?case by auto
next
  case (Cons c cs)
  then obtain n ns where ts: "ts = n # ns" "length ns = length cs" by (cases ts) auto
  let ?s = "(push [c] s)\<lparr>heartbeat := Some (n + iv)\<rparr>"
  from Cons.IH [of ?s ns "tracker_bytes t c"] Cons.prems ts obtain s' where
    "success_loop D kind iv (tracker_bytes t c) (map Inr cs @ rest) ?s (map Ready ns @ es) =
       success_loop D kind iv (tracker_bytes (tracker_bytes t c) (concat cs)) rest s' es"
    "live s'" "sent (writer s') = sent (writer s) @ c # cs" by auto
  with ts Cons.prems assms show ?case by (intro exI [of _ s']) (simp add: task_simps)
qed

text \<open>C23: in the middle of a stream, an expiry of the timer after the chunks \<open>cs\<close> sends exactly one
  heartbeat when the bytes so far end with an empty line (the start of the stream counts) and
  nothing when they end inside an event; in both cases the next expiry is one interval later.\<close>

theorem stream_heartbeat:
  assumes "memchr2_ok D" "room (writer s) = None" "length ts = length cs"
    and "\<forall>n \<in> set (ts @ [now]). n + interval \<le> instant_max D"
    and "decoder_stream D ce body = map Inr cs @ rest"
  shows "\<exists>s'. handle_success D kind interval (Some ce) body s (map Ready ts @ [Fire now]) = (s', Pending) \<and>
    sent (writer s') = sent (writer s) @ cs @
      (if ends_with ([LF, LF] @ normalise False (concat cs)) [LF, LF] then [HEARTBEAT] else []) \<and>
    heartbeat s' = Some (now + interval)"
proof -
  have clk: "on_clock D interval (map Ready ts)" "now + interval \<le> instant_max D" and l: "live s"
    using assms(2,4) by (simp_all add: on_clock_def list_all_iff live_def)
  obtain s' where s': "success_loop D kind interval tracker_new (map Inr cs @ rest) s (map Ready ts @ [Fire now]) =
      success_loop D kind interval (tracker_bytes tracker_new (concat cs)) rest s' [Fire now]"
    "live s'" "sent (writer s') = sent (writer s) @ cs"
    using success_loop_readies [OF assms(1) l clk(1) assms(3)] by blast
  with clk(2) assms(5) show ?thesis
    unfolding at_boundary_normalise [symmetric] by (simp add: handle_success_def task_simps)
qed

theorem stream_heartbeat_witness:
  "\<exists>s'. handle_success sample_deps GeminiStream 60 (Some Identity) [Inr (''data: x'' @ [CR, LF, CR])]
       \<lparr>writer = writer_new None, heartbeat = Some 60\<rparr> [Ready 5, Fire 65] = (s', Pending) \<and>
     sent (writer s') = [''data: x'' @ [CR, LF, CR], HEARTBEAT]"
proof -
  have items: "decoder_stream sample_deps Identity [Inr (''data: x'' @ [CR, LF, CR])] =
      map Inr [''data: x'' @ [CR, LF, CR]] @ []"
    by (simp add: decoder_stream_def body_to_io_stream_def sample_deps_def)
  have "\<forall>n \<in> set ([5] @ [65]). n + 60 \<le> instant_max sample_deps" by (simp add: sample_max)
  from stream_heartbeat [OF sample_memchr2_ok _ _ this items,
      of "\<lparr>writer = writer_new None, heartbeat = Some 60\<rparr>" GeminiStream]
  show ?thesis by (auto simp: writer_new_def ends_with_def)
qed

text \<open>A decoder that is given no bytes delivers none: it fails, or it ends.\<close>

definition empty_decodes :: "deps \<Rightarrow> bool" where
  "empty_decodes D \<longleftrightarrow> (\<forall>c. delivered (decoder_reader D c (slice_reader [])) = [])"

lemma error_body_eq:
  "error_body D ce raw =
     (case ce of
        None \<Rightarrow> raw
      | Some c \<Rightarrow> (case decode_bytes D c raw 1048576 of Inr b \<Rightarrow> b | Inl e \<Rightarrow> raw))"
  by (auto simp: error_body_def MAX_ERROR_BODY_def decode_bytes_def split: option.split coding.split)

lemma error_body_empty:
  assumes "empty_decodes D"
  shows "error_body D ce [] = []"
proof -
  have "out = []" if "decode_bytes D c [] 1048576 = Inr out" for c out
  proof -
    have "(1048576 :: usize) \<noteq> - 1" by simp
    with that assms show ?thesis
      by (cases "c = Identity")
        (auto simp: decode_bytes_reader decode_async_simp empty_decodes_def split: option.splits,
         simp add: decode_bytes_def)
  qed
  then show ?thesis by (auto simp: error_body_eq split: option.split sum.split)
qed

text \<open>C27: what a client that stays is sent for an error response, when \<open>handle_error\<close> has returned:
  heartbeats while the body was collected, then one error event with the upstream's status, built
  from the text of the body: the bytes when they arrived whole within 1 MiB and carry no coding or
  an unknown one; their decoding when it succeeds within 1 MiB, and the undecoded bytes when it does
  not; and nothing when the body is larger than that or could not be collected.\<close>

theorem handle_error_reports:
  assumes "json_total D" "limited_ok D" "empty_decodes D" "room (writer s) = None"
    and "handle_error D kind interval st ce body s es = (s', Returned)"
  shows "\<exists>k ev txt. sent (writer s') = sent (writer s) @ replicate k HEARTBEAT @ [ev] \<and>
    build D kind (Some st) (Some txt) None = Ret ev \<and>
    (\<forall>e. limited_collect D 1048576 body = Inl e \<longrightarrow> txt = []) \<and>
    (\<forall>cs. body = map Inr cs \<longrightarrow>
       txt = (if 1048576 < length (concat cs) then []
              else case ce of
                None \<Rightarrow> concat cs
              | Some c \<Rightarrow> (case decode_bytes D c (concat cs) 1048576 of Inr b \<Rightarrow> b | Inl e \<Rightarrow> concat cs)))"
proof -
  let ?collected = "case limited_collect D MAX_ERROR_BODY body of Inr c \<Rightarrow> c | Inl e \<Rightarrow> []"
  let ?txt = "error_body D ce ?collected"
  have l: "live s" using assms(4) by (simp add: live_def)
  obtain s1 w rest where w: "wait_loop D interval s es = (s1, w, rest)" by (cases "wait_loop D interval s es")
  obtain ev where ev: "build D kind (Some st) (Some ?txt) None = Ret ev"
    "\<And>s. report_error D kind st ce body s = (write_ignored ev s, Returned)"
    using report_error_writes [OF assms(1)] by metis
  from w wait_loop_room [OF l, of D interval es] wait_loop_beats [OF l, of D interval es] obtain k where
    s1: "live s1" "sent (writer s1) = sent (writer s) @ replicate k HEARTBEAT" by auto
  have "w = Completed"
    using assms(5) w wait_loop_stopped [OF l, of D interval es s1 Returned rest]
    by (cases w) (auto simp: handle_error_def collect_loop_def)
  with w ev(2) s1 assms(5) have "sent (writer s') = sent (writer s) @ replicate k HEARTBEAT @ [ev]"
    by (auto simp: handle_error_def collect_loop_def task_simps push_def)
  moreover have m: "MAX_ERROR_BODY = (1048576 :: usize)" by (simp add: MAX_ERROR_BODY_def)
  moreover have "?txt = []" if "limited_collect D 1048576 body = Inl e" for e
    using that m error_body_empty [OF assms(3)] by simp
  moreover have "?collected = (if 1048576 < length (concat cs) then [] else concat cs)" if "body = map Inr cs" for cs
    using assms(2) that unfolding limited_ok_def m by simp
  ultimately show ?thesis
    using ev(1) error_body_empty [OF assms(3), of ce]
    by (intro exI [of _ k] exI [of _ ev] exI [of _ ?txt]) (simp add: error_body_eq)
qed

theorem handle_error_reports_witness:
  "\<exists>ev. sent (writer (fst (handle_error sample_deps GeminiStream 60 500 (Some Gzip) [Inr ''n'', Inr ''o'']
       \<lparr>writer = writer_new None, heartbeat = Some 60\<rparr> [Ready 5]))) = [ev] \<and>
     build sample_deps GeminiStream (Some 500) (Some ''nnoo'') None = Ret ev"
proof -
  let ?s = "\<lparr>writer = writer_new None, heartbeat = Some 60\<rparr>"
  let ?r = "handle_error sample_deps GeminiStream 60 500 (Some Gzip) (map Inr [''n'', ''o'']) ?s [Ready 5]"
  have room: "room (writer ?s) = None" by (simp add: writer_new_def)
  have e: "empty_decodes sample_deps"
    by (simp add: empty_decodes_def decoder_reader_def sample_deps_def slice_reader_def split: coding.split)
  obtain ev where ev: "\<And>s. report_error sample_deps GeminiStream 500 (Some Gzip) (map Inr [''n'', ''o'']) s = (write_ignored ev s, Returned)"
    using report_error_writes [OF sample_json_total] by metis
  then have r: "?r = (push [ev] ?s, Returned)"
    by (simp add: handle_error_def collect_loop_def task_simps live_def writer_new_def)
  have "decode_bytes sample_deps Gzip ''no'' 1048576 = Inr ''nnoo''"
    using decode_async_simp [of 1048576 "gzip_decoder sample_deps (slice_reader ''no'')"]
    by (simp add: decode_bytes_def sample_deps_def slice_reader_def)
  moreover obtain k ev' b0 where k: "sent (writer (push [ev] ?s)) = sent (writer ?s) @ replicate k HEARTBEAT @ [ev']"
    "build sample_deps GeminiStream (Some 500) (Some b0) None = Ret ev'"
    and b0: "\<forall>cs. (map Inr [''n'', ''o''] :: incoming) = map Inr cs \<longrightarrow>
       b0 = (if 1048576 < length (concat cs) then []
              else case Some Gzip of
                None \<Rightarrow> concat cs
              | Some c \<Rightarrow> (case decode_bytes sample_deps c (concat cs) 1048576 of Inr b \<Rightarrow> b | Inl e \<Rightarrow> concat cs))"
    using handle_error_reports [OF sample_json_total sample_limited_ok e room r] by blast
  ultimately have "b0 = ''nnoo''" using spec [OF b0, of "[''n'', ''o'']"] by simp
  with k r show ?thesis by (cases k) (auto simp: push_def writer_new_def)
qed

section \<open>Timing\<close>

text \<open>The timer fires on time: never before the deadline the task has set, and at most \<open>slack\<close> after
  it (the delay of the scheduler and of the write together).\<close>

fun on_time :: "deps \<Rightarrow> nat \<Rightarrow> nat \<Rightarrow> task \<Rightarrow> nat list \<Rightarrow> bool" where
  "on_time D iv slack s [] = True"
| "on_time D iv slack s (n # ns) =
     (case heartbeat s of
        None \<Rightarrow> False
      | Some d \<Rightarrow> d \<le> n \<and> n \<le> d + slack \<and> on_time D iv slack (fst (heartbeat_arm D iv True n s)) ns)"

lemma on_time_bounds:
  assumes "live s" "heartbeat s = Some (t0 + iv)" "\<forall>n \<in> set ns. n + iv \<le> instant_max D" "on_time D iv slack s ns"
    and "k < length ns"
  shows "t0 + Suc k * iv \<le> ns ! k \<and> ns ! k \<le> t0 + Suc k * (iv + slack)"
  using assms
proof (induction ns arbitrary: s t0 k)
  case Nil
  then show ?case by simp
next
  case (Cons n ns)
  let ?s = "(push [HEARTBEAT] s)\<lparr>heartbeat := Some (n + iv)\<rparr>"
  from Cons.prems have n: "t0 + iv \<le> n" "n \<le> t0 + iv + slack" and ns: "on_time D iv slack ?s ns"
    by (simp_all add: task_simps)
  show ?case
  proof (cases k)
    case 0
    with n show ?thesis by simp
  next
    case (Suc j)
    with Cons.IH [of ?s n j] Cons.prems ns have "n + Suc j * iv \<le> ns ! j \<and> ns ! j \<le> n + Suc j * (iv + slack)"
      by simp
    with n Suc show ?thesis by (simp add: algebra_simps)
  qed
qed

text \<open>C24: when the timer fires on time, the heartbeats keep the connection busy at the configured rate:
  the k-th one is sent no earlier than k intervals after the start and no later than k intervals
  and k delays after it.\<close>

theorem bridge_heartbeat_rate:
  assumes "\<forall>n \<in> set ns. n + interval \<le> instant_max D" "now0 + interval \<le> instant_max D"
    and "on_time D interval slack \<lparr>writer = writer_new None, heartbeat = sleep_deadline D now0 interval\<rparr> ns"
  shows "sent (writer (fst (bridge D kind interval (writer_new None) now0 upstream (map Fire ns)))) =
      replicate (length ns) HEARTBEAT \<and>
    (\<forall>k < length ns. now0 + Suc k * interval \<le> ns ! k \<and> ns ! k \<le> now0 + Suc k * (interval + slack))"
proof (intro conjI allI impI)
  let ?s = "\<lparr>writer = writer_new None, heartbeat = sleep_deadline D now0 interval\<rparr>"
  have l: "live ?s" by (simp add: live_def writer_new_def)
  have "on_clock D interval (map Fire ns)" using assms(1) by (simp add: on_clock_def list_all_iff)
  from wait_loop_fires [OF l this, of "[]"]
  show "sent (writer (fst (bridge D kind interval (writer_new None) now0 upstream (map Fire ns)))) =
      replicate (length ns) HEARTBEAT"
    by (auto simp: bridge_def wait_upstream_def writer_new_def)
  have h: "heartbeat ?s = Some (now0 + interval)" using assms(2) by (simp add: sleep_deadline_def)
  fix k
  assume "k < length ns"
  from on_time_bounds [OF l h assms(1,3) this]
  show "now0 + Suc k * interval \<le> ns ! k" "ns ! k \<le> now0 + Suc k * (interval + slack)" by auto
qed

theorem bridge_heartbeat_rate_witness:
  "sent (writer (fst (bridge sample_deps Responses 60 (writer_new None) 0 (Inl ''x'') (map Fire [61, 121])))) =
     [HEARTBEAT, HEARTBEAT]"
proof -
  have "on_time sample_deps 60 1 \<lparr>writer = writer_new None, heartbeat = sleep_deadline sample_deps 0 60\<rparr> [61, 121]"
    by (simp add: sleep_deadline_def sample_max task_simps live_def writer_new_def)
  from bridge_heartbeat_rate [OF _ _ this, of Responses "Inl ''x''"] show ?thesis
    by (simp add: sample_max)
qed

end
