(* ===== verification/Lifetime.thy ===== *)
theory Lifetime
  imports Delivery
begin

text \<open>
  The end of the bridging tasks: a task returns once the upstream has been ready often enough,
  whatever the timer and the client do, and a client that disconnects after some frames has
  received exactly those frames of the run it would otherwise have seen, while the task returns
  at the next write. The exception, an interval beyond the range of the clock, is a panic.
\<close>

section \<open>Every task returns\<close>

fun readies :: "sel list \<Rightarrow> nat" where
  "readies [] = 0"
| "readies (Fire now # es) = readies es"
| "readies (Ready now # es) = Suc (readies es)"

text \<open>A write ends the task or lets it go on; so does a heartbeat, once the clock has room.\<close>

lemma write_or_return_cases:
  obtains s' where "write_or_return b s = (s', Pending)" | s' where "write_or_return b s = (s', Returned)"
  using ws.write_cases [of b "writer s"] by (fastforce simp: write_or_return_def)

lemma heartbeat_arm_cases:
  assumes "now + iv \<le> instant_max D"
  obtains s' where "heartbeat_arm D iv c now s = (s', Pending)" | s' where "heartbeat_arm D iv c now s = (s', Returned)"
proof (cases c)
  case True
  with that assms show ?thesis
    by (cases rule: write_or_return_cases [of HEARTBEAT s]) (auto simp: heartbeat_arm_def reset_heartbeat_eq)
next
  case False
  with that assms show ?thesis by (auto simp: heartbeat_arm_def reset_heartbeat_eq)
qed

lemma error_tail_returns: "json_total D \<Longrightarrow> snd (error_tail D kind t r s) = Returned"
  using build_total [of D kind None None "Some r"] by (auto simp: error_tail_def Let_def)

lemma success_loop_returns:
  assumes "memchr2_ok D" "json_total D"
  shows "on_clock D iv es \<Longrightarrow> length chunks < readies es \<Longrightarrow>
    snd (success_loop D kind iv t chunks s es) = Returned"
proof (induction es arbitrary: t chunks s)
  case Nil
  then show ?case by simp
next
  case (Cons e es)
  show ?case
  proof (cases e)
    case (Fire now)
    with Cons.prems have n: "now + iv \<le> instant_max D" by simp
    show ?thesis
      by (rule heartbeat_arm_cases [OF n, of "at_boundary t" s]) (use Cons Fire in auto)
  next
    case (Ready now)
    show ?thesis
    proof (cases chunks rule: items_cases)
      case (data b rest)
      from Cons.prems Ready have n: "now + iv \<le> instant_max D" by simp
      show ?thesis
      proof (rule write_or_return_cases [of b s])
        fix s'
        assume "write_or_return b s = (s', Pending)"
        with data Ready n assms(1) Cons show ?thesis
          by (simp add: chunk_arm_def feed_Ret reset_heartbeat_eq)
      next
        fix s'
        assume "write_or_return b s = (s', Returned)"
        with data Ready assms(1) show ?thesis by (simp add: chunk_arm_def feed_Ret)
      qed
    qed (use Ready assms(2) in \<open>simp_all add: error_tail_returns\<close>)
  qed
qed

lemma wait_loop_returns:
  "on_clock D iv es \<Longrightarrow> 0 < readies es \<Longrightarrow>
     (\<exists>s' rest. wait_loop D iv s es = (s', Completed, rest) \<and> on_clock D iv rest \<and> Suc (readies rest) = readies es) \<or>
     (\<exists>s' rest. wait_loop D iv s es = (s', Stopped Returned, rest))"
proof (induction es arbitrary: s)
  case Nil
  then show ?case by simp
next
  case (Cons e es)
  show ?case
  proof (cases e)
    case (Fire now)
    with Cons.prems have n: "now + iv \<le> instant_max D" by simp
    show ?thesis by (rule heartbeat_arm_cases [OF n, of True s]) (use Cons Fire in auto)
  next
    case (Ready now)
    with Cons show ?thesis by simp
  qed
qed

text \<open>How many times the other future of the \<open>select!\<close> must be ready.\<close>

definition steps_needed :: "deps \<Rightarrow> upstream_result \<Rightarrow> nat" where
  "steps_needed D upstream =
     (case upstream of
        Inl e \<Rightarrow> 1
      | Inr resp \<Rightarrow>
          (if is_success (up_status resp)
           then (case parse_content_encoding D (up_headers resp) of
                   None \<Rightarrow> 1 | Some ce \<Rightarrow> 2 + length (decoder_stream D ce (up_body resp)))
           else 2))"

lemma handle_success_returns:
  assumes "memchr2_ok D" "json_total D" "on_clock D iv es"
    and "case ce of None \<Rightarrow> True | Some c \<Rightarrow> length (decoder_stream D c body) < readies es"
  shows "snd (handle_success D kind iv ce body s es) = Returned"
  using assms by (cases ce) (simp_all add: handle_success_def error_tail_returns success_loop_returns)

lemma handle_error_returns:
  assumes "json_total D" "on_clock D iv es" "0 < readies es"
  shows "snd (handle_error D kind iv st ce body s es) = Returned"
proof -
  obtain ev where "\<And>s. report_error D kind st ce body s = (write_ignored ev s, Returned)"
    using report_error_writes [OF assms(1)] by metis
  with wait_loop_returns [OF assms(2,3), of s] show ?thesis
    by (auto simp: handle_error_def collect_loop_def)
qed

lemma upstream_done_returns:
  assumes "memchr2_ok D" "json_total D" "on_clock D iv es" "steps_needed D upstream \<le> Suc (readies es)"
  shows "snd (upstream_done D kind iv upstream s es) = Returned"
proof (cases upstream)
  case (Inl e)
  with build_total [OF assms(2), of kind None None "Some e"] show ?thesis
    by (auto simp: upstream_done_def)
next
  case (Inr resp)
  with assms(3,4) show ?thesis
    by (auto simp: upstream_done_def Let_def steps_needed_def split: option.splits if_splits
        intro!: handle_success_returns [OF assms(1,2)] handle_error_returns [OF assms(2)])
qed

lemma bridge_returns_aux:
  assumes "memchr2_ok D" "json_total D" "on_clock D iv es" "steps_needed D upstream \<le> readies es"
  shows "snd (bridge D kind iv w now0 upstream es) = Returned"
proof -
  have "0 < readies es"
    using assms(4) by (auto simp: steps_needed_def split: sum.splits option.splits if_splits)
  from wait_loop_returns [OF assms(3) this, of "\<lparr>writer = w, heartbeat = sleep_deadline D now0 iv\<rparr>"]
  show ?thesis
    using assms(4) by (auto simp: bridge_def wait_upstream_def upstream_done_returns [OF assms(1,2)])
qed

section \<open>A client that disconnects\<close>

text \<open>The task as it is when the client takes only the first \<open>n\<close> frames, for a task \<open>s\<close> whose
  client takes them all; and the run of such a task against the run of \<open>s\<close>: the same frames up
  to the limit, and a return as soon as one more is sent.\<close>

definition limited_to :: "nat \<Rightarrow> task \<Rightarrow> task" where
  "limited_to n s = s\<lparr>writer := \<lparr>sent = take n (sent (writer s)), room = Some (n - length (sent (writer s)))\<rparr>\<rparr>"

definition is_cut :: "nat \<Rightarrow> task \<times> status \<Rightarrow> task \<times> status \<Rightarrow> bool" where
  "is_cut n r r' \<longleftrightarrow>
     sent (writer (fst r')) = take n (sent (writer (fst r))) \<and>
     snd r' = (if length (sent (writer (fst r))) \<le> n then snd r else Returned)"

lemma limited_to_simps [simp]:
  "limited_to n (s\<lparr>heartbeat := h\<rparr>) = (limited_to n s)\<lparr>heartbeat := h\<rparr>"
  "sent (writer (limited_to n s)) = take n (sent (writer s))"
  by (simp_all add: limited_to_def)

lemma is_cut_same: "length (sent (writer s)) \<le> n \<Longrightarrow> is_cut n (s, st) (limited_to n s, st)"
  by (simp add: is_cut_def)

lemma is_cut_full:
  "length (sent (writer s)) = n \<Longrightarrow> prefix (sent (writer s) @ [b]) (sent (writer (fst r))) \<Longrightarrow>
     is_cut n r (limited_to n s, Returned)"
  by (auto simp: is_cut_def prefix_def)

lemma write_cut:
  assumes "live s"
  shows "write_or_return b (limited_to n s) =
      (if length (sent (writer s)) < n then (limited_to n (push [b] s), Pending) else (limited_to n s, Returned))"
    and "write_ignored b (limited_to n s) = limited_to n (push [b] s)"
proof -
  have p: "limited_to n (push [b] s) = s\<lparr>writer := \<lparr>sent = take n (sent (writer s) @ [b]),
      room = Some (n - Suc (length (sent (writer s))))\<rparr>\<rparr>"
    by (simp add: limited_to_def push_def)
  show "write_or_return b (limited_to n s) =
      (if length (sent (writer s)) < n then (limited_to n (push [b] s), Pending) else (limited_to n s, Returned))"
    "write_ignored b (limited_to n s) = limited_to n (push [b] s)"
    by (auto simp: p write_or_return_def write_ignored_def write_event_def limited_to_def split: nat.splits)
qed

lemma heartbeat_arm_cut:
  assumes "live s"
  shows "heartbeat_arm D iv c now (limited_to n s) =
    (if c \<and> n \<le> length (sent (writer s)) then (limited_to n s, Returned)
     else reset_heartbeat D iv now (limited_to n (push (if c then [HEARTBEAT] else []) s)))"
  using assms by (auto simp: heartbeat_arm_def write_cut)

lemma chunk_arm_cut:
  assumes "live s" "memchr2_ok D"
  shows "chunk_arm D iv b now t (limited_to n s) =
    (tracker_bytes t b,
     if length (sent (writer s)) < n then reset_heartbeat D iv now (limited_to n (push [b] s))
     else (limited_to n s, Returned))"
  using assms by (simp add: chunk_arm_def feed_Ret write_cut)

lemma error_tail_cut:
  assumes "live s" "json_total D"
  shows "is_cut n (error_tail D kind t r s) (error_tail D kind t r (limited_to n s))"
proof -
  obtain ev where ev: "build D kind None None (Some r) = Ret ev" using build_total [OF assms(2)] by blast
  have "error_tail D kind t r (limited_to n s) =
      (limited_to n (push [ev] (if at_boundary t then s else push [[LF, LF]] s)), Returned)"
    using assms(1) ev by (simp add: error_tail_def Let_def write_cut)
  moreover have "error_tail D kind t r s =
      (push [ev] (if at_boundary t then s else push [[LF, LF]] s), Returned)"
    using assms(1) ev by (simp add: error_tail_def Let_def write_live)
  ultimately show ?thesis by (simp add: is_cut_def)
qed

lemma success_loop_extends:
  assumes "memchr2_ok D" "json_total D" "live s"
  shows "prefix (sent (writer s)) (sent (writer (fst (success_loop D kind iv t chunks s es))))"
  using success_loop_emits [OF assms, of kind t chunks iv es] by (auto simp: loop_emits_def)

lemma success_loop_cut_fire:
  assumes "memchr2_ok D" "json_total D" "live s" "length (sent (writer s)) \<le> n"
    and IH: "\<And>t chunks s. live s \<Longrightarrow> length (sent (writer s)) \<le> n \<Longrightarrow>
      is_cut n (success_loop D kind iv t chunks s es) (success_loop D kind iv t chunks (limited_to n s) es)"
  shows "is_cut n (success_loop D kind iv t chunks s (Fire now # es))
    (success_loop D kind iv t chunks (limited_to n s) (Fire now # es))"
proof -
  let ?s = "push (if at_boundary t then [HEARTBEAT] else []) s"
  show ?thesis
  proof (cases "at_boundary t \<and> length (sent (writer s)) = n")
    case True
    then show ?thesis
      using assms(3,4) success_loop_extends [OF assms(1,2), of "?s\<lparr>heartbeat := Some (now + iv)\<rparr>" kind iv t chunks es]
      by (auto simp: heartbeat_arm_cut task_simps intro!: is_cut_full)
  next
    case False
    with assms(3,4) IH [of "?s\<lparr>heartbeat := Some (now + iv)\<rparr>" t chunks] show ?thesis
      by (auto simp: heartbeat_arm_cut task_simps intro: is_cut_same)
  qed
qed

lemma success_loop_cut:
  assumes "memchr2_ok D" "json_total D"
  shows "live s \<Longrightarrow> length (sent (writer s)) \<le> n \<Longrightarrow>
    is_cut n (success_loop D kind iv t chunks s es) (success_loop D kind iv t chunks (limited_to n s) es)"
proof (induction es arbitrary: t chunks s)
  case Nil
  then show ?case by (simp add: is_cut_same)
next
  case (Cons e es)
  note ext = success_loop_extends [OF assms]
  show ?case
  proof (cases e)
    case (Fire now)
    with success_loop_cut_fire [OF assms Cons.prems Cons.IH] show ?thesis by simp
  next
    case (Ready now)
    show ?thesis
    proof (cases chunks rule: items_cases)
      case eof
      with Ready Cons.prems show ?thesis by (simp add: is_cut_same)
    next
      case (err x rest)
      with Ready Cons.prems assms(2) show ?thesis by (simp add: error_tail_cut)
    next
      case (data b rest)
      let ?s = "push [b] s" and ?t = "tracker_bytes t b"
      show ?thesis
      proof (cases "length (sent (writer s)) = n")
        case True
        then show ?thesis
          using data Ready Cons.prems assms(1) ext [of "?s\<lparr>heartbeat := Some (now + iv)\<rparr>" kind iv ?t rest es]
          by (auto simp: chunk_arm_cut task_simps intro!: is_cut_full)
      next
        case False
        with data Ready Cons.prems assms(1) Cons.IH [of "?s\<lparr>heartbeat := Some (now + iv)\<rparr>" ?t rest]
        show ?thesis by (auto simp: chunk_arm_cut task_simps intro: is_cut_same)
      qed
    qed
  qed
qed

lemma wait_loop_cut:
  assumes "live s" "length (sent (writer s)) \<le> n" "wait_loop D iv s es = (s', w, rest)"
  shows "if length (sent (writer s')) \<le> n then wait_loop D iv (limited_to n s) es = (limited_to n s', w, rest)
    else \<exists>s'' rest'. wait_loop D iv (limited_to n s) es = (s'', Stopped Returned, rest') \<and>
           sent (writer s'') = take n (sent (writer s'))"
  using assms
proof (induction es arbitrary: s)
  case Nil
  then show ?case by simp
next
  case (Cons e es)
  show ?case
  proof (cases e)
    case (Fire now)
    let ?s = "push [HEARTBEAT] s" and ?s' = "(push [HEARTBEAT] s)\<lparr>heartbeat := Some (now + iv)\<rparr>"
    show ?thesis
    proof (cases "length (sent (writer s)) = n")
      case True
      have "\<exists>k. sent (writer s') = sent (writer s) @ HEARTBEAT # replicate k HEARTBEAT"
        using Fire Cons.prems wait_loop_beats [of ?s' D iv es]
        by (auto simp: task_simps intro!: exI [of _ 0] split: if_splits)
      with True Fire Cons.prems show ?thesis by (auto simp: heartbeat_arm_cut)
    next
      case False
      with Fire Cons.prems Cons.IH [of ?s'] show ?thesis
        by (auto simp: heartbeat_arm_cut task_simps split: if_splits)
    qed
  next
    case (Ready now)
    with Cons.prems show ?thesis by simp
  qed
qed

text \<open>Frames are only ever appended.\<close>

lemma handle_success_extends:
  assumes "memchr2_ok D" "json_total D" "live s"
  shows "prefix (sent (writer s)) (sent (writer (fst (handle_success D kind iv ce body s es))))"
proof (cases ce)
  case None
  obtain ev where "build D kind None None (Some ''unsupported upstream content-encoding'') = Ret ev"
    using build_total [OF assms(2)] by blast
  with None assms(3) show ?thesis by (simp add: handle_success_def error_tail_live)
qed (simp add: handle_success_def success_loop_extends [OF assms])

lemma wait_loop_extends:
  "live s \<Longrightarrow> wait_loop D iv s es = (s', w, rest) \<Longrightarrow> prefix (sent (writer s)) (sent (writer s'))"
  using wait_loop_beats [of s D iv es] by (auto simp: prefix_def)

lemma report_error_extends:
  "json_total D \<Longrightarrow> live s \<Longrightarrow>
     prefix (sent (writer s)) (sent (writer (fst (report_error D kind st ce body s))))"
  by (rule report_error_writes [of D kind st ce body]) (simp_all add: task_simps)

lemma handle_error_extends:
  assumes "json_total D" "live s"
  shows "prefix (sent (writer s)) (sent (writer (fst (handle_error D kind iv st ce body s es))))"
proof -
  obtain s' w rest where w: "wait_loop D iv s es = (s', w, rest)" by (cases "wait_loop D iv s es")
  have "live s'" using wait_loop_room [OF assms(2), of D iv es] w by simp
  with w wait_loop_extends [OF assms(2) w] report_error_extends [OF assms(1), of s' kind st ce body] show ?thesis
    by (auto simp: handle_error_def collect_loop_def split: waited.splits intro: prefix_order.trans)
qed

lemma handle_success_cut:
  assumes "memchr2_ok D" "json_total D" "live s" "length (sent (writer s)) \<le> n"
  shows "is_cut n (handle_success D kind iv ce body s es) (handle_success D kind iv ce body (limited_to n s) es)"
  using assms by (cases ce) (simp_all add: handle_success_def error_tail_cut success_loop_cut)

lemma report_error_cut:
  assumes "json_total D" "live s" "length (sent (writer s)) \<le> n"
  shows "is_cut n (report_error D kind st ce body s) (report_error D kind st ce body (limited_to n s))"
proof -
  obtain ev where "\<And>s. report_error D kind st ce body s = (write_ignored ev s, Returned)"
    using report_error_writes [OF assms(1)] by metis
  with assms(2) show ?thesis by (simp add: write_cut write_live is_cut_def)
qed

text \<open>A wait followed by what is done with the result.\<close>

definition and_then :: "(task \<Rightarrow> sel list \<Rightarrow> task \<times> status) \<Rightarrow> task \<times> waited \<times> sel list \<Rightarrow> task \<times> status" where
  "and_then f r =
     (case r of
        (s', Still_waiting, rest) \<Rightarrow> (s', Pending)
      | (s', Stopped st, rest) \<Rightarrow> (s', st)
      | (s', Completed, rest) \<Rightarrow> f s' rest)"

lemma and_then_cut:
  assumes "live s" "length (sent (writer s)) \<le> n"
    and f: "\<And>s rest. live s \<Longrightarrow> length (sent (writer s)) \<le> n \<Longrightarrow> is_cut n (f s rest) (f (limited_to n s) rest)"
    and ext: "\<And>s rest. live s \<Longrightarrow> prefix (sent (writer s)) (sent (writer (fst (f s rest))))"
  shows "is_cut n (and_then f (wait_loop D iv s es)) (and_then f (wait_loop D iv (limited_to n s) es))"
proof -
  obtain s' w rest where w: "wait_loop D iv s es = (s', w, rest)" by (cases "wait_loop D iv s es")
  have l: "live s'" using wait_loop_room [OF assms(1), of D iv es] w by simp
  show ?thesis
  proof (cases "length (sent (writer s')) \<le> n")
    case True
    with wait_loop_cut [OF assms(1,2) w] f [OF l True] w show ?thesis
      by (cases w) (auto simp: and_then_def is_cut_same)
  next
    case False
    with wait_loop_cut [OF assms(1,2) w] obtain s'' rest' where
      c: "wait_loop D iv (limited_to n s) es = (s'', Stopped Returned, rest')"
      "sent (writer s'') = take n (sent (writer s'))" by auto
    with w False ext [OF l, of rest] show ?thesis
      by (cases w) (auto simp: and_then_def is_cut_def prefix_def)
  qed
qed

lemma handle_error_cut:
  assumes "json_total D" "live s" "length (sent (writer s)) \<le> n"
  shows "is_cut n (handle_error D kind iv st ce body s es) (handle_error D kind iv st ce body (limited_to n s) es)"
  using and_then_cut [OF assms(2,3), of "\<lambda>s rest. report_error D kind st ce body s" D iv es]
    report_error_cut [OF assms(1)] report_error_extends [OF assms(1)]
  by (simp add: handle_error_def collect_loop_def and_then_def)

lemma upstream_done_cut:
  assumes "memchr2_ok D" "json_total D" "live s" "length (sent (writer s)) \<le> n"
  shows "is_cut n (upstream_done D kind iv upstream s es) (upstream_done D kind iv upstream (limited_to n s) es)"
proof (cases upstream)
  case (Inl e)
  obtain ev where "build D kind None None (Some e) = Ret ev" using build_total [OF assms(2)] by blast
  with Inl assms(3) show ?thesis by (simp add: upstream_done_def write_cut write_live is_cut_def)
qed (simp add: upstream_done_def Let_def handle_success_cut [OF assms] handle_error_cut [OF assms(2-4)])

lemma upstream_done_extends:
  assumes "memchr2_ok D" "json_total D" "live s"
  shows "prefix (sent (writer s)) (sent (writer (fst (upstream_done D kind iv upstream s es))))"
proof (cases upstream)
  case (Inl e)
  obtain ev where "build D kind None None (Some e) = Ret ev" using build_total [OF assms(2)] by blast
  with Inl assms(3) show ?thesis by (simp add: upstream_done_def write_live)
qed (simp add: upstream_done_def Let_def handle_success_extends [OF assms] handle_error_extends [OF assms(2-3)])

lemma bridge_cut:
  assumes "memchr2_ok D" "json_total D"
  shows "is_cut n (bridge D kind iv (writer_new None) now0 upstream es)
    (bridge D kind iv (writer_new (Some n)) now0 upstream es)"
proof -
  let ?s = "\<lparr>writer = writer_new None, heartbeat = sleep_deadline D now0 iv\<rparr>"
  have s: "live ?s" "length (sent (writer ?s)) \<le> n"
    "\<lparr>writer = writer_new (Some n), heartbeat = sleep_deadline D now0 iv\<rparr> = limited_to n ?s"
    by (simp_all add: live_def writer_new_def limited_to_def)
  have "is_cut n (and_then (upstream_done D kind iv upstream) (wait_loop D iv ?s es))
      (and_then (upstream_done D kind iv upstream) (wait_loop D iv (limited_to n ?s) es))"
    by (rule and_then_cut [OF s(1,2)]) (rule upstream_done_cut [OF assms] upstream_done_extends [OF assms]; assumption)+
  then show ?thesis by (simp add: bridge_def wait_upstream_def and_then_def s(3))
qed

section \<open>Properties\<close>

text \<open>C11: a bridging task returns, whatever the client does and however often the timer fires, once
  the upstream futures have been ready often enough: once for the answer, and once per chunk and
  once more for the end of a successful body, or once for the collection of an error body.\<close>

theorem bridge_returns:
  assumes "memchr2_ok D" "json_total D" "\<forall>e \<in> set es. sel_time e + interval \<le> instant_max D"
    and "steps_needed D upstream \<le> readies es"
  shows "snd (bridge D kind interval w now0 upstream es) = Returned"
  using bridge_returns_aux [OF assms(1,2) _ assms(4)] assms(3) by (simp add: on_clock_def list_all_iff)

theorem bridge_returns_witness:
  "snd (bridge sample_deps Responses 60 (writer_new (Some 1)) 0
     (Inr \<lparr>up_status = 200, up_headers = [], up_body = [Inr ''data: x'']\<rparr>)
     [Fire 60, Ready 70, Fire 120, Ready 130, Fire 140, Ready 150]) = Returned"
  by (rule bridge_returns [OF sample_memchr2_ok sample_json_total])
    (simp_all add: sample_max, simp add: steps_needed_def sample_deps_def is_success_def parse_content_encoding_def
      hm_get_all_def decoder_stream_def body_to_io_stream_def)

text \<open>C12: a client that disconnects after taking \<open>n\<close> frames has received exactly the first \<open>n\<close>
  frames of the run a staying client would see; if that run has more, the task has returned
  instead of going on (no panic, no further work), and otherwise it is in the same state.\<close>

theorem bridge_disconnect:
  assumes "memchr2_ok D" "json_total D"
  shows "let full = bridge D kind interval (writer_new None) now0 upstream es;
             part = bridge D kind interval (writer_new (Some n)) now0 upstream es
         in sent (writer (fst part)) = take n (sent (writer (fst full))) \<and>
            snd part = (if length (sent (writer (fst full))) \<le> n then snd full else Returned)"
  using bridge_cut [OF assms] by (simp add: is_cut_def Let_def)

theorem bridge_disconnect_witness:
  "snd (bridge sample_deps Responses 60 (writer_new (Some 1)) 0 (Inl ''x'') (map Fire [60, 120])) = Returned"
proof -
  have "sent (writer (fst (bridge sample_deps Responses 60 (writer_new None) 0 (Inl ''x'') (map Fire [60, 120])))) =
      [HEARTBEAT, HEARTBEAT]"
    by (simp add: bridge_def wait_upstream_def task_simps live_def writer_new_def push_def sample_max)
  with bridge_disconnect [OF sample_memchr2_ok sample_json_total, of Responses 60 0 "Inl ''x''" "map Fire [60, 120]" 1]
  show ?thesis by (simp add: Let_def)
qed

text \<open>With an interval that the clock cannot add to the present, the timer of a streaming task
  is set far into the future, but the reset after the first chunk panics: the client gets that
  chunk and then the end of the body, without the rest of the stream and without an error event.\<close>

lemma handle_success_interval_overflow:
  assumes "memchr2_ok D" "room (writer s) = None" "instant_max D < now + interval"
    and "decoder_stream D ce body = Inr b # rest"
  shows "\<exists>s'. handle_success D kind interval (Some ce) body s (Ready now # es) =
      (s', Panicked ''overflow when adding duration to instant'') \<and>
    sent (writer s') = sent (writer s) @ [b]"
  using assms by (simp add: handle_success_def task_simps live_def)

end
