(* ===== verification/Sse.thy ===== *)
theory Sse
  imports Proxy Lifetime
begin

text \<open>
  The entry of the SSE path in \<open>src/sse.rs\<close>: \<open>handle_stream\<close> sends the rewritten request and races
  the upstream against one heartbeat interval; \<open>race\<close> says which of the two came first. The
  response either passes the upstream's on, or has a body fed by a spawned task: \<open>bridge\<close> after
  the timer, \<open>handle_success\<close> for an event stream that arrives within the window. The lemmas give
  the decision table of the design document, the headers of each response, and what the client of
  a passed-on event stream receives.
\<close>

section \<open>The entry\<close>

text \<open>The task that feeds a response body, with its captured values.\<close>

datatype spawned =
  Spawn_Bridge endpoint_kind nat upstream_result
| Spawn_Success endpoint_kind nat coding incoming

type_synonym sse_response = "spawned response"
type_synonym sse_exchange = "spawned exchange"

datatype race = Upstream_first | Timer_first

definition is_event_stream :: "deps \<Rightarrow> header_map \<Rightarrow> bool" where
  "is_event_stream D headers =
     (case Option.bind (hm_get headers ''content-type'') (header_to_str D) of
        Some v \<Rightarrow>
          eq_ignore_ascii_case
            (str_trim (case split_on (CHR '';'') v of s # _ \<Rightarrow> s | [] \<Rightarrow> '''')) ''text/event-stream''
      | None \<Rightarrow> False)"

definition build_upstream_request :: "deps \<Rightarrow> resolved_config \<Rightarrow> parts \<Rightarrow> bytes \<Rightarrow> request rs" where
  "build_upstream_request D cfg p body =
     rs_bind (upstream_uri D cfg (p_uri p)) (\<lambda>uri.
     rs_bind (expect ''authority valid'' (header_value_from_str D (rc_upstream_authority cfg))) (\<lambda>host_val.
     (let h1 = hm_remove ''host'' (p_headers p);
          h2 = hm_insert ''host'' host_val h1;
          h3 = strip_hop_by_hop D h2
      in Ret (request_from_parts (p\<lparr>p_headers := h3, p_uri := uri\<rparr>) (Req_Full body)))))"

definition passthrough_sse_response ::
    "deps \<Rightarrow> upstream_response \<Rightarrow> endpoint_kind \<Rightarrow> coding \<Rightarrow> nat \<Rightarrow> sse_response" where
  "passthrough_sse_response D resp kind upstream_ce interval =
     (let h1 = strip_hop_by_hop D (up_headers resp);
          h2 = hm_remove ''content-length'' h1;
          h3 = hm_remove ''content-encoding'' h2;
          h4 = hm_insert ''x-accel-buffering'' ''no'' h3
      in \<lparr>rs_status = up_status resp, rs_headers = h4,
          rs_body = Resp_Task (Spawn_Success kind interval upstream_ce (up_body resp))\<rparr>)"

text \<open>The response when the window is over.\<close>

definition keepalive_response :: "endpoint_kind \<Rightarrow> nat \<Rightarrow> upstream_result \<Rightarrow> sse_response" where
  "keepalive_response kind interval upstream =
     \<lparr>rs_status = 200,
      rs_headers =
        hm_insert ''x-accel-buffering'' ''no''
          (hm_insert ''cache-control'' ''no-cache''
             (hm_insert ''content-type'' ''text/event-stream; charset=utf-8'' [])),
      rs_body = Resp_Task (Spawn_Bridge kind interval upstream)\<rparr>"

definition handle_stream ::
    "deps \<Rightarrow> resolved_config \<Rightarrow> (request \<Rightarrow> upstream_result) \<Rightarrow> race \<Rightarrow> parts \<Rightarrow> bytes \<Rightarrow> endpoint_kind
       \<Rightarrow> sse_exchange rs" where
  "handle_stream D cfg client race p body kind =
     (let interval = rc_heartbeat_interval cfg in
      rs_bind (build_upstream_request D cfg p body) (\<lambda>req.
      rs_bind
        (case race of
           Upstream_first \<Rightarrow>
             (case client req of
                Inr resp \<Rightarrow>
                  (let upstream_ce = parse_content_encoding D (up_headers resp);
                       is_sse = is_event_stream D (up_headers resp)
                   in if is_success (up_status resp) \<and> is_sse
                      then (case upstream_ce of
                              Some ce \<Rightarrow> Ret (passthrough_sse_response D resp kind ce interval)
                            | None \<Rightarrow> Ret (passthrough_response D resp))
                      else Ret (passthrough_response D resp))
              | Inl e \<Rightarrow> bad_gateway D e)
         | Timer_first \<Rightarrow> Ret (keepalive_response kind interval (client req)))
        (\<lambda>resp. Ret (Some req, resp))))"

text \<open>The spawned tasks, run on a schedule; both start with a fresh timer.\<close>

definition run_spawned ::
    "deps \<Rightarrow> spawned \<Rightarrow> sse_writer \<Rightarrow> nat \<Rightarrow> sel list \<Rightarrow> task \<times> status" where
  "run_spawned D sp w now0 es =
     (case sp of
        Spawn_Bridge kind interval upstream \<Rightarrow> bridge D kind interval w now0 upstream es
      | Spawn_Success kind interval ce body \<Rightarrow>
          handle_success D kind interval (Some ce) body
            \<lparr>writer = w, heartbeat = sleep_deadline D now0 interval\<rparr> es)"

section \<open>Properties\<close>

lemma build_upstream_request_rewritten:
  assumes "uri_ok D" "config_ok D cfg" "uri_from_parts D (p_uri p) = Some (p_uri p)"
  shows "build_upstream_request D cfg p body = Ret (rewritten D cfg (request_from_parts p (Req_Full body)))"
  using assms
  by (simp add: build_upstream_request_def upstream_uri_total rewritten_def request_from_parts_def
      rewrite_host_def config_ok_def)

text \<open>The SSE path and the transparent path send the upstream the same request: for every
  request, whatever the crates do, including which panic occurs.\<close>

lemma sse_request_same:
  "build_upstream_request D cfg p body = rewrite_request D cfg (request_from_parts p (Req_Full body))"
  by (simp add: build_upstream_request_def rewrite_request_def request_from_parts_def rewrite_host_def Let_def)

lemma is_event_stream_iff:
  "is_event_stream D h \<longleftrightarrow>
     (\<exists>v s. hm_get h ''content-type'' = Some v \<and> header_to_str D v = Some s \<and>
        to_ascii_lowercase (str_trim (hd (split_on (CHR '';'') s))) = ''text/event-stream'')"
proof -
  have l: "to_ascii_lowercase ''text/event-stream'' = ''text/event-stream''" by code_simp
  have "eq_ignore_ascii_case x ''text/event-stream'' \<longleftrightarrow> to_ascii_lowercase x = ''text/event-stream''" for x
    using l by (simp add: eq_ignore_ascii_case_def to_ascii_lowercase_def)
  moreover have "(case split_on (CHR '';'') v of s # _ \<Rightarrow> s | [] \<Rightarrow> '''') = hd (split_on (CHR '';'') v)" for v
    using split_on_not_Nil [of "CHR '';''" v] by (cases "split_on (CHR '';'') v") simp_all
  ultimately show ?thesis
    by (auto simp: is_event_stream_def split: option.splits bind_splits)
qed

lemma bad_gateway_total:
  "json_total D \<Longrightarrow> \<exists>s. bad_gateway D e =
     Ret \<lparr>rs_status = 502, rs_headers = [(''content-type'', ''application/json'')], rs_body = Resp_Full s\<rparr>"
  using json_error_response_total unfolding bad_gateway_def by blast

text \<open>The answer of the SSE path for a request \<open>req\<close>: the table of the design document.\<close>

lemma handle_stream_request:
  assumes "uri_ok D" "config_ok D cfg" "uri_from_parts D (p_uri p) = Some (p_uri p)"
    and "req = rewritten D cfg (request_from_parts p (Req_Full body))"
  shows "handle_stream D cfg client race p body kind =
    rs_bind
      (case race of
         Timer_first \<Rightarrow> Ret (keepalive_response kind (rc_heartbeat_interval cfg) (client req))
       | Upstream_first \<Rightarrow>
           (case client req of
              Inl e \<Rightarrow> bad_gateway D e
            | Inr up \<Rightarrow>
                Ret (if is_success (up_status up) \<and> is_event_stream D (up_headers up)
                     then (case parse_content_encoding D (up_headers up) of
                             None \<Rightarrow> passthrough_response D up
                           | Some ce \<Rightarrow> passthrough_sse_response D up kind ce (rc_heartbeat_interval cfg))
                     else passthrough_response D up)))
      (\<lambda>resp. Ret (Some req, resp))"
  using build_upstream_request_rewritten [OF assms(1-3), of body] assms(4)
  by (auto simp: handle_stream_def Let_def split: race.splits sum.splits option.splits)

text \<open>The response to an answer that comes within the window.\<close>

definition window_response :: "deps \<Rightarrow> resolved_config \<Rightarrow> endpoint_kind \<Rightarrow> upstream_response \<Rightarrow> sse_response" where
  "window_response D cfg kind up =
     (if is_success (up_status up) \<and> is_event_stream D (up_headers up) \<and>
         parse_content_encoding D (up_headers up) \<noteq> None
      then passthrough_sse_response D up kind (the (parse_content_encoding D (up_headers up)))
             (rc_heartbeat_interval cfg)
      else passthrough_response D up)"

lemma handle_stream_answers:
  assumes "uri_ok D" "config_ok D cfg" "uri_from_parts D (p_uri p) = Some (p_uri p)"
    and "req = rewritten D cfg (request_from_parts p (Req_Full body))"
  shows "handle_stream D cfg client Timer_first p body kind =
      Ret (Some req, keepalive_response kind (rc_heartbeat_interval cfg) (client req))"
    and "client req = Inr up \<Longrightarrow> handle_stream D cfg client Upstream_first p body kind =
      Ret (Some req, window_response D cfg kind up)"
    and "client req = Inl e \<Longrightarrow> json_total D \<Longrightarrow> \<exists>s. handle_stream D cfg client Upstream_first p body kind =
      Ret (Some req, \<lparr>rs_status = 502, rs_headers = [(''content-type'', ''application/json'')], rs_body = Resp_Full s\<rparr>)"
proof -
  note h = handle_stream_request [OF assms, where client = client and kind = kind]
  show "handle_stream D cfg client Timer_first p body kind =
      Ret (Some req, keepalive_response kind (rc_heartbeat_interval cfg) (client req))"
    by (simp add: h)
  show "client req = Inr up \<Longrightarrow> handle_stream D cfg client Upstream_first p body kind =
      Ret (Some req, window_response D cfg kind up)"
    by (simp add: h window_response_def split: option.split)
  assume "client req = Inl e" "json_total D"
  moreover from this(2) obtain s where "(bad_gateway D e :: sse_response rs) =
      Ret \<lparr>rs_status = 502, rs_headers = [(''content-type'', ''application/json'')], rs_body = Resp_Full s\<rparr>"
    using bad_gateway_total by blast
  ultimately show "\<exists>s. handle_stream D cfg client Upstream_first p body kind =
      Ret (Some req, \<lparr>rs_status = 502, rs_headers = [(''content-type'', ''application/json'')], rs_body = Resp_Full s\<rparr>)"
    by (simp add: h)
qed

text \<open>C15: the decision table of the SSE path. It never panics and sends one request. If the timer is
  first, the response is a 200 event stream of the gateway's own, fed by \<open>bridge\<close>. If the upstream
  answers first: a 2xx event stream with a known coding is passed on with its status and fed by
  \<open>handle_success\<close>; any other answer (another type, another status, an unknown coding) goes back
  as on the transparent path, without any SSE processing; a failed request is a 502.\<close>

theorem handle_stream_table:
  assumes "uri_ok D" "config_ok D cfg" "uri_from_parts D (p_uri p) = Some (p_uri p)" "json_total D"
  shows "\<exists>req resp. handle_stream D cfg client race p body kind = Ret (Some req, resp) \<and>
    rewrite_request D cfg (request_from_parts p (Req_Full body)) = Ret req \<and>
    (case race of
       Timer_first \<Rightarrow> rs_status resp = 200 \<and>
         hm_get_all (rs_headers resp) ''content-type'' = [''text/event-stream; charset=utf-8''] \<and>
         rs_body resp = Resp_Task (Spawn_Bridge kind (rc_heartbeat_interval cfg) (client req))
     | Upstream_first \<Rightarrow>
         (case client req of
            Inl e \<Rightarrow> rs_status resp = 502 \<and> (\<exists>s. rs_body resp = Resp_Full s)
          | Inr up \<Rightarrow> rs_status resp = up_status up \<and>
              (if is_success (up_status up) \<and> is_event_stream D (up_headers up) \<and>
                  parse_content_encoding D (up_headers up) \<noteq> None
               then rs_body resp = Resp_Task (Spawn_Success kind (rc_heartbeat_interval cfg)
                      (the (parse_content_encoding D (up_headers up))) (up_body up))
               else rs_body resp = Resp_Incoming (up_body up) \<and>
                    rs_headers resp = strip_hop_by_hop D (up_headers up))))"
proof -
  let ?req = "rewritten D cfg (request_from_parts p (Req_Full body))"
  note h = handle_stream_answers [OF assms(1-3) refl, where body = body and client = client and kind = kind]
  have rw: "rewrite_request D cfg (request_from_parts p (Req_Full body)) = Ret ?req"
    using assms(3) by (intro rewrite_request_rewritten [OF assms(1,2)]) (simp add: request_from_parts_def)
  show ?thesis
  proof (cases race)
    case Timer_first
    then show ?thesis by (simp add: h(1) rw keepalive_response_def header_laws)
  next
    case Upstream_first
    then show ?thesis
      using h(2,3) rw assms(4)
      by (cases "client ?req") (fastforce simp: window_response_def passthrough_sse_response_def
          passthrough_response_def Let_def)+
  qed
qed

theorem handle_stream_table_witness:
  "\<exists>req resp. handle_stream sample_deps sample_cfg
       (\<lambda>r. Inr \<lparr>up_status = 200, up_headers = [(''content-type'', ''text/event-stream'')], up_body = []\<rparr>)
       Upstream_first
       \<lparr>p_method = ''POST'', p_uri = \<lparr>u_scheme = None, u_authority = None, u_path_and_query = Some ''/v1/messages''\<rparr>,
        p_headers = []\<rparr> ''{}'' AnthropicMessages = Ret (Some req, resp) \<and>
     rs_body resp = Resp_Task (Spawn_Success AnthropicMessages 60000000000 Identity [])"
proof -
  let ?p = "\<lparr>p_method = ''POST'', p_uri = \<lparr>u_scheme = None, u_authority = None, u_path_and_query = Some ''/v1/messages''\<rparr>,
        p_headers = []\<rparr>"
  let ?h = "[(''content-type'', ''text/event-stream'')]"
  have u: "uri_from_parts sample_deps (p_uri ?p) = Some (p_uri ?p)"
    using sample_uri_valid by simp
  have "str_trim ''text/event-stream'' = ''text/event-stream''"
    by (simp add: str_trim_def trim_start.simps trim_end.simps white_space_def ends_with_def)
  then have sse: "is_event_stream sample_deps ?h"
    by (simp add: is_event_stream_def hm_get_def hm_get_all_def sample_deps_def visible_def eq_ignore_ascii_case_def)
  have "parse_content_encoding sample_deps ?h = Some Identity"
    by (simp add: parse_content_encoding_def hm_get_all_def)
  with handle_stream_table [OF sample_uri_ok sample_cfg_ok u sample_json_total,
      of "\<lambda>r. Inr \<lparr>up_status = 200, up_headers = ?h, up_body = []\<rparr>" Upstream_first "''{}''" AnthropicMessages] sse
  show ?thesis by (auto simp: is_success_def sample_cfg_def)
qed

text \<open>The headers of a passed-on event stream: \<open>Content-Length\<close>, \<open>Content-Encoding\<close> (the body is
  decoded) and the hop-by-hop headers are gone, proxy buffering is switched off, and every other
  header has the upstream's values.\<close>

lemma passthrough_sse_headers:
  "hm_get_all (rs_headers (passthrough_sse_response D resp kind ce interval)) n =
     (if n = ''x-accel-buffering'' then [''no'']
      else if n \<in> {''content-encoding'', ''content-length'', ''connection''} \<union> set HOP_BY_HOP \<or>
              listed D (up_headers resp) n then []
      else hm_get_all (up_headers resp) n)"
  by (auto simp: passthrough_sse_response_def header_laws get_all_strip hop_names_listed Let_def)

text \<open>C25: \<open>is_event_stream\<close> looks at the media type only, without regard to case, white space or
  parameters, of the first \<open>Content-Type\<close> header, and is false without one.\<close>

theorem is_event_stream_media_type:
  "is_event_stream D h \<longleftrightarrow>
     (\<exists>v s m. hm_get h ''content-type'' = Some v \<and> header_to_str D v = Some s \<and>
        CHR '';'' \<notin> set m \<and> (s = m \<or> (\<exists>params. s = m @ CHR '';'' # params)) \<and>
        to_ascii_lowercase (str_trim m) = ''text/event-stream'')"
proof -
  have "hd (split_on (CHR '';'') s) = m \<longleftrightarrow> CHR '';'' \<notin> set m \<and> (s = m \<or> (\<exists>params. s = m @ CHR '';'' # params))"
    for s m
  proof
    assume m: "hd (split_on (CHR '';'') s) = m"
    then obtain ss where ss: "split_on (CHR '';'') s = m # ss" by (cases "split_on (CHR '';'') s") auto
    then have "CHR '';'' \<notin> set m" using split_on_segments [of m "CHR '';''" s] by simp
    moreover have "s = join_with (CHR '';'') (m # ss)" using join_split_on [of "CHR '';''" s] ss by simp
    ultimately show "CHR '';'' \<notin> set m \<and> (s = m \<or> (\<exists>params. s = m @ CHR '';'' # params))"
      by (cases ss) auto
  next
    assume "CHR '';'' \<notin> set m \<and> (s = m \<or> (\<exists>params. s = m @ CHR '';'' # params))"
    then show "hd (split_on (CHR '';'') s) = m" by (auto simp: rust_str)
  qed
  then show ?thesis unfolding is_event_stream_iff by metis
qed

text \<open>A passed-on event stream whose client stays, under any schedule: once the task has
  returned, the client has received the events of the decoded upstream body, followed after a
  stream error by the events of the error; before that the events of a prefix of it.\<close>

lemma passthrough_sse_delivers:
  assumes "memchr2_ok D" "json_total D" "json_one_line D"
    and "decoder_stream D ce body = items"
  shows "let r = run_spawned D (Spawn_Success kind interval ce body) (writer_new None) now0 es;
             err = map_option (\<lambda>e. api_error D kind None None (Some (io_error_text e))) (items_error items)
         in if snd r = Returned then events_of (task_body r) = outcome_events D kind (items_bytes items, err)
            else \<exists>q. prefix q (items_bytes items) \<and> events_of (task_body r) = events_of q"
proof -
  let ?s = "\<lparr>writer = writer_new None, heartbeat = sleep_deadline D now0 interval\<rparr>"
  have "live ?s" "sent (writer ?s) = replicate 0 HEARTBEAT" by (simp_all add: live_def writer_new_def)
  from handle_success_serves [OF assms(1-3) this refl, where kind = kind and iv = interval and ce = "Some ce" and body = body and es = es] assms(4)
  show ?thesis
    by (simp add: serves_def run_spawned_def task_body_def writer_end_def success_outcome_def Let_def
        split: if_split_asm)
qed

end
