(* ===== verification/Gateway.thy ===== *)
theory Gateway
  imports Detect Sse
begin

text \<open>
  The dispatch in \<open>src/lib.rs\<close>: \<open>handle\<close> recognises a streaming request and sends it to the SSE
  path, everything else to the transparent path, and answers 413 or 400 itself when the body of a
  recognised endpoint cannot be buffered. The lemmas give the exact routing, that every request is
  answered, and that whatever reaches the upstream carries the client's body unchanged.
\<close>

section \<open>Dispatch\<close>

definition response_413 :: "deps \<Rightarrow> sse_response rs" where
  "response_413 D =
     json_error_response D 413 ''request body exceeds max-probe-body limit'' ''invalid_request_error''"

definition response_400 :: "deps \<Rightarrow> sse_response rs" where
  "response_400 D =
     json_error_response D 400 ''failed to read request body'' ''invalid_request_error''"

definition content_length :: "deps \<Rightarrow> header_map \<Rightarrow> usize option" where
  "content_length D headers =
     Option.bind (Option.bind (hm_get headers ''content-length'') (header_to_str D)) parse_usize"

text \<open>The body the probe looks at: decoded, empty when it cannot be decoded, and as it is for an
  unknown coding.\<close>

definition probe_body :: "deps \<Rightarrow> resolved_config \<Rightarrow> header_map \<Rightarrow> bytes \<Rightarrow> bytes" where
  "probe_body D cfg headers collected =
     (case parse_content_encoding D headers of
        Some ce \<Rightarrow> (case decode_bytes D ce collected (rc_max_probe_body cfg) of Inr b \<Rightarrow> b | Inl e \<Rightarrow> [])
      | None \<Rightarrow> collected)"

definition handle ::
    "deps \<Rightarrow> resolved_config \<Rightarrow> (request \<Rightarrow> upstream_result) \<Rightarrow> race \<Rightarrow> parts \<Rightarrow> incoming \<Rightarrow> sse_exchange rs" where
  "handle D cfg client race p body =
     (case match_endpoint (p_method p) (uri_path D (p_uri p)) (uri_query D (p_uri p)) of
        None \<Rightarrow> proxy D cfg client p body
      | Some kind \<Rightarrow>
          if (case content_length D (p_headers p) of Some cl \<Rightarrow> rc_max_probe_body cfg < cl | None \<Rightarrow> False)
          then proxy D cfg client p body
          else (case limited_collect D (rc_max_probe_body cfg) body of
                  Inl LengthLimitError \<Rightarrow> rs_bind (response_413 D) (\<lambda>resp. Ret (None, resp))
                | Inl (BodyError e) \<Rightarrow> rs_bind (response_400 D) (\<lambda>resp. Ret (None, resp))
                | Inr collected \<Rightarrow>
                    if kind = GeminiStream then handle_stream D cfg client race p collected kind
                    else if accepts_event_stream D (p_headers p)
                    then handle_stream D cfg client race p collected kind
                    else if probe_stream_flag D (probe_body D cfg (p_headers p) collected)
                    then handle_stream D cfg client race p collected kind
                    else proxy_buffered D cfg client p collected))"

section \<open>Properties\<close>

text \<open>A request the gateway keeps alive: a known endpoint, no declared length above the limit, a body
  within the limit, and a request for streaming in one of the three ways.\<close>

definition wants_stream :: "deps \<Rightarrow> resolved_config \<Rightarrow> parts \<Rightarrow> bytes \<Rightarrow> endpoint_kind \<Rightarrow> bool" where
  "wants_stream D cfg p raw kind \<longleftrightarrow>
     kind = GeminiStream \<or> accepts_event_stream D (p_headers p) \<or>
     probe_stream_flag D (probe_body D cfg (p_headers p) raw)"

definition declared_within :: "deps \<Rightarrow> resolved_config \<Rightarrow> parts \<Rightarrow> bool" where
  "declared_within D cfg p \<longleftrightarrow>
     (\<forall>cl. content_length D (p_headers p) = Some cl \<longrightarrow> unat cl \<le> unat (rc_max_probe_body cfg))"

definition endpoint :: "deps \<Rightarrow> parts \<Rightarrow> endpoint_kind option" where
  "endpoint D p = match_endpoint (p_method p) (uri_path D (p_uri p)) (uri_query D (p_uri p))"

lemma declared_within_if:
  "(case content_length D (p_headers p) of Some cl \<Rightarrow> rc_max_probe_body cfg < cl | None \<Rightarrow> False) \<longleftrightarrow>
     \<not> declared_within D cfg p"
  by (auto simp: declared_within_def word_less_nat_alt split: option.split)

lemma handle_transparent:
  "endpoint D p = None \<or> \<not> declared_within D cfg p \<Longrightarrow> handle D cfg client race p body = proxy D cfg client p body"
  by (auto simp: handle_def endpoint_def declared_within_if split: option.split)

lemma handle_probed:
  assumes "endpoint D p = Some kind" "declared_within D cfg p"
  shows "handle D cfg client race p body =
    (case limited_collect D (rc_max_probe_body cfg) body of
       Inl LengthLimitError \<Rightarrow> rs_bind (response_413 D) (\<lambda>resp. Ret (None, resp))
     | Inl (BodyError e) \<Rightarrow> rs_bind (response_400 D) (\<lambda>resp. Ret (None, resp))
     | Inr raw \<Rightarrow> if wants_stream D cfg p raw kind then handle_stream D cfg client race p raw kind
                 else proxy_buffered D cfg client p raw)"
  using assms by (auto simp: handle_def endpoint_def declared_within_if wants_stream_def split: sum.split collect_error.split)

lemma handle_stream_sends:
  assumes "uri_ok D" "config_ok D cfg" "uri_from_parts D (p_uri p) = Some (p_uri p)" "json_total D"
  shows "\<exists>resp. handle_stream D cfg client race p body kind =
    Ret (Some (rewritten D cfg (request_from_parts p (Req_Full body))), resp)"
proof -
  have b: "\<exists>r. (bad_gateway D e :: sse_response rs) = Ret r" for e
    using bad_gateway_total [OF assms(4)] by blast
  note h = handle_stream_request [OF assms(1-3) refl, where body = body and client = client and race = race and kind = kind]
  let ?up = "client (rewritten D cfg (request_from_parts p (Req_Full body)))"
  show ?thesis
  proof (cases "\<exists>e. race = Upstream_first \<and> ?up = Inl e")
    case True
    then obtain e r where "race = Upstream_first" "?up = Inl e" "(bad_gateway D e :: sse_response rs) = Ret r"
      using b by blast
    with h show ?thesis by simp
  next
    case False
    then show ?thesis unfolding h by (cases race; cases ?up) simp_all
  qed
qed

lemma proxy_sends:
  assumes "uri_ok D" "config_ok D cfg" "uri_from_parts D (p_uri p) = Some (p_uri p)" "json_total D"
  shows "\<exists>resp :: sse_response. proxy_req D cfg client (request_from_parts p b) =
    Ret (Some (rewritten D cfg (request_from_parts p b)), resp)"
  using proxy_req_exchange [OF assms(1,2) _ assms(4), of "request_from_parts p b" client] assms(3)
  by (auto simp: request_from_parts_def)

lemma refusal_responses:
  assumes "json_total D"
  obtains r413 r400 where "response_413 D = Ret r413" "rs_status r413 = 413"
    "response_400 D = Ret r400" "rs_status r400 = 400"
proof -
  obtain s t where "response_413 D = Ret \<lparr>rs_status = 413, rs_headers = [(''content-type'', ''application/json'')], rs_body = Resp_Full s\<rparr>"
    "response_400 D = Ret \<lparr>rs_status = 400, rs_headers = [(''content-type'', ''application/json'')], rs_body = Resp_Full t\<rparr>"
    unfolding response_413_def response_400_def using json_error_response_total [OF assms] by metis
  with that show ?thesis by simp
qed

text \<open>What \<open>handle\<close> sends and answers, without looking at the responses of the two paths.\<close>

lemma handle_sends:
  assumes "uri_ok D" "config_ok D cfg" "uri_from_parts D (p_uri p) = Some (p_uri p)" "json_total D"
  shows "\<exists>resp. handle D cfg client race p body = Ret (
    (if endpoint D p = None \<or> \<not> declared_within D cfg p
     then Some (rewritten D cfg (request_from_parts p (Req_Incoming body)))
     else case limited_collect D (rc_max_probe_body cfg) body of
            Inl e \<Rightarrow> None | Inr raw \<Rightarrow> Some (rewritten D cfg (request_from_parts p (Req_Full raw)))), resp) \<and>
    (endpoint D p \<noteq> None \<longrightarrow> declared_within D cfg p \<longrightarrow>
       (case limited_collect D (rc_max_probe_body cfg) body of
          Inl LengthLimitError \<Rightarrow> rs_status resp = 413 | Inl (BodyError e) \<Rightarrow> rs_status resp = 400 | Inr raw \<Rightarrow> True))"
proof (cases "endpoint D p = None \<or> \<not> declared_within D cfg p")
  case True
  with proxy_sends [OF assms, of client "Req_Incoming body"] show ?thesis
    by (auto simp: handle_transparent proxy_def)
next
  case False
  then obtain kind where k: "endpoint D p = Some kind" "declared_within D cfg p" by auto
  obtain r413 r400 where r: "response_413 D = Ret r413" "rs_status r413 = 413"
    "response_400 D = Ret r400" "rs_status r400 = 400"
    using refusal_responses [OF assms(4)] by blast
  show ?thesis
  proof (cases "limited_collect D (rc_max_probe_body cfg) body")
    case (Inl e)
    with k r show ?thesis by (cases e) (auto simp: handle_probed [OF k])
  next
    case (Inr raw)
    with k handle_stream_sends [OF assms, of client race raw kind] proxy_sends [OF assms, of client "Req_Full raw"]
    show ?thesis by (auto simp: handle_probed [OF k] proxy_buffered_def)
  qed
qed

text \<open>The client has been answered by an event stream of the gateway's own, fed by a task.\<close>

definition kept_alive :: "sse_exchange rs \<Rightarrow> bool" where
  "kept_alive r \<longleftrightarrow>
     (\<exists>rq resp task. r = Ret (rq, resp) \<and> rs_status resp = 200 \<and> rs_body resp = Resp_Task task)"

lemma kept_alive_keepalive [simp]: "kept_alive (Ret (rq, keepalive_response kind iv up))"
  by (simp add: kept_alive_def keepalive_response_def)

lemma kept_alive_refusal:
  assumes "json_total D"
  shows "\<not> kept_alive (rs_bind (response_413 D) (\<lambda>resp. Ret (None, resp)))"
proof -
  obtain r where "response_413 D = Ret r" "rs_status r = 413"
    using refusal_responses [OF assms] by metis
  then show ?thesis by (simp add: kept_alive_def)
qed

lemma kept_alive_proxy:
  assumes "uri_ok D" "config_ok D cfg" "uri_from_parts D (p_uri p) = Some (p_uri p)" "json_total D"
  shows "\<not> kept_alive (proxy_req D cfg client (request_from_parts p b))"
proof -
  let ?req = "request_from_parts p b"
  have u: "uri_from_parts D (p_uri ?req) = Some (p_uri ?req)" using assms(3) by (simp add: request_from_parts_def)
  note e = proxy_req_exchange [OF assms(1,2) u assms(4), where client = client and 't = spawned]
  show ?thesis
  proof (cases "client (rewritten D cfg ?req)")
    case (Inl x)
    with e show ?thesis by (auto simp: kept_alive_def)
  next
    case (Inr up)
    with e show ?thesis by (auto simp: kept_alive_def passthrough_response_def)
  qed
qed

text \<open>C6: which requests are kept alive. When the upstream has not answered within the first interval,
  the client has a 200 response fed by a task exactly when the request is a POST whose last path
  segments and query name one of the four endpoints, its declared and its actual length are within
  \<open>--max-probe-body\<close>, and it asks for streaming: by the Gemini method itself, by the \<open>Accept\<close>
  header, or by the \<open>stream\<close> field of its decoded body.\<close>

theorem handle_keepalive_iff:
  assumes "uri_ok D" "config_ok D cfg" "uri_from_parts D (p_uri p) = Some (p_uri p)" "json_total D" "limited_ok D"
    and "body = map Inr cs"
  shows "kept_alive (handle D cfg client Timer_first p body) \<longleftrightarrow>
    p_method p = ''POST'' \<and> length (concat cs) \<le> unat (rc_max_probe_body cfg) \<and>
    (\<forall>cl. content_length D (p_headers p) = Some cl \<longrightarrow> unat cl \<le> unat (rc_max_probe_body cfg)) \<and>
    (\<exists>kind. kind_of_segments (split_on (CHR ''/'') (uri_path D (p_uri p))) (uri_query D (p_uri p)) = Some kind \<and>
       (kind = GeminiStream \<or> accepts_event_stream D (p_headers p) \<or>
        probe_stream_flag D (probe_body D cfg (p_headers p) (concat cs))))"
proof (cases "endpoint D p = None \<or> \<not> declared_within D cfg p")
  case True
  with kept_alive_proxy [OF assms(1-4)] have "\<not> kept_alive (handle D cfg client Timer_first p body)"
    by (simp add: handle_transparent proxy_def)
  with True show ?thesis
    by (auto simp: endpoint_def match_endpoint_kind declared_within_def)
next
  case False
  then obtain kind where k: "endpoint D p = Some kind" "declared_within D cfg p" by auto
  have m: "p_method p = ''POST''"
    "kind_of_segments (split_on (CHR ''/'') (uri_path D (p_uri p))) (uri_query D (p_uri p)) = Some kind"
    using k(1) by (auto simp: endpoint_def match_endpoint_kind split: if_splits)
  have c: "limited_collect D (rc_max_probe_body cfg) body =
      (if length (concat cs) \<le> unat (rc_max_probe_body cfg) then Inr (concat cs) else Inl LengthLimitError)"
    using assms(5,6) unfolding limited_ok_def by simp
  have "kept_alive (handle D cfg client Timer_first p body) \<longleftrightarrow>
      length (concat cs) \<le> unat (rc_max_probe_body cfg) \<and> wants_stream D cfg p (concat cs) kind"
    using handle_stream_answers(1) [OF assms(1-3) refl, of client "concat cs" kind]
      kept_alive_proxy [OF assms(1-4)] kept_alive_refusal [OF assms(4)]
    by (simp add: handle_probed [OF k] c proxy_buffered_def)
  with k(2) m show ?thesis by (simp add: wants_stream_def declared_within_def)
qed

theorem handle_keepalive_iff_witness:
  "kept_alive (handle sample_deps sample_cfg (\<lambda>r. Inl ''refused'') Timer_first
     \<lparr>p_method = ''POST'', p_uri = \<lparr>u_scheme = None, u_authority = None, u_path_and_query = Some ''/v1/responses''\<rparr>,
      p_headers = []\<rparr> [Inr ''{\"stream\"'', Inr '':true}''])"
proof -
  let ?p = "\<lparr>p_method = ''POST'', p_uri = \<lparr>u_scheme = None, u_authority = None, u_path_and_query = Some ''/v1/responses''\<rparr>,
      p_headers = []\<rparr>"
  have u: "uri_from_parts sample_deps (p_uri ?p) = Some (p_uri ?p)" using sample_uri_valid by simp
  have "probe_body sample_deps sample_cfg [] ''{\"stream\":true}'' = ''{\"stream\":true}''"
    by (simp add: probe_body_def parse_content_encoding_def hm_get_all_def decode_bytes_def sample_cfg_def)
  then have "probe_stream_flag sample_deps (probe_body sample_deps sample_cfg [] ''{\"stream\":true}'')"
    by (simp add: probe_stream_flag_def parse_probe_def sample_deps_def)
  moreover have "kind_of_segments (split_on (CHR ''/'') (uri_path sample_deps (p_uri ?p))) (uri_query sample_deps (p_uri ?p)) =
      Some Responses"
    by (simp add: kind_of_segments_def sample_deps_def)
  moreover have "content_length sample_deps (p_headers ?p) = None"
    by (simp add: content_length_def hm_get_def hm_get_all_def)
  ultimately show ?thesis
    by (intro handle_keepalive_iff [OF sample_uri_ok sample_cfg_ok u sample_json_total sample_limited_ok,
        of _ "[''{\"stream\"'', '':true}'']", THEN iffD2]) (simp_all add: sample_cfg_def)
qed

text \<open>C7: every request is answered, without a panic, and the client's body is never altered: what is
  sent to the upstream, if anything, is the rewritten request with either the body as it streams
  in or the very bytes the client sent (at most \<open>--max-probe-body\<close> of them were buffered); and
  nothing is sent only for a body above the limit, which is answered with 413.\<close>

theorem handle_body_integrity:
  assumes "uri_ok D" "config_ok D cfg" "uri_from_parts D (p_uri p) = Some (p_uri p)" "json_total D" "limited_ok D"
    and "body = map Inr cs"
  shows "\<exists>sent resp. handle D cfg client race p body = Ret (sent, resp) \<and>
    (case sent of
       None \<Rightarrow> rs_status resp = 413 \<and> unat (rc_max_probe_body cfg) < length (concat cs)
     | Some req \<Rightarrow> rewrite_request D cfg (request_from_parts p (r_body req)) = Ret req \<and>
         (r_body req = Req_Incoming body \<or>
          (r_body req = Req_Full (concat cs) \<and> length (concat cs) \<le> unat (rc_max_probe_body cfg))))"
proof -
  have rw: "rewrite_request D cfg (request_from_parts p b) = Ret (rewritten D cfg (request_from_parts p b))" for b
    using assms(3) by (intro rewrite_request_rewritten [OF assms(1,2)]) (simp add: request_from_parts_def)
  have b: "r_body (rewritten D cfg (request_from_parts p b)) = b" for b
    by (simp add: rewritten_def request_from_parts_def)
  have "limited_collect D (rc_max_probe_body cfg) body =
      (if length (concat cs) \<le> unat (rc_max_probe_body cfg) then Inr (concat cs) else Inl LengthLimitError)"
    using assms(5,6) unfolding limited_ok_def by simp
  with handle_sends [OF assms(1-4), of client race body] show ?thesis
    by (cases "endpoint D p = None \<or> \<not> declared_within D cfg p";
        cases "length (concat cs) \<le> unat (rc_max_probe_body cfg)") (auto simp: rw b)
qed

theorem handle_body_integrity_witness:
  "\<exists>sent resp. handle sample_deps sample_cfg (\<lambda>r. Inl ''refused'') Upstream_first
     \<lparr>p_method = ''POST'', p_uri = \<lparr>u_scheme = None, u_authority = None, u_path_and_query = Some ''/v1/messages''\<rparr>,
      p_headers = []\<rparr> [Inr ''{}'', Inr '' ''] = Ret (Some sent, resp) \<and>
     (r_body sent = Req_Incoming [Inr ''{}'', Inr '' ''] \<or> r_body sent = Req_Full ''{} '')"
proof -
  let ?p = "\<lparr>p_method = ''POST'', p_uri = \<lparr>u_scheme = None, u_authority = None, u_path_and_query = Some ''/v1/messages''\<rparr>,
      p_headers = []\<rparr>"
  have "uri_from_parts sample_deps (p_uri ?p) = Some (p_uri ?p)" using sample_uri_valid by simp
  from handle_body_integrity [OF sample_uri_ok sample_cfg_ok this sample_json_total sample_limited_ok,
      of "[Inr ''{}'', Inr '' '']" "[''{}'', '' '']" "\<lambda>r. Inl ''refused''" Upstream_first]
  show ?thesis by (auto simp: sample_cfg_def split: option.splits)
qed

text \<open>C26: the gateway answers without contacting the upstream exactly when a known endpoint's body,
  with no declared length above the limit, cannot be collected; the status is 413 when the limit
  was exceeded and 400 when the body failed.\<close>

theorem handle_refuses_iff:
  assumes "uri_ok D" "config_ok D cfg" "uri_from_parts D (p_uri p) = Some (p_uri p)" "json_total D"
  shows "(\<exists>resp. handle D cfg client race p body = Ret (None, resp) \<and> rs_status resp = st) \<longleftrightarrow>
    endpoint D p \<noteq> None \<and> declared_within D cfg p \<and>
    (case limited_collect D (rc_max_probe_body cfg) body of
       Inl LengthLimitError \<Rightarrow> st = 413 | Inl (BodyError e) \<Rightarrow> st = 400 | Inr raw \<Rightarrow> False)"
  using handle_sends [OF assms, of client race body]
  by (cases "endpoint D p = None \<or> \<not> declared_within D cfg p")
    (auto split: sum.splits collect_error.splits)

theorem handle_refuses_iff_witness:
  "\<exists>resp. handle sample_deps sample_cfg (\<lambda>r. Inl ''refused'') Timer_first
     \<lparr>p_method = ''POST'', p_uri = \<lparr>u_scheme = None, u_authority = None, u_path_and_query = Some ''/v1/messages''\<rparr>,
      p_headers = []\<rparr> [Inr ''{'', Inl ''reset''] = Ret (None, resp) \<and> rs_status resp = 400"
proof -
  let ?p = "\<lparr>p_method = ''POST'', p_uri = \<lparr>u_scheme = None, u_authority = None, u_path_and_query = Some ''/v1/messages''\<rparr>,
      p_headers = []\<rparr>"
  have "uri_from_parts sample_deps (p_uri ?p) = Some (p_uri ?p)" using sample_uri_valid by simp
  moreover have "endpoint sample_deps ?p \<noteq> None"
    by (simp add: endpoint_def match_endpoint_def ends_with_def sample_deps_def)
  moreover have "declared_within sample_deps sample_cfg ?p"
    by (simp add: declared_within_def content_length_def hm_get_def hm_get_all_def)
  moreover have "limited_collect sample_deps (rc_max_probe_body sample_cfg) [Inr ''{'', Inl ''reset''] = Inl (BodyError ''reset'')"
    by (simp add: sample_deps_def sample_cfg_def)
  ultimately show ?thesis
    by (intro handle_refuses_iff [OF sample_uri_ok sample_cfg_ok _ sample_json_total, THEN iffD2]) simp_all
qed

text \<open>C40: with the largest \<open>--max-probe-body\<close>, the wrap of the decoder's limit makes the gateway blind
  to compressed requests: whatever a compressed body asks for, the probe sees an empty body, so a
  streaming request without the \<open>Accept\<close> header goes through without any keepalive.\<close>

theorem handle_probe_wrap:
  assumes "rc_max_probe_body cfg = - 1" "endpoint D p = Some kind" "kind \<noteq> GeminiStream"
    and "parse_content_encoding D (p_headers p) = Some ce" "ce \<noteq> Identity"
    and "\<not> accepts_event_stream D (p_headers p)" "probe_from_slice D [] = None"
    and "limited_collect D (- 1) body = Inr raw"
  shows "handle D cfg client race p body = proxy_buffered D cfg client p raw"
proof -
  have "declared_within D cfg p"
    using assms(1) word_n1_ge [of "_ :: usize"] by (auto simp: declared_within_def word_le_nat_alt)
  moreover have "decode_bytes D ce raw (- 1) = Inr []"
    using assms(5) by (simp add: decode_bytes_reader decode_async_def take_read_to_end_def)
  ultimately show ?thesis
    using assms
    by (simp add: handle_probed [OF assms(2)] wants_stream_def probe_body_def probe_stream_flag_def parse_probe_def)
qed

theorem handle_probe_wrap_witness:
  "handle sample_deps (sample_cfg\<lparr>rc_max_probe_body := - 1\<rparr>) (\<lambda>r. Inl ''refused'') Timer_first
     \<lparr>p_method = ''POST'', p_uri = \<lparr>u_scheme = None, u_authority = None, u_path_and_query = Some ''/v1/responses''\<rparr>,
      p_headers = [(''content-encoding'', ''gzip'')]\<rparr> [Inr ''z''] =
   proxy_buffered sample_deps (sample_cfg\<lparr>rc_max_probe_body := - 1\<rparr>) (\<lambda>r. Inl ''refused'')
     \<lparr>p_method = ''POST'', p_uri = \<lparr>u_scheme = None, u_authority = None, u_path_and_query = Some ''/v1/responses''\<rparr>,
      p_headers = [(''content-encoding'', ''gzip'')]\<rparr> ''z''"
proof (rule handle_probe_wrap [where kind = Responses and ce = Gzip])
  have "str_trim ''gzip'' = ''gzip''"
    by (simp add: str_trim_def trim_start.simps trim_end.simps white_space_def ends_with_def)
  moreover have "coding_parse ''gzip'' = Some Gzip" by code_simp
  ultimately have "parse_content_encoding sample_deps [(''content-encoding'', ''gzip'')] = Some Gzip"
    by (simp add: parse_content_encoding_def hm_get_all_def sample_deps_def visible_def Let_def)
  then show "parse_content_encoding sample_deps (p_headers \<lparr>p_method = ''POST'',
      p_uri = \<lparr>u_scheme = None, u_authority = None, u_path_and_query = Some ''/v1/responses''\<rparr>,
      p_headers = [(''content-encoding'', ''gzip'')]\<rparr>) = Some Gzip" by simp
  have "length (concat [''z'']) \<le> unat (- 1 :: usize)" using word_n1_ge [of "1 :: usize"] by (simp add: word_le_nat_alt)
  then have "limited_collect sample_deps (- 1) (map Inr [''z'']) = Inr (concat [''z''])"
    using sample_limited_ok unfolding limited_ok_def by presburger
  then show "limited_collect sample_deps (- 1) [Inr ''z''] = Inr ''z''" by simp
qed (simp_all add: endpoint_def match_endpoint_def ends_with_def accepts_event_stream_def hm_get_def hm_get_all_def,
    simp_all add: sample_deps_def)

end
