(* ===== verification/Pprof.thy ===== *)
theory Pprof
  imports Rust_Str
begin

text \<open>
  \<open>src/pprof.rs\<close>, compiled with the feature \<open>pprof\<close>: \<open>start_if_enabled\<close>, the output directory,
  and the task that waits for \<open>SIGUSR1\<close> and writes a flame graph and a protobuf report for each.
  The environment of the process is a function from names to values (\<open>None\<close> where
  \<open>std::env::var\<close> is an error). What the profiler crate, the clock and the file system answer
  while one signal is served is the record \<open>usr1\<close>, over the crate's type \<open>'r\<close> of reports.
\<close>

section \<open>Environment, clock and paths\<close>

type_synonym environment = "str \<Rightarrow> str option"

definition SAMPLE_HZ :: int where "SAMPLE_HZ = 99"

definition pprof_enabled :: "environment \<Rightarrow> bool" where
  "pprof_enabled env = (case env ''KEEP_SSE_PPROF'' of Some v \<Rightarrow> v = ''1'' | None \<Rightarrow> False)"

definition dump_dir :: "environment \<Rightarrow> str" where
  "dump_dir env = (case env ''KEEP_SSE_PPROF_DIR'' of Some d \<Rightarrow> d | None \<Rightarrow> ''/tmp'')"

text \<open>\<open>duration_since(UNIX_EPOCH)\<close> is an error when the clock is before the epoch.\<close>

definition timestamp :: "u64 option \<Rightarrow> u64" where
  "timestamp since_epoch = (case since_epoch of Some secs \<Rightarrow> secs | None \<Rightarrow> 0)"

text \<open>\<open>Path::join\<close> with a relative path on Unix: a separator is put in unless the directory is
  empty or ends with one.\<close>

definition path_join :: "str \<Rightarrow> str \<Rightarrow> str" where
  "path_join dir name =
     (if dir = [] \<or> last dir = CHR ''/'' then dir @ name else dir @ ''/'' @ name)"

definition svg_path :: "str \<Rightarrow> u64 \<Rightarrow> str" where
  "svg_path dir ts = path_join dir (''keep-sse-'' @ show_nat (unat ts) @ ''.svg'')"

definition pb_path :: "str \<Rightarrow> u64 \<Rightarrow> str" where
  "pb_path dir ts = path_join dir (''keep-sse-'' @ show_nat (unat ts) @ ''.pb'')"

section \<open>The state of the process and its surroundings\<close>

text \<open>The files and directories the task has touched, and the log. A line of the log is its level,
  its fields and its message.\<close>

datatype log_level = INFO | WARN

type_synonym log_line = "log_level \<times> (str \<times> str) list \<times> str"

record profiled =
  pf_files :: "str \<Rightarrow> bytes option"
  pf_dirs :: "str list"
  pf_log :: "log_line list"

text \<open>The answers met while one signal is served: the report or an error; the seconds since the epoch;
  the error of \<open>create_dir_all\<close> and of \<open>File::create\<close>, if any; the bytes \<open>flamegraph\<close> writes,
  with its error; the encoded profile or an error; and, when \<open>fs::write\<close> fails, its error and what
  it leaves in the file.\<close>

record 'r usr1 =
  us_report :: "str + 'r"
  us_clock :: "u64 option"
  us_create_dir :: "str \<Rightarrow> str option"
  us_create :: "str \<Rightarrow> str option"
  us_flamegraph :: "'r \<Rightarrow> bytes \<times> str option"
  us_pprof :: "'r \<Rightarrow> str + bytes"
  us_write :: "str \<Rightarrow> bytes \<Rightarrow> (str \<times> bytes option) option"

definition log_msg :: "log_level \<Rightarrow> (str \<times> str) list \<Rightarrow> str \<Rightarrow> profiled \<Rightarrow> profiled" where
  "log_msg lvl flds msg s = s\<lparr>pf_log := pf_log s @ [(lvl, flds, msg)]\<rparr>"

definition put_file :: "str \<Rightarrow> bytes \<Rightarrow> profiled \<Rightarrow> profiled" where
  "put_file p b s = s\<lparr>pf_files := (pf_files s)(p \<mapsto> b)\<rparr>"

section \<open>One dump\<close>

definition write_flamegraph :: "'r usr1 \<Rightarrow> 'r \<Rightarrow> str \<Rightarrow> profiled \<Rightarrow> profiled" where
  "write_flamegraph u report path s =
     (case us_create u path of
        Some e \<Rightarrow>
          log_msg WARN [(''error'', e), (''path'', path)] ''pprof: failed to open flamegraph file'' s
      | None \<Rightarrow>
          (case us_flamegraph u report of
             (b, None) \<Rightarrow> log_msg INFO [(''path'', path)] ''pprof: wrote flamegraph'' (put_file path b s)
           | (b, Some e) \<Rightarrow>
               log_msg WARN [(''error'', e), (''path'', path)] ''pprof: failed to write flamegraph''
                 (put_file path b s)))"

definition write_protobuf :: "'r usr1 \<Rightarrow> 'r \<Rightarrow> str \<Rightarrow> profiled \<Rightarrow> profiled" where
  "write_protobuf u report path s =
     (case us_pprof u report of
        Inl e \<Rightarrow> log_msg WARN [(''error'', e)] ''pprof: failed to build protobuf report'' s
      | Inr content \<Rightarrow>
          (case us_write u path content of
             None \<Rightarrow> log_msg INFO [(''path'', path)] ''pprof: wrote protobuf'' (put_file path content s)
           | Some (e, left) \<Rightarrow>
               log_msg WARN [(''error'', e), (''path'', path)] ''pprof: failed to write protobuf''
                 (case left of None \<Rightarrow> s | Some b \<Rightarrow> put_file path b s)))"

text \<open>The body of the loop after \<open>sig.recv()\<close>; both \<open>continue\<close> statements are early returns.\<close>

definition dump_once :: "environment \<Rightarrow> 'r usr1 \<Rightarrow> profiled \<Rightarrow> profiled" where
  "dump_once env u s =
     (case us_report u of
        Inl e \<Rightarrow> log_msg WARN [(''error'', e)] ''pprof: failed to build report'' s
      | Inr report \<Rightarrow>
          (let dir = dump_dir env;
               ts = timestamp (us_clock u);
               svg = svg_path dir ts;
               pb = pb_path dir ts
           in case us_create_dir u dir of
                Some e \<Rightarrow>
                  log_msg WARN [(''error'', e), (''dir'', dir)] ''pprof: cannot create output dir'' s
              | None \<Rightarrow>
                  write_protobuf u report pb
                    (write_flamegraph u report svg (s\<lparr>pf_dirs := dir # pf_dirs s\<rparr>))))"

section \<open>The task\<close>

text \<open>The loop never ends by itself: with no further signal it waits.\<close>

fun serve_signals :: "environment \<Rightarrow> 'r usr1 list \<Rightarrow> profiled \<Rightarrow> profiled" where
  "serve_signals env [] s = s"
| "serve_signals env (u # us) s = serve_signals env us (dump_once env u s)"

text \<open>Whether the task is still there after the signals, and the state. The two errors are those
  of \<open>ProfilerGuard::new\<close> and of the installation of the handler.\<close>

definition dump_loop ::
    "environment \<Rightarrow> (int \<Rightarrow> str option) \<Rightarrow> str option \<Rightarrow> 'r usr1 list \<Rightarrow> profiled \<Rightarrow> bool \<times> profiled" where
  "dump_loop env guard_new install us s =
     (case guard_new SAMPLE_HZ of
        Some e \<Rightarrow>
          (False, log_msg WARN [(''error'', e)] ''pprof: failed to start sampler; profiling disabled'' s)
      | None \<Rightarrow>
          (case install of
             Some e \<Rightarrow>
               (False, log_msg WARN [(''error'', e)]
                  ''pprof: failed to install SIGUSR1 handler; profiling disabled'' s)
           | None \<Rightarrow> (True, serve_signals env us s)))"

definition log_enabled :: "profiled \<Rightarrow> profiled" where
  "log_enabled s =
     log_msg INFO [(''hz'', show_nat (nat SAMPLE_HZ))]
       ''pprof: sampling enabled; send SIGUSR1 to dump a profile'' s"

definition start_if_enabled ::
    "environment \<Rightarrow> (int \<Rightarrow> str option) \<Rightarrow> str option \<Rightarrow> 'r usr1 list \<Rightarrow> profiled \<Rightarrow> bool \<times> profiled" where
  "start_if_enabled env guard_new install us s =
     (if \<not> pprof_enabled env then (False, s)
      else dump_loop env guard_new install us
        (log_enabled s))"

section \<open>Lemmas\<close>

lemma pf_files_simps [simp]:
  "pf_files (log_msg l fs m s) = pf_files s"
  "pf_files (put_file p b s) = (pf_files s)(p \<mapsto> b)"
  "pf_files (log_enabled s) = pf_files s"
  by (simp_all add: log_msg_def put_file_def log_enabled_def)

lemma path_join_inj: "path_join d a = path_join d b \<longleftrightarrow> a = b"
  by (simp add: path_join_def)

lemma show_nat_inj: "m < 2 ^ 64 \<Longrightarrow> n < 2 ^ 64 \<Longrightarrow> show_nat m = show_nat n \<longleftrightarrow> m = n"
  using parse_digits_show by (metis option.inject)

lemma no_dot_show: "CHR ''.'' \<notin> set (show_nat n)"
  using show_nat_digits [of "CHR ''.''" n] by (auto simp: is_digit_def)

text \<open>The names of the files: a report and the second it was taken in can be told from a name.\<close>

lemma split_at_dot:
  assumes "CHR ''.'' \<notin> set a" "CHR ''.'' \<notin> set b"
  shows "a @ CHR ''.'' # x = b @ CHR ''.'' # y \<longleftrightarrow> a = b \<and> x = y"
proof -
  have "split_once (CHR ''.'') (a @ CHR ''.'' # x) = Some (a, x)"
    "split_once (CHR ''.'') (b @ CHR ''.'' # y) = Some (b, y)"
    by (rule split_once_sep, rule assms)+
  then show ?thesis by (metis option.inject prod.inject)
qed

lemma file_names:
  "svg_path d t = svg_path d t' \<longleftrightarrow> t = t'" "pb_path d t = pb_path d t' \<longleftrightarrow> t = t'"
  "svg_path d t \<noteq> pb_path d t'"
proof -
  have small: "unat t < 2 ^ 64" for t :: u64
    using unsigned_less [of t, where 'a = nat] by simp
  have digits: "show_nat (unat t) = show_nat (unat t') \<longleftrightarrow> t = t'" for t t' :: u64
    using show_nat_inj [OF small small, of t t'] word_unat_eq_iff [of t t'] by simp
  show "svg_path d t = svg_path d t' \<longleftrightarrow> t = t'" "pb_path d t = pb_path d t' \<longleftrightarrow> t = t'"
    "svg_path d t \<noteq> pb_path d t'"
    by (simp_all add: svg_path_def pb_path_def path_join_inj split_at_dot no_dot_show digits)
qed

text \<open>The two paths a signal may write.\<close>

definition dump_paths :: "environment \<Rightarrow> 'r usr1 \<Rightarrow> str set" where
  "dump_paths env u =
     {svg_path (dump_dir env) (timestamp (us_clock u)), pb_path (dump_dir env) (timestamp (us_clock u))}"

lemma dump_once_frame: "p \<notin> dump_paths env u \<Longrightarrow> pf_files (dump_once env u s) p = pf_files s p"
  by (auto simp: dump_once_def write_protobuf_def write_flamegraph_def dump_paths_def Let_def
      split: sum.splits option.splits prod.splits)

lemma serve_signals_frame:
  "(\<forall>u \<in> set us. p \<notin> dump_paths env u) \<Longrightarrow> pf_files (serve_signals env us s) p = pf_files s p"
  by (induction env us s rule: serve_signals.induct) (auto simp: dump_once_frame)

lemma serve_signals_append:
  "serve_signals env (us @ vs) s = serve_signals env vs (serve_signals env us s)"
  by (induction env us s rule: serve_signals.induct) auto

text \<open>A signal for which every step succeeds.\<close>

definition dump_succeeds :: "environment \<Rightarrow> 'r usr1 \<Rightarrow> bytes \<Rightarrow> bytes \<Rightarrow> bool" where
  "dump_succeeds env u svg pb \<longleftrightarrow>
     (\<exists>r. us_report u = Inr r \<and> us_create_dir u (dump_dir env) = None \<and>
        us_create u (svg_path (dump_dir env) (timestamp (us_clock u))) = None \<and>
        us_flamegraph u r = (svg, None) \<and> us_pprof u r = Inr pb \<and>
        us_write u (pb_path (dump_dir env) (timestamp (us_clock u))) pb = None)"

lemma dump_once_ok:
  "dump_succeeds env u svg pb \<Longrightarrow>
     pf_files (dump_once env u s) =
       (pf_files s)(svg_path (dump_dir env) (timestamp (us_clock u)) \<mapsto> svg,
                    pb_path (dump_dir env) (timestamp (us_clock u)) \<mapsto> pb)"
  by (auto simp: dump_succeeds_def dump_once_def write_flamegraph_def write_protobuf_def Let_def)


lemma start_files:
  "start_if_enabled env guard_new install us s = (running, s') \<Longrightarrow>
     pf_files s' = (if running then pf_files (serve_signals env us (log_enabled s)) else pf_files s) \<and>
     running = (pprof_enabled env \<and> guard_new SAMPLE_HZ = None \<and> install = None)"
  by (auto simp: start_if_enabled_def dump_loop_def split: option.splits if_splits)

section \<open>Properties\<close>

text \<open>C35: the profiler is off unless \<open>KEEP_SSE_PPROF\<close> is exactly \<open>1\<close>, and it never touches
  a file other than the two reports of a signal it received: a path whose content changed is
  \<open>keep-sse-<second>.svg\<close> or \<open>.pb\<close> in the output directory for the second of a signal, and then
  the sampler and the handler had been started.\<close>

theorem profiler_touches_reports:
  assumes "start_if_enabled env guard_new install us s = (running, s')" "pf_files s' p \<noteq> pf_files s p"
  shows "env ''KEEP_SSE_PPROF'' = Some ''1'' \<and> guard_new 99 = None \<and> install = None \<and>
    (\<exists>u \<in> set us. p \<in> {svg_path (dump_dir env) (timestamp (us_clock u)),
                        pb_path (dump_dir env) (timestamp (us_clock u))})"
proof -
  from start_files [OF assms(1)] assms(2) have running
    and files: "pf_files s' = pf_files (serve_signals env us (log_enabled s))"
    and on: "pprof_enabled env" "guard_new SAMPLE_HZ = None" "install = None"
    by (auto split: if_splits)
  with assms(2) have "\<not> (\<forall>u \<in> set us. p \<notin> dump_paths env u)"
    using serve_signals_frame by fastforce
  with on show ?thesis
    by (auto simp: dump_paths_def pprof_enabled_def SAMPLE_HZ_def split: option.splits)
qed

text \<open>C34: no failure ends the task. However the earlier signals went (no report, no directory, a
  file that cannot be opened or written), the task is still waiting, and a signal for which every step
  succeeds leaves its flame graph and its protobuf profile in two different files of the
  output directory and no other file changed.\<close>

theorem profiler_survives:
  assumes "pprof_enabled env" "dump_succeeds env u svg pb"
    and "p1 = svg_path (dump_dir env) (timestamp (us_clock u))"
    and "p2 = pb_path (dump_dir env) (timestamp (us_clock u))"
  shows "\<exists>s1 s2. start_if_enabled env (\<lambda>_. None) None us s = (True, s1) \<and>
    start_if_enabled env (\<lambda>_. None) None (us @ [u]) s = (True, s2) \<and>
    p1 \<noteq> p2 \<and> pf_files s2 p1 = Some svg \<and> pf_files s2 p2 = Some pb \<and>
    (\<forall>p. p \<noteq> p1 \<longrightarrow> p \<noteq> p2 \<longrightarrow> pf_files s2 p = pf_files s1 p)"
proof -
  let ?s0 = "log_enabled s"
  let ?s1 = "serve_signals env us ?s0"
  have "start_if_enabled env (\<lambda>_. None) None us s = (True, ?s1)"
    "start_if_enabled env (\<lambda>_. None) None (us @ [u]) s = (True, dump_once env u ?s1)"
    using assms(1) by (simp_all add: start_if_enabled_def dump_loop_def serve_signals_append)
  moreover have "pf_files (dump_once env u ?s1) = (pf_files ?s1)(p1 \<mapsto> svg, p2 \<mapsto> pb)"
    using dump_once_ok [OF assms(2)] assms(3,4) by simp
  moreover have "p1 \<noteq> p2" by (simp add: assms(3,4) file_names)
  ultimately show ?thesis by auto
qed

text \<open>The report names hold one second: a second signal in the same second overwrites the
  first report, signals of different seconds never share a file.\<close>

lemma dump_paths_disjoint:
  "dump_paths env u \<inter> dump_paths env v = {} \<longleftrightarrow> timestamp (us_clock u) \<noteq> timestamp (us_clock v)"
  using file_names(3) by (auto simp: dump_paths_def file_names)

section \<open>A concrete run\<close>

text \<open>A clock one second after the epoch, a sampler whose report is a number, and a disk that fails
  for the first signal and works for the second.\<close>

definition sample_signal :: "str option \<Rightarrow> nat usr1" where
  "sample_signal create_dir_error =
     \<lparr>us_report = Inr 7, us_clock = Some 1, us_create_dir = (\<lambda>_. create_dir_error),
      us_create = (\<lambda>_. None), us_flamegraph = (\<lambda>_. (''<svg/>'', None)), us_pprof = (\<lambda>_. Inr ''pb''),
      us_write = (\<lambda>_ _. None)\<rparr>"

definition sample_env :: environment where
  "sample_env = map_of [(''KEEP_SSE_PPROF'', ''1'')]"

definition sample_profiled :: profiled where
  "sample_profiled = \<lparr>pf_files = Map.empty, pf_dirs = [], pf_log = []\<rparr>"

lemma sample_paths:
  "svg_path (dump_dir sample_env) 1 = ''/tmp/keep-sse-1.svg''"
  "pb_path (dump_dir sample_env) 1 = ''/tmp/keep-sse-1.pb''"
  by (simp_all add: svg_path_def pb_path_def dump_dir_def sample_env_def path_join_def show_nat.simps)

lemma sample_signal_ok: "dump_succeeds sample_env (sample_signal None) ''<svg/>'' ''pb''"
  by (simp add: dump_succeeds_def sample_signal_def)

lemma sample_enabled: "pprof_enabled sample_env"
  by (simp add: pprof_enabled_def sample_env_def)

lemma sample_clock: "timestamp (us_clock (sample_signal e)) = 1"
  by (simp add: timestamp_def sample_signal_def)

lemma sample_files:
  "pf_files (dump_once sample_env (sample_signal None) s) =
     (pf_files s)(''/tmp/keep-sse-1.svg'' \<mapsto> ''<svg/>'', ''/tmp/keep-sse-1.pb'' \<mapsto> ''pb'')"
  using dump_once_ok [OF sample_signal_ok] by (simp only: sample_clock sample_paths)

theorem profiler_survives_witness:
  "\<exists>s2. start_if_enabled sample_env (\<lambda>_. None) None [sample_signal (Some ''denied''), sample_signal None]
      sample_profiled = (True, s2) \<and>
    pf_files s2 ''/tmp/keep-sse-1.svg'' = Some ''<svg/>'' \<and> pf_files s2 ''/tmp/keep-sse-1.pb'' = Some ''pb''"
proof -
  from profiler_survives [OF sample_enabled sample_signal_ok refl refl,
      of "[sample_signal (Some ''denied'')]" sample_profiled]
  show ?thesis unfolding sample_clock sample_paths by fastforce
qed

theorem profiler_touches_reports_witness:
  "\<exists>s'. start_if_enabled sample_env (\<lambda>_. None) None [sample_signal None] sample_profiled = (True, s') \<and>
     (\<exists>u \<in> set [sample_signal None]. ''/tmp/keep-sse-1.svg'' \<in>
        {svg_path (dump_dir sample_env) (timestamp (us_clock u)),
         pb_path (dump_dir sample_env) (timestamp (us_clock u))})"
proof -
  let ?s' = "snd (start_if_enabled sample_env (\<lambda>_. None) None [sample_signal None] sample_profiled)"
  have run: "start_if_enabled sample_env (\<lambda>_. None) None [sample_signal None] sample_profiled = (True, ?s')"
    by (simp add: start_if_enabled_def dump_loop_def sample_enabled)
  have "pf_files ?s' ''/tmp/keep-sse-1.svg'' \<noteq> pf_files sample_profiled ''/tmp/keep-sse-1.svg''"
    by (simp add: start_if_enabled_def dump_loop_def sample_enabled sample_files)
      (simp add: sample_profiled_def)
  from profiler_touches_reports [OF run this] run show ?thesis by blast
qed

end
