(* ===== verification/Server.thy ===== *)
theory Server
  imports Gateway Pprof
begin

text \<open>
  \<open>src/server.rs\<close> and \<open>src/main.rs\<close>: the accept loop and the graceful shutdown as a labelled step
  relation, \<open>shutdown_signal\<close>, and the exit of \<open>main\<close>. Time is a number of nanoseconds; a
  connection is a number, and what happens on it (hyper's HTTP/1 server calling \<open>handle\<close>) ends
  with \<open>Conn_done\<close>. Both branches of a \<open>select!\<close> may be ready at once, then either can be taken.
\<close>

section \<open>The accept loop\<close>

text \<open>\<open>Backoff t\<close>: sleeping until \<open>t\<close> after a failed accept, without looking at the shutdown.
  \<open>Draining d\<close>: waiting for the connections until \<open>d\<close>. \<open>Exited b\<close>: \<open>run\<close> has returned, by
  the end of the connections (\<open>True\<close>) or by the timeout.\<close>

datatype phase = Accepting | Backoff nat | Draining "nat option" | Exited bool

record server =
  sv_phase :: phase
  sv_conns :: "nat list"
  sv_now :: nat
  sv_shutdown :: bool

datatype server_event =
  Tick nat | Signal | Accept nat | Accept_failed | Wake | Break | Conn_done nat | Drained | Timed_out

definition BACKOFF :: nat where "BACKOFF = 100 * 1000000"

inductive server_step :: "deps \<Rightarrow> resolved_config \<Rightarrow> server \<Rightarrow> server_event \<Rightarrow> server \<Rightarrow> bool"
  for D :: deps and cfg :: resolved_config where
  tick: "sv_now s \<le> t \<Longrightarrow> server_step D cfg s (Tick t) (s\<lparr>sv_now := t\<rparr>)"
| signal: "server_step D cfg s Signal (s\<lparr>sv_shutdown := True\<rparr>)"
| accept: "sv_phase s = Accepting \<Longrightarrow> i \<notin> set (sv_conns s) \<Longrightarrow>
    server_step D cfg s (Accept i) (s\<lparr>sv_conns := i # sv_conns s\<rparr>)"
| accept_failed: "sv_phase s = Accepting \<Longrightarrow>
    server_step D cfg s Accept_failed (s\<lparr>sv_phase := Backoff (sv_now s + BACKOFF)\<rparr>)"
| wake: "sv_phase s = Backoff t \<Longrightarrow> t \<le> sv_now s \<Longrightarrow>
    server_step D cfg s Wake (s\<lparr>sv_phase := Accepting\<rparr>)"
| break: "sv_phase s = Accepting \<Longrightarrow> sv_shutdown s \<Longrightarrow>
    server_step D cfg s Break
      (s\<lparr>sv_phase := Draining (sleep_deadline D (sv_now s) (rc_shutdown_timeout cfg))\<rparr>)"
| conn_done: "i \<in> set (sv_conns s) \<Longrightarrow>
    server_step D cfg s (Conn_done i) (s\<lparr>sv_conns := remove1 i (sv_conns s)\<rparr>)"
| drained: "sv_phase s = Draining d \<Longrightarrow> sv_conns s = [] \<Longrightarrow>
    server_step D cfg s Drained (s\<lparr>sv_phase := Exited True\<rparr>)"
| timed_out: "sv_phase s = Draining (Some d) \<Longrightarrow> d \<le> sv_now s \<Longrightarrow>
    server_step D cfg s Timed_out (s\<lparr>sv_phase := Exited False\<rparr>)"

inductive_simps accept_iff: "server_step D cfg s (Accept i) s'"
inductive_simps break_iff: "server_step D cfg s Break s'"

inductive server_run :: "deps \<Rightarrow> resolved_config \<Rightarrow> server \<Rightarrow> server_event list \<Rightarrow> server \<Rightarrow> bool"
  for D :: deps and cfg :: resolved_config and s :: server where
  none: "server_run D cfg s [] s"
| more: "server_run D cfg s es s' \<Longrightarrow> server_step D cfg s' e s'' \<Longrightarrow> server_run D cfg s (es @ [e]) s''"

definition server_start :: "nat \<Rightarrow> server" where
  "server_start now = \<lparr>sv_phase = Accepting, sv_conns = [], sv_now = now, sv_shutdown = False\<rparr>"

section \<open>Signals and the exit of the program\<close>

datatype os_signal = SIGINT | SIGTERM | Other_signal

text \<open>\<open>shutdown_signal\<close> completes at a SIGINT, or at a SIGTERM when its handler was installed. The result
  of \<open>ctrl_c\<close> is not looked at: when its handler cannot be installed it ends with an error at once,
  and the shutdown begins.\<close>

definition shutdown_signal :: "bool \<Rightarrow> bool \<Rightarrow> os_signal list \<Rightarrow> bool" where
  "shutdown_signal sigint_installed sigterm_installed sigs \<longleftrightarrow>
     \<not> sigint_installed \<or> SIGINT \<in> set sigs \<or> (sigterm_installed \<and> SIGTERM \<in> set sigs)"

text \<open>The profiler of a build with the feature \<open>pprof\<close>: the environment, the errors of its start, the
  signals it will receive, and its state.\<close>

record 'r profiling =
  po_env :: environment
  po_guard_new :: "int \<Rightarrow> str option"
  po_install :: "str option"
  po_signals :: "'r usr1 list"

text \<open>\<open>main\<close>: its exit code with what it prints to standard error, and whether the profiler's task
  is there with the state it leaves. \<open>feature\<close> is \<open>None\<close> in a build without the profiler;
  \<open>bind_error\<close> is the result of binding the listener; no exit code means that \<open>server::run\<close> has
  not returned. The profiler is started before the listener is bound.\<close>

definition main_program ::
    "deps \<Rightarrow> config \<Rightarrow> 'r profiling option \<Rightarrow> (str \<Rightarrow> str option) \<Rightarrow> bool \<Rightarrow> profiled \<Rightarrow>
       (exit_code \<times> str) option \<times> bool \<times> profiled" where
  "main_program D cfg feature bind_error run_returned s =
     (case parse_or_exit D cfg of
        Inl (out, code) \<Rightarrow> (Some (code, out), False, s)
      | Inr rc \<Rightarrow>
          (let prof = (case feature of
                 None \<Rightarrow> (False, s)
               | Some po \<Rightarrow> start_if_enabled (po_env po) (po_guard_new po) (po_install po) (po_signals po) s)
           in case bind_error (rc_listen rc) of
                Some e \<Rightarrow> (Some (EXIT_FAILURE, ''keep-sse: bind '' @ rc_listen rc @ '': '' @ e), prof)
              | None \<Rightarrow> (if run_returned then Some (EXIT_SUCCESS, '''') else None, prof)))"

section \<open>Connections\<close>

text \<open>A request that arrives on a connection, with what the HTTP client will answer to the request that
  is sent for it and whether that comes within the first interval.\<close>

record arrival =
  ar_parts :: parts
  ar_body :: incoming
  ar_client :: "request \<Rightarrow> upstream_result"
  ar_race :: race

text \<open>The service of a connection is the closure that calls \<open>handle\<close> with the one configuration and
  client for each request. That HTTP/1 serves the requests of a connection one after the other, and
  that a panic ends the task of the connection, and with it the connection, is hyper's and tokio's.\<close>

fun serve_connection :: "deps \<Rightarrow> resolved_config \<Rightarrow> arrival list \<Rightarrow> sse_exchange list \<times> str option" where
  "serve_connection D cfg [] = ([], None)"
| "serve_connection D cfg (a # as) =
     (case handle D cfg (ar_client a) (ar_race a) (ar_parts a) (ar_body a) of
        Panic m \<Rightarrow> ([], Some m)
      | Ret x \<Rightarrow> (let (xs, panic) = serve_connection D cfg as in (x # xs, panic)))"

text \<open>\<open>create_client\<close>, and \<open>run_with_shutdown\<close>, which runs the server with a client of its own: the
  settings of that client and the state in which the accept loop starts.\<close>

definition create_client :: "resolved_config \<Rightarrow> client_settings" where
  "create_client cfg = build_client cfg"

definition run_with_shutdown :: "resolved_config \<Rightarrow> nat \<Rightarrow> client_settings \<times> server" where
  "run_with_shutdown cfg now = (create_client cfg, server_start now)"

section \<open>Properties\<close>

definition shutting_down :: "server \<Rightarrow> bool" where
  "shutting_down s \<longleftrightarrow> (case sv_phase s of Draining d \<Rightarrow> True | Exited b \<Rightarrow> True | _ \<Rightarrow> False)"

lemma shutting_down_refuses:
  "shutting_down s \<Longrightarrow> \<not> server_step D cfg s (Accept i) s'"
  "shutting_down s \<Longrightarrow> \<not> server_step D cfg s Break s'"
  by (auto simp: accept_iff break_iff shutting_down_def)

lemma shutting_down_step:
  assumes "server_step D cfg s e s'" "shutting_down s"
  shows "shutting_down s' \<and> set (sv_conns s') \<subseteq> set (sv_conns s) \<and> (\<forall>i. e \<noteq> Accept i)"
  using assms by cases (auto simp: shutting_down_def dest: set_remove1_subset [THEN subsetD])

lemma shutting_down_run:
  "server_run D cfg s es s' \<Longrightarrow> shutting_down s \<Longrightarrow>
     shutting_down s' \<and> set (sv_conns s') \<subseteq> set (sv_conns s) \<and> (\<forall>i. Accept i \<notin> set es)"
proof (induction rule: server_run.induct)
  case none
  then show ?case by simp
next
  case (more es s' e s'')
  with shutting_down_step [OF more.hyps(2)] show ?case by auto
qed

text \<open>C38: once the accept loop has been left, no connection is ever accepted again, and the set of
  open connections only shrinks.\<close>

theorem shutdown_accepts_nothing:
  assumes "server_run D cfg s es s'" "\<exists>d. sv_phase s = Draining d"
  shows "(\<forall>i. Accept i \<notin> set es) \<and> set (sv_conns s') \<subseteq> set (sv_conns s) \<and>
    (\<exists>d. sv_phase s' = Draining d \<or> (\<exists>b. sv_phase s' = Exited b))"
  using shutting_down_run [OF assms(1)] assms(2)
  by (auto simp: shutting_down_def split: phase.splits)

theorem shutdown_accepts_nothing_witness:
  "\<exists>s'. server_run sample_deps sample_cfg \<lparr>sv_phase = Draining (Some 9), sv_conns = [1], sv_now = 3, sv_shutdown = True\<rparr>
       [Conn_done 1] s' \<and> set (sv_conns s') \<subseteq> {1}"
proof -
  let ?s = "\<lparr>sv_phase = Draining (Some 9), sv_conns = [1], sv_now = 3, sv_shutdown = True\<rparr>"
  have "server_run sample_deps sample_cfg ?s ([] @ [Conn_done 1]) (?s\<lparr>sv_conns := remove1 1 (sv_conns ?s)\<rparr>)"
    by (rule server_run.more [OF server_run.none conn_done]) simp
  then have r: "server_run sample_deps sample_cfg ?s [Conn_done 1] (?s\<lparr>sv_conns := remove1 1 (sv_conns ?s)\<rparr>)" by simp
  from shutdown_accepts_nothing [OF r] r show ?thesis by fastforce
qed

text \<open>The invariant of the loop: the sleeps end in time, and the loop was left for a reason.\<close>

definition server_inv :: "resolved_config \<Rightarrow> server \<Rightarrow> bool" where
  "server_inv cfg s \<longleftrightarrow>
     distinct (sv_conns s) \<and>
     (case sv_phase s of
        Accepting \<Rightarrow> True
      | Backoff t \<Rightarrow> t \<le> sv_now s + BACKOFF
      | Draining d \<Rightarrow> sv_shutdown s \<and> (\<forall>t. d = Some t \<longrightarrow> t \<le> sv_now s + rc_shutdown_timeout cfg)
      | Exited b \<Rightarrow> sv_shutdown s \<and> (b \<longrightarrow> sv_conns s = []))"

lemma server_inv_step:
  assumes "server_step D cfg s e s'" "server_inv cfg s"
  shows "server_inv cfg s'"
  using assms
  by cases (auto simp: server_inv_def sleep_deadline_def split: phase.splits if_splits)

lemma server_inv_run: "server_run D cfg s es s' \<Longrightarrow> server_inv cfg s \<Longrightarrow> server_inv cfg s'"
  by (induction rule: server_run.induct) (auto dest: server_inv_step)

lemma server_inv_start: "server_inv cfg (server_start now)"
  by (simp add: server_inv_def server_start_def)

text \<open>C37: \<open>run\<close> returns only after a shutdown signal, and by the end of the connections only when none
  is open; a sleep after a failed accept ends at most 100 ms from now, and the wait for the
  connections at most the timeout from now.\<close>

theorem server_invariant:
  assumes "server_run D cfg (server_start now) es s"
  shows "(\<forall>b. sv_phase s = Exited b \<longrightarrow> sv_shutdown s \<and> (b \<longrightarrow> sv_conns s = [])) \<and>
    (\<forall>t. sv_phase s = Backoff t \<longrightarrow> t \<le> sv_now s + 100000000) \<and>
    (\<forall>t. sv_phase s = Draining (Some t) \<longrightarrow> t \<le> sv_now s + rc_shutdown_timeout cfg) \<and>
    distinct (sv_conns s)"
  using server_inv_run [OF assms server_inv_start] by (auto simp: server_inv_def BACKOFF_def)

theorem server_invariant_witness:
  "\<exists>s. server_run sample_deps sample_cfg (server_start 0) [Accept_failed] s \<and>
     (\<forall>t. sv_phase s = Backoff t \<longrightarrow> t \<le> sv_now s + 100000000)"
proof -
  have "server_run sample_deps sample_cfg (server_start 0) ([] @ [Accept_failed])
      ((server_start 0)\<lparr>sv_phase := Backoff (sv_now (server_start 0) + BACKOFF)\<rparr>)"
    by (rule server_run.more [OF server_run.none accept_failed]) (simp add: server_start_def)
  then have r: "server_run sample_deps sample_cfg (server_start 0) [Accept_failed]
      ((server_start 0)\<lparr>sv_phase := Backoff (sv_now (server_start 0) + BACKOFF)\<rparr>)" by simp
  from server_invariant [OF r] r show ?thesis by blast
qed

lemma server_run_one: "server_step D cfg s e s' \<Longrightarrow> server_run D cfg s [e] s'"
  using server_run.more [OF server_run.none] by fastforce

lemma server_run_append:
  "server_run D cfg s' fs s'' \<Longrightarrow> server_run D cfg s es s' \<Longrightarrow> server_run D cfg s (es @ fs) s''"
proof (induction rule: server_run.induct)
  case none
  then show ?case by simp
next
  case (more fs t e t')
  from server_run.more [OF more.IH [OF more.prems] more.hyps(2)] show ?case by simp
qed

text \<open>From a draining server with a deadline, waiting for it stops the server.\<close>

lemma draining_stops:
  assumes "sv_phase s = Draining (Some d)"
  shows "\<exists>es s'. server_run D cfg s es s' \<and> sv_phase s' = Exited False \<and>
    sv_now s' = max (sv_now s) d \<and> (\<forall>i. Accept i \<notin> set es \<and> Conn_done i \<notin> set es)"
proof -
  let ?t = "max (sv_now s) d"
  have "server_run D cfg s [Tick ?t] (s\<lparr>sv_now := ?t\<rparr>)" by (intro server_run_one tick) simp
  moreover have "server_run D cfg (s\<lparr>sv_now := ?t\<rparr>) [Timed_out] (s\<lparr>sv_now := ?t, sv_phase := Exited False\<rparr>)"
    using server_run_one [OF timed_out [of "s\<lparr>sv_now := ?t\<rparr>" d]] assms by simp
  ultimately have "server_run D cfg s ([Tick ?t] @ [Timed_out]) (s\<lparr>sv_now := ?t, sv_phase := Exited False\<rparr>)"
    using server_run_append by blast
  then show ?thesis
    by (intro exI [of _ "[Tick ?t] @ [Timed_out]"] exI [of _ "s\<lparr>sv_now := ?t, sv_phase := Exited False\<rparr>"]) simp
qed

lemma accepting_stops:
  assumes "sv_phase s = Accepting" "sv_shutdown s" "sv_now s + rc_shutdown_timeout cfg \<le> instant_max D"
  shows "\<exists>es s' b. server_run D cfg s es s' \<and> sv_phase s' = Exited b \<and>
    sv_now s' \<le> sv_now s + rc_shutdown_timeout cfg \<and> (\<forall>i. Accept i \<notin> set es \<and> Conn_done i \<notin> set es)"
proof -
  let ?s = "s\<lparr>sv_phase := Draining (sleep_deadline D (sv_now s) (rc_shutdown_timeout cfg))\<rparr>"
  have "sv_phase ?s = Draining (Some (sv_now s + rc_shutdown_timeout cfg))"
    using assms(3) by (simp add: sleep_deadline_def)
  from draining_stops [OF this, of D cfg] obtain es s' where
    "server_run D cfg ?s es s'" "sv_phase s' = Exited False" "sv_now s' = sv_now s + rc_shutdown_timeout cfg"
    "\<forall>i. Accept i \<notin> set es \<and> Conn_done i \<notin> set es" by auto
  moreover have "server_run D cfg s [Break] ?s" using assms(1,2) by (intro server_run_one break)
  ultimately have "server_run D cfg s ([Break] @ es) s'" by (blast intro: server_run_append)
  with \<open>sv_phase s' = Exited False\<close> \<open>sv_now s' = _\<close> \<open>\<forall>i. _\<close> show ?thesis
    by (intro exI [of _ "[Break] @ es"] exI [of _ s'] exI [of _ False]) simp
qed

text \<open>C36: after a shutdown signal the server can always stop within 100 ms (when it is asleep after a
  failed accept) plus the shutdown timeout, without accepting another connection and without the
  help of the open connections.\<close>

theorem shutdown_completes:
  assumes "server_run D cfg (server_start now) hist s" "sv_shutdown s"
    and "sv_now s + BACKOFF + rc_shutdown_timeout cfg \<le> instant_max D"
    and "\<forall>d. sv_phase s = Draining d \<longrightarrow> d \<noteq> None"
  shows "\<exists>es s' b. server_run D cfg s es s' \<and> sv_phase s' = Exited b \<and>
    sv_now s' \<le> sv_now s + 100000000 + rc_shutdown_timeout cfg \<and> (\<forall>i. Accept i \<notin> set es \<and> Conn_done i \<notin> set es)"
proof -
  have inv: "server_inv cfg s" using server_inv_run [OF assms(1) server_inv_start] .
  show ?thesis
  proof (cases "sv_phase s")
    case Accepting
    obtain es s' b where "server_run D cfg s es s'" "sv_phase s' = Exited b"
      "sv_now s' \<le> sv_now s + rc_shutdown_timeout cfg" "\<forall>i. Accept i \<notin> set es \<and> Conn_done i \<notin> set es"
      using accepting_stops [OF Accepting assms(2), of cfg D] assms(3) by auto
    then show ?thesis by (intro exI [of _ es] exI [of _ s'] exI [of _ b]) simp
  next
    case (Backoff t)
    let ?n = "max (sv_now s) t"
    let ?s = "s\<lparr>sv_now := ?n, sv_phase := Accepting\<rparr>"
    have n: "?n \<le> sv_now s + BACKOFF" using inv Backoff by (simp add: server_inv_def)
    have "server_run D cfg s ([Tick ?n] @ [Wake]) ?s"
      using server_run_append [OF server_run_one [OF wake [of "s\<lparr>sv_now := ?n\<rparr>" t]] server_run_one [OF tick [of s ?n]]]
        Backoff by simp
    moreover obtain es s' b where s': "server_run D cfg ?s es s'" "sv_phase s' = Exited b"
      "sv_now s' \<le> ?n + rc_shutdown_timeout cfg" "\<forall>i. Accept i \<notin> set es \<and> Conn_done i \<notin> set es"
      using accepting_stops [of ?s cfg D] assms(2,3) n by auto
    ultimately have "server_run D cfg s (([Tick ?n] @ [Wake]) @ es) s'" by (blast intro: server_run_append)
    with s' n show ?thesis
      by (intro exI [of _ "([Tick ?n] @ [Wake]) @ es"] exI [of _ s'] exI [of _ b]) (simp add: BACKOFF_def)
  next
    case (Draining d)
    with assms(4) obtain t where t: "d = Some t" by auto
    then have "t \<le> sv_now s + rc_shutdown_timeout cfg" using inv Draining by (simp add: server_inv_def)
    moreover obtain es s' where "server_run D cfg s es s'" "sv_phase s' = Exited False"
      "sv_now s' = max (sv_now s) t" "\<forall>i. Accept i \<notin> set es \<and> Conn_done i \<notin> set es"
      using draining_stops [of s t D cfg] Draining t by auto
    ultimately show ?thesis by (intro exI [of _ es] exI [of _ s'] exI [of _ False]) simp
  next
    case (Exited b)
    then show ?thesis
      by (intro exI [of _ "[]"] exI [of _ s] exI [of _ b]) (simp add: server_run.none)
  qed
qed

theorem shutdown_completes_witness:
  "\<exists>es s' b. server_run sample_deps sample_cfg (server_start 5\<lparr>sv_shutdown := True\<rparr>) es s' \<and>
     sv_phase s' = Exited b \<and> sv_now s' \<le> 5 + 100000000 + 30000000000"
proof -
  have "server_run sample_deps sample_cfg (server_start 5) [Signal] (server_start 5\<lparr>sv_shutdown := True\<rparr>)"
    by (intro server_run_one signal)
  from shutdown_completes [OF this] show ?thesis
    by (simp add: server_start_def sample_max sample_cfg_def BACKOFF_def) blast
qed



section \<open>Every request is answered\<close>

lemma serve_connection_total:
  assumes "\<And>a. a \<in> set as \<Longrightarrow> \<exists>x. handle D cfg (ar_client a) (ar_race a) (ar_parts a) (ar_body a) = Ret x"
  shows "\<exists>xs. serve_connection D cfg as = (xs, None) \<and>
    list_all2 (\<lambda>a x. handle D cfg (ar_client a) (ar_race a) (ar_parts a) (ar_body a) = Ret x) as xs"
  using assms
proof (induction as)
  case Nil
  then show ?case by simp
next
  case (Cons a as)
  from Cons.prems obtain x where "handle D cfg (ar_client a) (ar_race a) (ar_parts a) (ar_body a) = Ret x"
    by (metis list.set_intros(1))
  moreover from Cons.IH Cons.prems obtain xs where "serve_connection D cfg as = (xs, None)"
    "list_all2 (\<lambda>a x. handle D cfg (ar_client a) (ar_race a) (ar_parts a) (ar_body a) = Ret x) as xs"
    by auto
  ultimately show ?case by (intro exI [of _ "x # xs"]) simp
qed

text \<open>C14: from the command line to the last request of a connection. When the program has accepted
  its configuration, no connection is ever lost to a panic: whatever requests arrive on it, in
  any number, and whatever the upstream answers, each of them is answered, in order, by what
  \<open>handle\<close> makes of that request alone.\<close>

theorem connection_answers_all:
  assumes "uri_ok D" "uri_parse_ok D" "json_total D" "parse_or_exit D args = Inr cfg"
    and "\<forall>a \<in> set as. uri_from_parts D (p_uri (ar_parts a)) = Some (p_uri (ar_parts a))"
  shows "\<exists>xs. serve_connection D cfg as = (xs, None) \<and> length xs = length as \<and>
    (\<forall>i < length as. handle D cfg (ar_client (as ! i)) (ar_race (as ! i)) (ar_parts (as ! i)) (ar_body (as ! i)) =
       Ret (xs ! i))"
proof -
  have "resolved_config_parse D args = Inr cfg"
    using assms(4) by (simp add: parse_or_exit_def split: sum.splits)
  then have "config_ok D cfg" by (rule resolved_config_ok [OF assms(2)])
  from handle_sends [OF assms(1) this _ assms(3)] assms(5)
  have "\<exists>x. handle D cfg (ar_client a) (ar_race a) (ar_parts a) (ar_body a) = Ret x" if "a \<in> set as" for a
    using that by blast
  then obtain xs where "serve_connection D cfg as = (xs, None)"
    "list_all2 (\<lambda>a x. handle D cfg (ar_client a) (ar_race a) (ar_parts a) (ar_body a) = Ret x) as xs"
    using serve_connection_total [of as D cfg] by blast
  then show ?thesis by (auto simp: list_all2_conv_all_nth)
qed

theorem connection_answers_all_witness:
  "\<exists>cfg xs. parse_or_exit sample_deps (config_of_args None ''http://up:80'' None None None None) = Inr cfg \<and>
     serve_connection sample_deps cfg
       (replicate 2 \<lparr>ar_parts = \<lparr>p_method = ''GET'',
            p_uri = \<lparr>u_scheme = None, u_authority = None, u_path_and_query = Some ''/v1/models''\<rparr>, p_headers = []\<rparr>,
          ar_body = [], ar_client = (\<lambda>r. Inl ''refused''), ar_race = Timer_first\<rparr>) = (xs, None) \<and> length xs = 2"
proof -
  let ?a = "\<lparr>ar_parts = \<lparr>p_method = ''GET'',
      p_uri = \<lparr>u_scheme = None, u_authority = None, u_path_and_query = Some ''/v1/models''\<rparr>, p_headers = []\<rparr>,
    ar_body = [], ar_client = (\<lambda>r. Inl ''refused''), ar_race = Timer_first\<rparr>"
  obtain cfg where "parse_or_exit sample_deps (config_of_args None ''http://up:80'' None None None None) = Inr cfg"
    by (auto simp: parse_or_exit_def resolved_config_parse_def config_of_args_def sample_deps_def visible_def)
  moreover have "\<forall>a \<in> set (replicate 2 ?a). uri_from_parts sample_deps (p_uri (ar_parts a)) = Some (p_uri (ar_parts a))"
    using sample_uri_valid by simp
  ultimately show ?thesis
    using connection_answers_all [OF sample_uri_ok sample_uri_parse_ok sample_json_total] by fastforce
qed

end
