(* ===== verification/Codec.thy ===== *)
theory Codec
  imports Gateway
begin

text \<open>
  Round trips through the content codings. The encoders (of the same crate as the decoders, used
  by the client, the upstream and the tests of \<open>src/encoding.rs\<close>) are a parameter, and what is
  known of them is that the decoder gives back what was encoded. From that: decoding with a limit
  gives back the input when it fits, a compressed request is recognised like the plain one, and
  the events of a compressed upstream stream reach the client.
\<close>

section \<open>Encoders\<close>

record encoders =
  gzip_encoder :: "bytes \<Rightarrow> bytes"
  zlib_encoder :: "bytes \<Rightarrow> bytes"
  brotli_encoder :: "bytes \<Rightarrow> bytes"
  zstd_encoder :: "bytes \<Rightarrow> bytes"

definition encode_once :: "encoders \<Rightarrow> coding \<Rightarrow> bytes \<Rightarrow> bytes" where
  "encode_once E c input =
     (case c of
        Gzip \<Rightarrow> gzip_encoder E input
      | Deflate \<Rightarrow> zlib_encoder E input
      | Br \<Rightarrow> brotli_encoder E input
      | Zstd \<Rightarrow> zstd_encoder E input
      | Identity \<Rightarrow> input)"

text \<open>What the crate promises: a decoder that reads the whole output of the encoder delivers the
  input and ends without an error.\<close>

definition codecs_ok :: "deps \<Rightarrow> encoders \<Rightarrow> bool" where
  "codecs_ok D E \<longleftrightarrow>
     (\<forall>b. gzip_decoder D (slice_reader (gzip_encoder E b)) = slice_reader b \<and>
          zlib_decoder D (slice_reader (zlib_encoder E b)) = slice_reader b \<and>
          brotli_decoder D (slice_reader (brotli_encoder E b)) = slice_reader b \<and>
          zstd_decoder D (slice_reader (zstd_encoder E b)) = slice_reader b)"

lemma decoder_encode: "codecs_ok D E \<Longrightarrow> decoder_reader D c (slice_reader (encode_once E c b)) = slice_reader b"
  by (cases c) (simp_all add: decoder_reader_def encode_once_def codecs_ok_def)

section \<open>Decoding what was encoded\<close>

lemma decode_encode:
  assumes "codecs_ok D E" "m \<noteq> - 1"
  shows "length b \<le> unat m \<Longrightarrow> decode_bytes D c (encode_once E c b) m = Inr b"
    and "unat m < length b \<Longrightarrow> \<exists>msg. decode_bytes D c (encode_once E c b) m = Inl (IoError InvalidData msg)"
proof -
  have "decode_bytes D c (encode_once E c b) m =
      (if c = Identity then decode_bytes D c b m else decode_async (slice_reader b) m)"
    using decode_bytes_reader [of c D "encode_once E c b" m] decoder_encode [OF assms(1), of c b]
    by (cases c) (auto simp: encode_once_def)
  then show "length b \<le> unat m \<Longrightarrow> decode_bytes D c (encode_once E c b) m = Inr b"
    "unat m < length b \<Longrightarrow> \<exists>msg. decode_bytes D c (encode_once E c b) m = Inl (IoError InvalidData msg)"
    by (auto simp: decode_async_simp [OF assms(2)] slice_reader_def decode_bytes_def)
qed

text \<open>C30: what was encoded with a coding is decoded to itself by \<open>decode_bytes\<close>, for every coding
  and every limit below the largest \<open>usize\<close>, exactly when it is within the limit; otherwise the
  result is an \<open>InvalidData\<close> error, never a shorter or longer text.\<close>

theorem decode_encode_roundtrip:
  assumes "codecs_ok D E" "m \<noteq> - 1"
  shows "(decode_bytes D c (encode_once E c b) m = Inr b \<longleftrightarrow> length b \<le> unat m) \<and>
    (\<forall>out. decode_bytes D c (encode_once E c b) m = Inr out \<longrightarrow> out = b) \<and>
    (\<forall>e. decode_bytes D c (encode_once E c b) m = Inl e \<longrightarrow> (\<exists>msg. e = IoError InvalidData msg))"
  using decode_encode [OF assms, of b c] by (cases "length b \<le> unat m") auto

section \<open>A compressed request\<close>

lemma probe_body_encoded:
  assumes "codecs_ok D E" "rc_max_probe_body cfg \<noteq> - 1" "parse_content_encoding D h = Some c"
  shows "probe_body D cfg h (encode_once E c plain) =
    (if length plain \<le> unat (rc_max_probe_body cfg) then plain else [])"
  using decode_encode [OF assms(1,2), of plain c]
  by (cases "length plain \<le> unat (rc_max_probe_body cfg)") (auto simp: probe_body_def assms(3))

text \<open>C13: a compressed request is treated as the request it encodes. For a known endpoint whose
  body, in any chunks, is the encoding of a text in the coding its header names, the gateway
  keeps the connection alive exactly when it would for the plain text: by the endpoint, by the
  \<open>Accept\<close> header, or by the \<open>stream\<close> field of the text. The limit applies to both sizes: a text
  that grows above \<open>--max-probe-body\<close> when decoded is not looked at.\<close>

theorem compressed_request_probed:
  assumes "uri_ok D" "config_ok D cfg" "uri_from_parts D (p_uri p) = Some (p_uri p)" "json_total D" "limited_ok D"
    and "codecs_ok D E" "rc_max_probe_body cfg \<noteq> - 1" "probe_from_slice D [] = None"
    and "endpoint D p = Some kind" "declared_within D cfg p" "parse_content_encoding D (p_headers p) = Some c"
    and "body = map Inr cs" "concat cs = encode_once E c plain" "length (concat cs) \<le> unat (rc_max_probe_body cfg)"
  shows "kept_alive (handle D cfg client Timer_first p body) \<longleftrightarrow>
    kind = GeminiStream \<or> accepts_event_stream D (p_headers p) \<or>
    (length plain \<le> unat (rc_max_probe_body cfg) \<and> probe_stream_flag D plain)"
proof -
  have "limited_collect D (rc_max_probe_body cfg) body = Inr (encode_once E c plain)"
    using assms(5,12-14) unfolding limited_ok_def by simp
  then have "kept_alive (handle D cfg client Timer_first p body) \<longleftrightarrow>
      wants_stream D cfg p (encode_once E c plain) kind"
    using handle_stream_answers(1) [OF assms(1-3) refl] kept_alive_proxy [OF assms(1-4)]
    by (simp add: handle_probed [OF assms(9,10)] proxy_buffered_def)
  then show ?thesis
    using assms(8) by (simp add: wants_stream_def probe_body_encoded [OF assms(6,7,11)]
        probe_stream_flag_def parse_probe_def)
qed

section \<open>A compressed event stream\<close>

lemma items_data: "items_bytes (map Inr cs) = concat cs" "items_error (map Inr cs) = None"
  using items_bytes_append_Inr [of cs "[]"] items_error_append_Inr [of cs "[]"] by simp_all

lemma stream_reader_slice:
  assumes "streams_ok D"
  shows "stream_reader D (body_to_io_stream (map Inr cs)) = slice_reader (concat cs)"
proof -
  have "body_to_io_stream (map Inr cs) = map Inr cs" by (simp add: body_to_io_stream_def)
  moreover have "delivered (stream_reader D (map Inr cs)) = concat cs" "failure (stream_reader D (map Inr cs)) = None"
    using assms by (simp_all add: streams_ok_def items_data)
  ultimately show ?thesis by (simp add: slice_reader_def)
qed

lemma success_outcome_encoded:
  assumes "streams_ok D" "codecs_ok D E" "concat cs = encode_once E c plain"
  shows "success_outcome D kind (Some c) (map Inr cs) = (plain, None)"
proof -
  have "decoder_stream D c (map Inr cs) = reader_stream D (slice_reader plain)"
    by (simp add: decoder_stream_reader stream_reader_slice [OF assms(1)] assms(3) decoder_encode [OF assms(2)])
  then show ?thesis
    using reader_stream_items [OF assms(1), of "slice_reader plain"]
    by (simp add: success_outcome_def slice_reader_def Let_def)
qed

lemma run_spawned_serves:
  assumes "memchr2_ok D" "json_total D" "json_one_line D"
    and "run_spawned D sp (writer_new None) now0 es = r"
  shows "serves D (case sp of Spawn_Bridge k _ _ \<Rightarrow> k | Spawn_Success k _ _ _ \<Rightarrow> k)
    (case sp of Spawn_Bridge k _ up \<Rightarrow> outcome D k up
     | Spawn_Success k _ c body \<Rightarrow> success_outcome D k (Some c) body)
    (sent (writer (fst r))) (snd r)"
proof (cases sp)
  case (Spawn_Bridge k iv up)
  with assms(4) show ?thesis
    using bridge_serves [OF assms(1-3), of k iv now0 up es r] by (simp add: run_spawned_def)
next
  case (Spawn_Success k iv c body)
  let ?s = "\<lparr>writer = writer_new None, heartbeat = sleep_deadline D now0 iv\<rparr>"
  have "live ?s" "sent (writer ?s) = replicate 0 HEARTBEAT" by (simp_all add: live_def writer_new_def)
  from handle_success_serves [OF assms(1-3) this, of k iv "Some c" body es r] Spawn_Success assms(4)
  show ?thesis by (simp add: run_spawned_def)
qed

text \<open>C10: an event stream that the upstream sends compressed, in any coding and cut into any chunks,
  is received as the stream that was compressed: whichever task feeds the response (started
  within the window or after it) and whatever the schedule, the client has received, once the task
  has returned, exactly the events of the plain stream, and before that those of a prefix of it.\<close>

theorem compressed_stream_events:
  assumes "memchr2_ok D" "json_total D" "json_one_line D" "streams_ok D" "codecs_ok D E"
    and "concat cs = encode_once E c plain"
    and "up_body up = map Inr cs" "parse_content_encoding D (up_headers up) = Some c" "is_success (up_status up)"
    and "sp = Spawn_Bridge kind interval (Inr up) \<or> sp = Spawn_Success kind interval c (up_body up)"
  shows "let r = run_spawned D sp (writer_new None) now0 es in
    if snd r = Returned then events_of (task_body r) = events_of plain
    else \<exists>q. prefix q plain \<and> events_of (task_body r) = events_of q"
proof -
  have "success_outcome D kind (Some c) (up_body up) = (plain, None)"
    using success_outcome_encoded [OF assms(4-6)] assms(7) by simp
  then have "(case sp of Spawn_Bridge k _ u \<Rightarrow> outcome D k u
      | Spawn_Success k _ ce b \<Rightarrow> success_outcome D k (Some ce) b) = (plain, None)"
    using assms(8-10) by (auto simp: outcome_def)
  with run_spawned_serves [OF assms(1-3) refl, of sp now0 es] show ?thesis
    by (simp add: serves_def outcome_events_def task_body_def writer_end_def Let_def split: if_split_asm)
qed

section \<open>A concrete instance\<close>

text \<open>A stand-in for a compressed format: one magic byte, then the text. The decoder refuses any other
  first byte.\<close>

definition magic_decoder :: "reader \<Rightarrow> reader" where
  "magic_decoder r =
     (case delivered r of
        CHR ''z'' # b \<Rightarrow> r\<lparr>delivered := b\<rparr>
      | _ \<Rightarrow> \<lparr>delivered = [], failure = Some (IoError External ''invalid header'')\<rparr>)"

definition codec_deps :: deps where
  "codec_deps = sample_deps\<lparr>gzip_decoder := magic_decoder\<rparr>"

definition codec_encoders :: encoders where
  "codec_encoders = \<lparr>gzip_encoder = (#) (CHR ''z''), zlib_encoder = id, brotli_encoder = id, zstd_encoder = id\<rparr>"

lemma codec_deps_same:
  "memchr2_ok codec_deps = memchr2_ok sample_deps" "json_total codec_deps = json_total sample_deps"
  "json_one_line codec_deps = json_one_line sample_deps" "streams_ok codec_deps = streams_ok sample_deps"
  "uri_ok codec_deps = uri_ok sample_deps" "limited_ok codec_deps = limited_ok sample_deps"
  "config_ok codec_deps = config_ok sample_deps"
  by (simp_all add: fun_eq_iff codec_deps_def memchr2_ok_def json_total_def json_one_line_def
      streams_ok_def uri_ok_def limited_ok_def config_ok_def split: option.split)

lemma codec_deps_codecs: "codecs_ok codec_deps codec_encoders"
  by (simp add: codecs_ok_def codec_deps_def codec_encoders_def magic_decoder_def slice_reader_def)
    (simp add: sample_deps_def)

lemmas codec_deps_ok = codec_deps_codecs sample_memchr2_ok [folded codec_deps_same(1)]
  sample_json_total [folded codec_deps_same(2)] sample_json_one_line [folded codec_deps_same(3)]
  sample_streams_ok [folded codec_deps_same(4)] sample_uri_ok [folded codec_deps_same(5)]
  sample_limited_ok [folded codec_deps_same(6)] sample_cfg_ok [folded codec_deps_same(7)]

lemma codec_gzip: "parse_content_encoding codec_deps [(''content-encoding'', ''gzip'')] = Some Gzip"
proof -
  have "str_trim ''gzip'' = ''gzip''"
    by (simp add: str_trim_def trim_start.simps trim_end.simps white_space_def ends_with_def)
  moreover have "coding_parse ''gzip'' = Some Gzip" by code_simp
  ultimately show ?thesis
    by (simp add: parse_content_encoding_def hm_get_all_def codec_deps_def sample_deps_def visible_def Let_def)
qed

theorem decode_encode_roundtrip_witness:
  "decode_bytes codec_deps Gzip ''zab'' 2 = Inr ''ab'' \<and> decode_bytes codec_deps Gzip ''zab'' 1 \<noteq> Inr ''ab''"
  using decode_encode_roundtrip [OF codec_deps_ok(1), of 2 Gzip "''ab''"]
    decode_encode_roundtrip [OF codec_deps_ok(1), of 1 Gzip "''ab''"]
  by (simp add: encode_once_def codec_encoders_def)

theorem compressed_request_probed_witness:
  "kept_alive (handle codec_deps sample_cfg (\<lambda>r. Inl ''refused'') Timer_first
     \<lparr>p_method = ''POST'', p_uri = \<lparr>u_scheme = None, u_authority = None, u_path_and_query = Some ''/v1/responses''\<rparr>,
      p_headers = [(''content-encoding'', ''gzip'')]\<rparr> [Inr ''z{\"stream\"'', Inr '':true}''])"
proof -
  let ?p = "\<lparr>p_method = ''POST'', p_uri = \<lparr>u_scheme = None, u_authority = None, u_path_and_query = Some ''/v1/responses''\<rparr>,
      p_headers = [(''content-encoding'', ''gzip'')]\<rparr>"
  have "uri_from_parts codec_deps (p_uri ?p) = Some (p_uri ?p)"
    using sample_uri_valid by (simp add: codec_deps_def)
  moreover have "endpoint codec_deps ?p = Some Responses"
    by (simp add: endpoint_def match_endpoint_def ends_with_def codec_deps_def sample_deps_def)
  moreover have "declared_within codec_deps sample_cfg ?p"
    by (simp add: declared_within_def content_length_def hm_get_def hm_get_all_def)
  moreover have "probe_stream_flag codec_deps ''{\"stream\":true}''" "probe_from_slice codec_deps [] = None"
    by (simp_all add: probe_stream_flag_def parse_probe_def codec_deps_def sample_deps_def)
  moreover have "concat [''z{\"stream\"'', '':true}''] = encode_once codec_encoders Gzip ''{\"stream\":true}''"
    by (simp add: encode_once_def codec_encoders_def)
  moreover have "rc_max_probe_body sample_cfg = 64" by (simp add: sample_cfg_def)
  ultimately show ?thesis
    using compressed_request_probed [OF codec_deps_ok(6,8) _ codec_deps_ok(3,7,1), of ?p Responses Gzip
        "map Inr [''z{\"stream\"'', '':true}'']" "[''z{\"stream\"'', '':true}'']" "''{\"stream\":true}''" "\<lambda>r. Inl ''refused''"]
    by (simp add: codec_gzip encode_once_def codec_encoders_def)
qed

theorem compressed_stream_events_witness:
  "let r = run_spawned codec_deps (Spawn_Success ChatCompletions 60 Gzip [Inr ''zdata'', Inr '': x''])
       (writer_new None) 0 [Ready 1, Fire 61]
   in if snd r = Returned then events_of (task_body r) = events_of ''data: x''
      else \<exists>q. prefix q ''data: x'' \<and> events_of (task_body r) = events_of q"
proof -
  let ?up = "\<lparr>up_status = 200, up_headers = [(''content-encoding'', ''gzip'')], up_body = map Inr [''zdata'', '': x'']\<rparr>"
  have "concat [''zdata'', '': x''] = encode_once codec_encoders Gzip ''data: x''"
    by (simp add: encode_once_def codec_encoders_def)
  from compressed_stream_events [OF codec_deps_ok(2-5,1) this, of ?up, OF _ _ _ disjI2 [OF refl],
      of ChatCompletions 60 0 "[Ready 1, Fire 61]"]
  show ?thesis by (simp add: codec_gzip is_success_def)
qed

end
