(* ===== verification/Messages.thy ===== *)
theory Messages
  imports Gateway
begin

text \<open>
  The types that hyper enforces at its boundary and the program relies on: a header name is a lower
  case token, a header value has no control character, a status is a three digit number. The
  lemmas show, operation by operation, that well-formed messages are turned into well-formed
  messages, and that the framing of every message is left to the server: no hop-by-hop header is
  copied, and a body written by a task never carries a length or a coding of the upstream.
\<close>

section \<open>Well-formed messages\<close>

definition token_char :: "char \<Rightarrow> bool" where
  "token_char c \<longleftrightarrow>
     c \<in> set ''abcdefghijklmnopqrstuvwxyz0123456789!#$%&*+-.^_`|~'' \<or> c = CHR 0x27"

definition value_char :: "char \<Rightarrow> bool" where
  "value_char c \<longleftrightarrow> (32 \<le> byte_val c \<and> byte_val c \<noteq> 127) \<or> c = CHR 0x09"

definition wf_headers :: "header_map \<Rightarrow> bool" where
  "wf_headers h \<longleftrightarrow> (\<forall>(n, v) \<in> set h. n \<noteq> [] \<and> list_all token_char n \<and> list_all value_char v)"

definition wf_status :: "status_code \<Rightarrow> bool" where
  "wf_status s \<longleftrightarrow> 100 \<le> s \<and> s < 1000"

definition wf_upstream :: "upstream_result \<Rightarrow> bool" where
  "wf_upstream r \<longleftrightarrow>
     (case r of Inl e \<Rightarrow> True | Inr up \<Rightarrow> wf_status (up_status up) \<and> wf_headers (up_headers up))"

text \<open>No header of a single connection is left.\<close>

definition no_hop_headers :: "header_map \<Rightarrow> bool" where
  "no_hop_headers h \<longleftrightarrow> (\<forall>n \<in> insert ''connection'' (set HOP_BY_HOP). hm_get_all h n = [])"

definition own_framing :: "'t response \<Rightarrow> bool" where
  "own_framing r \<longleftrightarrow>
     (case rs_body r of
        Resp_Task t \<Rightarrow> hm_get_all (rs_headers r) ''content-length'' = [] \<and>
                       hm_get_all (rs_headers r) ''content-encoding'' = []
      | _ \<Rightarrow> True)"

definition wf_response :: "'t response \<Rightarrow> bool" where
  "wf_response r \<longleftrightarrow>
     wf_status (rs_status r) \<and> wf_headers (rs_headers r) \<and> no_hop_headers (rs_headers r) \<and> own_framing r"

definition wf_sent :: "request option \<Rightarrow> bool" where
  "wf_sent s \<longleftrightarrow> (case s of None \<Rightarrow> True | Some rq \<Rightarrow> wf_headers (p_headers rq) \<and> no_hop_headers (p_headers rq))"

text \<open>\<open>HeaderValue::from_str\<close> accepts visible ASCII only.\<close>

definition header_values_ok :: "deps \<Rightarrow> bool" where
  "header_values_ok D \<longleftrightarrow> (\<forall>s v. header_value_from_str D s = Some v \<longrightarrow> list_all value_char v)"

section \<open>Preservation by the operations on headers\<close>

named_theorems wf_intros \<open>preservation of well-formed messages\<close>

lemma wf_headers_Nil [wf_intros]: "wf_headers []"
  by (simp add: wf_headers_def)

lemma wf_headers_remove [wf_intros]: "wf_headers h \<Longrightarrow> wf_headers (hm_remove n h)"
  by (auto simp: wf_headers_def hm_remove_def)

lemma wf_headers_insert:
  "wf_headers h \<Longrightarrow> n \<noteq> [] \<Longrightarrow> list_all token_char n \<Longrightarrow> list_all value_char v \<Longrightarrow> wf_headers (hm_insert n v h)"
  by (auto simp: wf_headers_def hm_insert_def hm_remove_def)

lemma wf_headers_strip [wf_intros]: "wf_headers h \<Longrightarrow> wf_headers (strip_hop_by_hop D h)"
  by (auto simp: wf_headers_def strip_filter)

lemma no_hop_strip [wf_intros]: "no_hop_headers (strip_hop_by_hop D h)"
  by (simp add: no_hop_headers_def get_all_strip hop_names_def)

lemma no_hop_remove [wf_intros]: "no_hop_headers h \<Longrightarrow> no_hop_headers (hm_remove n h)"
  by (simp add: no_hop_headers_def header_laws)

lemma no_hop_insert:
  "no_hop_headers h \<Longrightarrow> n \<notin> insert ''connection'' (set HOP_BY_HOP) \<Longrightarrow> no_hop_headers (hm_insert n v h)"
  by (auto simp: no_hop_headers_def header_laws)

lemma no_hop_Nil [wf_intros]: "no_hop_headers []"
  by (simp add: no_hop_headers_def hm_get_all_def)

text \<open>The headers the program writes itself.\<close>

lemma wf_own_headers [wf_intros]:
  "wf_headers h \<Longrightarrow> wf_headers (hm_insert ''content-type'' ''application/json'' h)"
  "wf_headers h \<Longrightarrow> wf_headers (hm_insert ''content-type'' ''text/event-stream; charset=utf-8'' h)"
  "wf_headers h \<Longrightarrow> wf_headers (hm_insert ''cache-control'' ''no-cache'' h)"
  "wf_headers h \<Longrightarrow> wf_headers (hm_insert ''x-accel-buffering'' ''no'' h)"
  "wf_headers h \<Longrightarrow> list_all value_char v \<Longrightarrow> wf_headers (hm_insert ''host'' v h)"
  by (simp_all add: wf_headers_insert token_char_def value_char_def)

lemma no_hop_own_headers [wf_intros]:
  "no_hop_headers h \<Longrightarrow> no_hop_headers (hm_insert ''content-type'' v h)"
  "no_hop_headers h \<Longrightarrow> no_hop_headers (hm_insert ''cache-control'' v h)"
  "no_hop_headers h \<Longrightarrow> no_hop_headers (hm_insert ''x-accel-buffering'' v h)"
  by (simp_all add: no_hop_insert HOP_BY_HOP_def)

section \<open>Preservation by the responses\<close>

lemma wf_passthrough:
  "wf_upstream (Inr up) \<Longrightarrow> wf_response (passthrough_response D up)"
  by (simp add: wf_upstream_def wf_response_def passthrough_response_def own_framing_def wf_intros)

lemma wf_passthrough_sse:
  "wf_upstream (Inr up) \<Longrightarrow> wf_response (passthrough_sse_response D up kind ce interval)"
  by (simp add: wf_upstream_def wf_response_def own_framing_def passthrough_sse_response_def Let_def
      wf_intros header_laws)

lemma wf_keepalive: "wf_response (keepalive_response kind interval up)"
  by (simp add: wf_response_def own_framing_def keepalive_response_def wf_status_def
      wf_intros header_laws)
    (simp add: hm_get_all_def)

lemma wf_json_error:
  "json_error_response D st msg ty = Ret r \<Longrightarrow> wf_status st \<Longrightarrow> wf_response r"
  by (auto simp: json_error_response_def rs_bind_Ret_iff wf_response_def own_framing_def
      wf_intros)

lemma wf_own_errors:
  "bad_gateway D e = Ret r \<Longrightarrow> wf_response r" "response_413 D = Ret r' \<Longrightarrow> wf_response r'"
  "response_400 D = Ret r' \<Longrightarrow> wf_response r'"
  unfolding bad_gateway_def response_413_def response_400_def
  by (erule wf_json_error, simp add: wf_status_def)+

lemma wf_rewrite:
  assumes "rewrite_request D cfg req = Ret rq" "wf_headers (p_headers req)" "header_values_ok D"
  shows "wf_sent (Some rq)"
proof -
  from assms(1) obtain hv where "header_value_from_str D (rc_upstream_authority cfg) = Some hv"
    "p_headers rq = strip_hop_by_hop D (rewrite_host hv (p_headers req))"
    by (auto simp: rewrite_request_def rs_bind_Ret_iff expect_def split: option.splits)
  moreover from this(1) assms(3) have "list_all value_char hv" by (simp add: header_values_ok_def)
  ultimately show ?thesis
    using assms(2) by (simp add: wf_sent_def rewrite_host_def wf_intros)
qed

section \<open>Preservation by the paths\<close>

lemma wf_proxy_req:
  assumes "proxy_req D cfg client req = Ret (s, r)" "wf_headers (p_headers req)" "header_values_ok D"
    and "\<And>rq. wf_upstream (client rq)"
  shows "wf_sent s \<and> wf_response r"
proof -
  from assms(1) obtain rq where rq: "rewrite_request D cfg req = Ret rq" "s = Some rq"
    and r: "(case client rq of Inr resp \<Rightarrow> Ret (passthrough_response D resp) | Inl e \<Rightarrow> bad_gateway D e) = Ret r"
    by (auto simp: proxy_req_def rs_bind_Ret_iff)
  have "wf_response r"
    using r assms(4) [of rq] wf_passthrough wf_own_errors(1) by (cases "client rq") fastforce+
  with wf_rewrite [OF rq(1) assms(2,3)] rq(2) show ?thesis by simp
qed

lemma wf_handle_stream:
  assumes "handle_stream D cfg client race p body kind = Ret (s, r)" "wf_headers (p_headers p)" "header_values_ok D"
    and "\<And>rq. wf_upstream (client rq)"
  shows "wf_sent s \<and> wf_response r"
proof -
  from assms(1) obtain rq where rq: "rewrite_request D cfg (request_from_parts p (Req_Full body)) = Ret rq" "s = Some rq"
    and r: "(case race of
       Upstream_first \<Rightarrow> (case client rq of
          Inr resp \<Rightarrow> if is_success (up_status resp) \<and> is_event_stream D (up_headers resp)
            then (case parse_content_encoding D (up_headers resp) of
                    Some ce \<Rightarrow> Ret (passthrough_sse_response D resp kind ce (rc_heartbeat_interval cfg))
                  | None \<Rightarrow> Ret (passthrough_response D resp))
            else Ret (passthrough_response D resp)
        | Inl e \<Rightarrow> bad_gateway D e)
     | Timer_first \<Rightarrow> Ret (keepalive_response kind (rc_heartbeat_interval cfg) (client rq))) = Ret r"
    unfolding handle_stream_def Let_def by (auto simp: sse_request_same rs_bind_Ret_iff)
  have "wf_sent (Some rq)"
    using assms(2,3) by (intro wf_rewrite [OF rq(1)]) (simp_all add: request_from_parts_def)
  moreover have "wf_response r"
    using r assms(4) [of rq] wf_keepalive wf_own_errors(1) wf_passthrough wf_passthrough_sse
    by (auto split: race.splits sum.splits option.splits if_splits)
  ultimately show ?thesis using rq(2) by simp
qed

lemma wf_handle:
  assumes "handle D cfg client race p body = Ret (s, r)" "wf_headers (p_headers p)" "header_values_ok D"
    and "\<And>rq. wf_upstream (client rq)"
  shows "wf_sent s \<and> wf_response r"
proof -
  have b: "wf_headers (p_headers (request_from_parts p b))" for b
    using assms(2) by (simp add: request_from_parts_def)
  from assms(1) consider body' where "proxy_req D cfg client (request_from_parts p body') = Ret (s, r)"
    | raw kind where "handle_stream D cfg client race p raw kind = Ret (s, r)"
    | "s = None" "response_413 D = Ret r \<or> response_400 D = Ret r"
    unfolding handle_def proxy_def proxy_buffered_def
    by (auto simp: rs_bind_Ret_iff split: option.splits sum.splits collect_error.splits if_splits)
  then show ?thesis
  proof cases
    case 1
    then show ?thesis by (rule wf_proxy_req [OF _ b assms(3,4)])
  next
    case 2
    then show ?thesis by (rule wf_handle_stream [OF _ assms(2-4)])
  next
    case 3
    then show ?thesis using wf_own_errors(2,3) by (auto simp: wf_sent_def)
  qed
qed

section \<open>The property\<close>

text \<open>C9: the gateway keeps messages well-formed. From a request and an upstream whose header names,
  header values and status are well-formed it answers, without a panic, with a well-formed
  response and sends a well-formed request: no header value holds a carriage return, a line feed
  or another control character, no header of a single connection is copied in either direction,
  and a response body that a task writes carries neither a length nor a coding.\<close>

theorem handle_well_formed:
  assumes "uri_ok D" "config_ok D cfg" "uri_from_parts D (p_uri p) = Some (p_uri p)" "json_total D"
    and "header_values_ok D" "wf_headers (p_headers p)" "\<And>rq. wf_upstream (client rq)"
  shows "\<exists>sent resp. handle D cfg client race p body = Ret (sent, resp) \<and> wf_sent sent \<and> wf_response resp"
proof -
  obtain sent resp where "handle D cfg client race p body = Ret (sent, resp)"
    using handle_sends [OF assms(1-4), of client race body] by blast
  with wf_handle [OF this assms(6,5,7)] show ?thesis by blast
qed

lemma sample_header_values_ok: "header_values_ok sample_deps"
proof -
  have "list_all value_char s" if "visible s" for s
    using that by (auto simp: visible_def value_char_def list_all_iff)
  then show ?thesis by (auto simp: header_values_ok_def sample_deps_def split: if_splits)
qed

theorem handle_well_formed_witness:
  "\<exists>sent resp. handle sample_deps sample_cfg
       (\<lambda>r. Inr \<lparr>up_status = 200, up_headers = [(''keep-alive'', ''5''), (''content-type'', ''a/b'')], up_body = []\<rparr>)
       Upstream_first
     \<lparr>p_method = ''GET'', p_uri = \<lparr>u_scheme = None, u_authority = None, u_path_and_query = Some ''/v1/models''\<rparr>,
      p_headers = [(''host'', ''gw'')]\<rparr> [] = Ret (sent, resp) \<and> wf_sent sent \<and> wf_response resp"
proof (rule handle_well_formed [OF sample_uri_ok sample_cfg_ok _ sample_json_total sample_header_values_ok])
  show "uri_from_parts sample_deps (p_uri \<lparr>p_method = ''GET'',
      p_uri = \<lparr>u_scheme = None, u_authority = None, u_path_and_query = Some ''/v1/models''\<rparr>, p_headers = [(''host'', ''gw'')]\<rparr>) =
    Some (p_uri \<lparr>p_method = ''GET'',
      p_uri = \<lparr>u_scheme = None, u_authority = None, u_path_and_query = Some ''/v1/models''\<rparr>, p_headers = [(''host'', ''gw'')]\<rparr>)"
    using sample_uri_valid by simp
qed (simp_all add: wf_headers_def wf_upstream_def wf_status_def token_char_def value_char_def)

end
