(* ===== verification/Error_Json.thy ===== *)
theory Error_Json
  imports Error_Event "HOL-Library.Countable"
begin

text \<open>
  The JSON inside the error events. \<open>json_ok\<close> is the type of the values that \<open>serde_json\<close> can hold
  and read back: object keys in strictly increasing order, strings in UTF-8, negative numbers in
  \<open>NegInt\<close>, no floating-point number (the parser may lose the last bit of one), and not nested
  deeper than the parser's limit. Every value the builders print has this type when the bodies they
  copy from have it, so a client that parses the data of the event gets the value that was built.
\<close>

section \<open>The type of JSON values\<close>

text \<open>The parser refuses more than 127 nested arrays and objects (its recursion limit is 128).\<close>

definition MAX_DEPTH :: nat where "MAX_DEPTH = 127"

fun number_ok :: "jnumber \<Rightarrow> bool" where
  "number_ok (PosInt n) = True"
| "number_ok (NegInt n) = (sint n < 0)"
| "number_ok (Float n) = False"

fun json_ok :: "nat \<Rightarrow> json \<Rightarrow> bool" where
  "json_ok d JNull = True"
| "json_ok d (JBool b) = True"
| "json_ok d (JNumber n) = number_ok n"
| "json_ok d (JString s) = utf8_valid s"
| "json_ok 0 (JArray vs) = False"
| "json_ok (Suc d) (JArray vs) = list_all (json_ok d) vs"
| "json_ok 0 (JObject es) = False"
| "json_ok (Suc d) (JObject es) =
     (sorted_wrt (<) (map fst es) \<and> list_all (\<lambda>e. utf8_valid (fst e) \<and> json_ok d (snd e)) es)"

lemma json_ok_Suc: "json_ok d v \<Longrightarrow> json_ok (Suc d) v"
proof (induction d v rule: json_ok.induct)
  case (6 d vs)
  then show ?case by (auto simp: list_all_iff)
next
  case (8 d es)
  then show ?case by (auto simp: list_all_iff)
qed auto

lemma json_ok_mono: "json_ok d v \<Longrightarrow> d \<le> d' \<Longrightarrow> json_ok d' v"
  by (rule lift_Suc_mono_le [of "\<lambda>d. json_ok d v", unfolded le_bool_def, rule_format])
    (auto intro: json_ok_Suc)

text \<open>\<open>Map::insert\<close> keeps the order of the keys, so a value of the \<open>json!\<close> macro has the type
  when its entries have.\<close>

lemma obj_insert_fst: "fst ` set (obj_insert k v es) = insert k (fst ` set es)"
  by (induction k v es rule: obj_insert.induct) auto

lemma obj_insert_sorted: "sorted_wrt (<) (map fst es) \<Longrightarrow> sorted_wrt (<) (map fst (obj_insert k v es))"
proof (induction k v es rule: obj_insert.induct)
  case (2 k v k' v' es)
  then show ?case
    using obj_insert_fst [of k v es] by (auto simp flip: image_image set_map)
qed simp

lemma obj_insert_set: "set (obj_insert k v es) \<subseteq> insert (k, v) (set es)"
  by (induction k v es rule: obj_insert.induct) auto

lemma json_ok_object:
  assumes "list_all (\<lambda>e. utf8_valid (fst e) \<and> json_ok d (snd e)) kvs"
  shows "json_ok (Suc d) (json_object kvs)"
proof -
  have "json_ok (Suc d) (JObject es) \<Longrightarrow>
      json_ok (Suc d) (JObject (foldl (\<lambda>es (k, v). obj_insert k v es) es kvs))" for es
    using assms
  proof (induction kvs arbitrary: es)
    case Nil
    then show ?case by simp
  next
    case (Cons kv kvs)
    have "json_ok (Suc d) (JObject (obj_insert (fst kv) (snd kv) es))"
      using Cons.prems obj_insert_set [of "fst kv" "snd kv" es]
      by (auto simp: obj_insert_sorted list_all_iff)
    with Cons show ?case by (simp add: split_beta)
  qed
  then show ?thesis by (simp add: json_object_def)
qed

lemma json_ok_objects:
  "list_all (\<lambda>e. utf8_valid (fst e) \<and> json_ok 126 (snd e)) kvs \<Longrightarrow> json_ok 127 (json_object kvs)"
  "list_all (\<lambda>e. utf8_valid (fst e) \<and> json_ok 125 (snd e)) kvs \<Longrightarrow> json_ok 126 (json_object kvs)"
  using json_ok_object [of 126 kvs] json_ok_object [of 125 kvs] by simp_all

lemma json_ok_get: "json_ok (Suc d) v \<Longrightarrow> json_get v k = Some x \<Longrightarrow> json_ok d x"
  by (cases v) (auto simp: list_all_iff dest!: map_of_SomeD)

section \<open>The strings of an error\<close>

lemma utf8_valid_ascii: "list_all (\<lambda>c. byte_val c < 128) s \<Longrightarrow> utf8_valid s"
  by (induction s) (auto simp: utf8_width_def)

lemma show_nat_ascii: "list_all (\<lambda>c. byte_val c < 128) (show_nat n)"
  using show_nat_digits [of _ n] by (fastforce simp: list_all_iff is_digit_def)

text \<open>The reasons of the status codes are text, as all strings of the program.\<close>

definition reasons_ok :: "deps \<Rightarrow> bool" where
  "reasons_ok D \<longleftrightarrow> (\<forall>st r. canonical_reason D st = Some r \<longrightarrow> utf8_valid r)"

lemma status_fallback_valid: "reasons_ok D \<Longrightarrow> utf8_valid (status_fallback D st)"
proof -
  assume r: "reasons_ok D"
  have "utf8_valid (show_nat st)" by (rule utf8_valid_ascii [OF show_nat_ascii])
  moreover have "utf8_valid ('' '' @ (case canonical_reason D st of Some r \<Rightarrow> r | None \<Rightarrow> ''Bad Gateway''))"
    using r by (auto simp: reasons_ok_def utf8_width_def split: option.split)
  ultimately show ?thesis by (simp add: status_fallback_def utf8_valid_append del: utf8_valid.simps)
qed

lemma message_valid:
  assumes "reasons_ok D" "case reason of Some r \<Rightarrow> utf8_valid r | None \<Rightarrow> True"
  shows "utf8_valid (message D body reason st)"
proof (cases reason)
  case (Some r)
  have "utf8_valid ''upstream request failed: ''" by (rule utf8_valid_ascii) simp
  then have "utf8_valid (''upstream request failed: '' @ r) = utf8_valid r" by (rule utf8_valid_append)
  with Some assms(2) show ?thesis by (simp add: message_def del: utf8_valid.simps)
next
  case None
  have cut: "utf8_valid (take (back_off t MAX_MSG) t)" if "utf8_valid t" "\<not> length t \<le> MAX_MSG" for t
    using that by (intro take_back_off_valid) simp_all
  from None show ?thesis
    using status_fallback_valid [OF assms(1)]
    by (auto simp: message_def Let_def str_trim_valid cut split: option.splits)
qed

section \<open>The values of the events\<close>

text \<open>What a builder is given: a body that, if it is JSON, has the type.\<close>

definition body_ok :: "deps \<Rightarrow> bytes option \<Rightarrow> bool" where
  "body_ok D body \<longleftrightarrow>
     (case Option.bind body (json_from_slice D) of Some v \<Rightarrow> json_ok MAX_DEPTH v | None \<Rightarrow> True)"

lemma json_ok_JObject:
  "json_ok 127 (JObject es) \<longleftrightarrow>
     sorted_wrt (<) (map fst es) \<and> list_all (\<lambda>e. utf8_valid (fst e) \<and> json_ok 126 (snd e)) es"
  "json_ok 126 (JObject es) \<longleftrightarrow>
     sorted_wrt (<) (map fst es) \<and> list_all (\<lambda>e. utf8_valid (fst e) \<and> json_ok 125 (snd e)) es"
  using json_ok.simps(8) [of 126 es] json_ok.simps(8) [of 125 es] by simp_all

lemma key_valid:
  "utf8_valid ''error''" "utf8_valid ''message''" "utf8_valid ''type''" "utf8_valid ''param''"
  "utf8_valid ''code''" "utf8_valid ''sequence_number''" "utf8_valid ''status''"
  by (rule utf8_valid_ascii, simp)+

lemma api_class_valid: "utf8_valid (api_class kind st)"
  by (rule utf8_valid_ascii) (simp add: api_class_def lookup_or_def anthropic_types_def gemini_types_def
      split: endpoint_kind.split)

lemma responses_object_ok:
  "utf8_valid c \<Longrightarrow> utf8_valid m \<Longrightarrow> json_ok 126 p \<Longrightarrow> json_ok 127 (responses_object c m p)"
  by (simp add: responses_object_def json_ok_JObject key_valid del: utf8_valid.simps)

lemma api_object_ok: "utf8_valid msg \<Longrightarrow> json_ok MAX_DEPTH (api_object kind st msg)"
  using api_class_valid [of kind st]
  by (cases kind)
    (simp_all add: api_object_def MAX_DEPTH_def responses_object_ok json_ok_JObject key_valid
      del: utf8_valid.simps)

lemma standard_error_ok:
  assumes "json_ok MAX_DEPTH u" "standard_error kind u = Some v"
  shows "json_ok MAX_DEPTH v"
proof (cases "kind = Responses")
  case True
  with assms(2) obtain e c m where e: "json_get u ''error'' = Some e"
    "json_get e ''code'' = Some (JString c)" "json_get e ''message'' = Some (JString m)"
    "v = responses_object c m (case json_get e ''param'' of Some p \<Rightarrow> p | None \<Rightarrow> JNull)"
    by (auto simp: standard_error_def split: option.splits json.splits)
  from assms(1) e(1) have e': "json_ok (Suc 125) e"
    using json_ok_get [of 126 u] by (simp add: MAX_DEPTH_def)
  from json_ok_get [OF e' e(2)] json_ok_get [OF e' e(3)] json_ok_get [OF e', of "''param''"] json_ok_Suc [of 125]
  show ?thesis by (auto simp: MAX_DEPTH_def e(4) intro!: responses_object_ok split: option.split)
next
  case False
  with assms show ?thesis by (auto simp: standard_error_def split: option.splits endpoint_kind.splits if_splits)
qed

lemma api_error_ok:
  assumes "reasons_ok D" "body_ok D body" "case reason of Some r \<Rightarrow> utf8_valid r | None \<Rightarrow> True"
  shows "json_ok MAX_DEPTH (api_error D kind status body reason)"
proof (cases "upstream_error D kind body")
  case None
  with api_object_ok [OF message_valid [OF assms(1,3)]] show ?thesis
    by (simp add: api_error_def message_api [symmetric] Let_def)
next
  case (Some v)
  with assms(2) show ?thesis
    by (auto simp: api_error_def upstream_error_def body_ok_def bind_eq_Some_conv
        intro: standard_error_ok split: option.splits if_splits)
qed


section \<open>Reading an error back\<close>

text \<open>What \<open>serde_json\<close> promises: a value of the type, printed, is read back.\<close>

definition json_reads_back :: "deps \<Rightarrow> bool" where
  "json_reads_back D \<longleftrightarrow>
     (\<forall>v s. json_ok MAX_DEPTH v \<longrightarrow> json_to_string D v = Some s \<longrightarrow> json_from_slice D s = Some v)"

text \<open>The upstream bodies that an endpoint passes on as they are.\<close>

definition passed_on :: "endpoint_kind \<Rightarrow> json \<Rightarrow> bool" where
  "passed_on kind v \<longleftrightarrow>
     json_get v ''error'' \<noteq> None \<and>
     (kind = ChatCompletions \<or> kind = GeminiStream \<or>
      (kind = AnthropicMessages \<and> json_get v ''type'' = Some (JString ''error'')))"

lemma api_error_passed_on:
  "b \<noteq> [] \<Longrightarrow> json_from_slice D b = Some v \<Longrightarrow> passed_on kind v \<Longrightarrow> api_error D kind status (Some b) reason = v"
  by (auto simp: passed_on_def standard_error_def intro!: api_error_standard)


text \<open>An instance of the hypotheses: values are numbered, and a value is printed as so many ones.\<close>

instance word :: (len) countable
  by (rule countable_classI [of unat]) (simp add: word_unat_eq_iff)

instance jnumber :: countable by countable_datatype

instance json :: countable by countable_datatype

definition tally :: "json \<Rightarrow> str" where
  "tally v = replicate (Suc (to_nat v)) (CHR ''1'')"

definition tally_deps :: deps where
  "tally_deps = sample_deps\<lparr>
     json_to_string := (\<lambda>v. Some (tally v)),
     json_from_slice := (\<lambda>s. let v = from_nat (length s - 1) in if json_ok MAX_DEPTH v then Some v else None)\<rparr>"

lemma tally_reads: "json_ok MAX_DEPTH v \<Longrightarrow> json_from_slice tally_deps (tally v) = Some v"
  by (simp add: tally_deps_def tally_def)

lemma tally_deps_ok:
  "json_total tally_deps" "json_one_line tally_deps" "json_reads_back tally_deps" "reasons_ok tally_deps"
  "body_ok tally_deps body"
proof -
  show "json_total tally_deps" by (simp add: json_total_def tally_deps_def)
  show "json_one_line tally_deps" by (auto simp: json_one_line_def tally_deps_def tally_def)
  show "json_reads_back tally_deps"
    using tally_reads by (simp add: json_reads_back_def) (simp add: tally_deps_def)
  show "reasons_ok tally_deps"
    by (auto simp: reasons_ok_def tally_deps_def sample_deps_def utf8_width_def split: if_splits)
  show "body_ok tally_deps body"
    by (auto simp: body_ok_def tally_deps_def Let_def split: option.split bind_splits if_splits)
qed


end
