(* ===== verification/Unit_Tests.thy ===== *)
theory Unit_Tests
  imports Detect Boundary Error_Json Codec
begin

text \<open>
  The unit tests of \<open>src/detect.rs\<close>, \<open>src/encoding.rs\<close>, \<open>src/error_event.rs\<close> and \<open>src/sse.rs\<close>,
  each as a definition with the name of its test function: it is true when every assertion of the
  test holds and nothing it unwraps fails. They are the repository's own statement of what these
  functions do; the lemmas prove that the models do it, for every behaviour of the crates that
  the hypotheses allow. What the tests assume of \<open>serde_json\<close>, \<open>http\<close> and the codecs is named.
\<close>

section \<open>Assertions\<close>

text \<open>A value that is used after a step that may panic.\<close>

definition holds :: "'a rs \<Rightarrow> ('a \<Rightarrow> bool) \<Rightarrow> bool" where
  "holds r P = (case r of Ret x \<Rightarrow> P x | Panic m \<Rightarrow> False)"

lemma holds_Ret [simp]: "holds (Ret x) P = P x"
  by (simp add: holds_def)

text \<open>\<open>std::str::from_utf8(&out).unwrap()\<close> before the assertions on the text, and
  \<open>str::contains\<close>.\<close>

definition holds_text :: "bytes rs \<Rightarrow> (str \<Rightarrow> bool) \<Rightarrow> bool" where
  "holds_text r P = holds r (\<lambda>out. utf8_valid out \<and> P out)"

fun contains :: "str \<Rightarrow> str \<Rightarrow> bool" where
  "contains [] t = (t = [])"
| "contains (c # s) t = (take (length t) (c # s) = t \<or> contains s t)"

definition starts_with :: "str \<Rightarrow> str \<Rightarrow> bool" where
  "starts_with s t = (take (length t) s = t)"

text \<open>\<open>lines().next()\<close>: the text before the first line feed, without a carriage return at its end.\<close>

definition first_line :: "str \<Rightarrow> str" where
  "first_line s =
     (let l = takeWhile (\<lambda>c. c \<noteq> LF) s in if LF \<in> set s \<and> l \<noteq> [] \<and> last l = CR then butlast l else l)"

section \<open>src/detect.rs\<close>

definition test_method :: str where "test_method = ''POST''"

definition chat_completions_prefix_invariant :: bool where
  "chat_completions_prefix_invariant \<longleftrightarrow>
     match_endpoint test_method ''/chat/completions'' None = Some ChatCompletions \<and>
     match_endpoint test_method ''/api/v1/chat/completions'' None = Some ChatCompletions \<and>
     match_endpoint test_method ''/openai/api/v1/chat/completions'' None = Some ChatCompletions"

definition messages_suffix_segment_only :: bool where
  "messages_suffix_segment_only \<longleftrightarrow>
     match_endpoint test_method ''/v1/messages'' None = Some AnthropicMessages \<and>
     match_endpoint test_method ''/v1/messages/batches'' None = None \<and>
     match_endpoint test_method ''/v1/notmessages'' None = None"

definition responses_suffix_segment_only :: bool where
  "responses_suffix_segment_only \<longleftrightarrow>
     match_endpoint test_method ''/v1/responses'' None = Some Responses \<and>
     match_endpoint test_method ''/v1/responses/abc'' None = None"

definition non_post_not_matched :: bool where
  "non_post_not_matched \<longleftrightarrow> match_endpoint ''GET'' ''/chat/completions'' None = None"

definition gemini_alt_sse_required :: bool where
  "gemini_alt_sse_required \<longleftrightarrow>
     match_endpoint test_method ''/v1beta/models/gemini-pro:streamGenerateContent'' (Some ''alt=sse'') = Some GeminiStream \<and>
     match_endpoint test_method ''/v1beta/models/gemini-pro:streamGenerateContent'' (Some ''foo=bar&alt=sse'') = Some GeminiStream \<and>
     match_endpoint test_method ''/v1beta/models/gemini-pro:streamGenerateContent'' (Some ''alt=json'') = None \<and>
     match_endpoint test_method ''/v1beta/models/gemini-pro:streamGenerateContent'' None = None"

definition stream_flag_probing :: "deps \<Rightarrow> bool" where
  "stream_flag_probing D \<longleftrightarrow>
     probe_stream_flag D ''{\"stream\":true}'' \<and>
     probe_stream_flag D ''{\"stream\":true,\"model\":\"x\"}'' \<and>
     probe_stream_flag D ''{\"model\":\"x\",\"stream\":true}'' \<and>
     \<not> probe_stream_flag D ''{\"stream\":false}'' \<and>
     \<not> probe_stream_flag D ''{\"model\":\"x\"}'' \<and>
     \<not> probe_stream_flag D ''not json'' \<and>
     \<not> probe_stream_flag D ''{\"stream\":\"true\"}''"

text \<open>\<open>h.insert(ACCEPT, v.parse().unwrap())\<close> into an empty map.\<close>

definition accept_header :: "deps \<Rightarrow> str \<Rightarrow> header_map rs" where
  "accept_header D v =
     rs_bind (expect ''called unwrap'' (header_value_from_str D v)) (\<lambda>hv. Ret (hm_insert ''accept'' hv []))"

definition accepts_event_stream_exact :: "deps \<Rightarrow> bool" where
  "accepts_event_stream_exact D \<longleftrightarrow>
     holds (accept_header D ''text/event-stream'') (\<lambda>h. accepts_event_stream D h)"

definition accepts_event_stream_trimmed_whitespace :: "deps \<Rightarrow> bool" where
  "accepts_event_stream_trimmed_whitespace D \<longleftrightarrow>
     holds (accept_header D ''  text/event-stream  '') (\<lambda>h. accepts_event_stream D h)"

definition accepts_event_stream_multi_value_not_matched :: "deps \<Rightarrow> bool" where
  "accepts_event_stream_multi_value_not_matched D \<longleftrightarrow>
     holds (accept_header D ''text/event-stream, application/json'') (\<lambda>h. \<not> accepts_event_stream D h)"

definition accepts_event_stream_with_parameter_not_matched :: "deps \<Rightarrow> bool" where
  "accepts_event_stream_with_parameter_not_matched D \<longleftrightarrow>
     holds (accept_header D ''text/event-stream; charset=utf-8'') (\<lambda>h. \<not> accepts_event_stream D h)"

definition accepts_event_stream_missing_header :: "deps \<Rightarrow> bool" where
  "accepts_event_stream_missing_header D \<longleftrightarrow> \<not> accepts_event_stream D []"

definition accepts_event_stream_empty_value :: "deps \<Rightarrow> bool" where
  "accepts_event_stream_empty_value D \<longleftrightarrow>
     holds (accept_header D '''') (\<lambda>h. \<not> accepts_event_stream D h)"

section \<open>src/sse.rs\<close>

definition boundary_lf_lf :: "deps \<Rightarrow> bool" where
  "boundary_lf_lf D \<longleftrightarrow>
     at_boundary tracker_new \<and> holds (feed D tracker_new (''data: hi'' @ [LF, LF])) at_boundary"

definition boundary_crlf_crlf :: "deps \<Rightarrow> bool" where
  "boundary_crlf_crlf D \<longleftrightarrow> holds (feed D tracker_new (''data: hi'' @ [CR, LF, CR, LF])) at_boundary"

definition boundary_mixed_terminators :: "deps \<Rightarrow> bool" where
  "boundary_mixed_terminators D \<longleftrightarrow> holds (feed D tracker_new (''data: a'' @ [LF, CR, LF])) at_boundary"

definition boundary_mid_event_not_at_boundary :: "deps \<Rightarrow> bool" where
  "boundary_mid_event_not_at_boundary D \<longleftrightarrow>
     holds (feed D tracker_new ''data: hi'') (\<lambda>t1. \<not> at_boundary t1 \<and>
     holds (feed D t1 [LF]) (\<lambda>t2. \<not> at_boundary t2 \<and>
     holds (feed D t2 [LF]) (\<lambda>t3. at_boundary t3)))"

definition boundary_split_across_feeds :: "deps \<Rightarrow> bool" where
  "boundary_split_across_feeds D \<longleftrightarrow>
     holds (feed D tracker_new (''data: hi'' @ [LF])) (\<lambda>t1. \<not> at_boundary t1 \<and>
     holds (feed D t1 [LF]) (\<lambda>t2. at_boundary t2))"

definition boundary_cr_only_terminator :: "deps \<Rightarrow> bool" where
  "boundary_cr_only_terminator D \<longleftrightarrow> holds (feed D tracker_new (''data: hi'' @ [CR, CR])) at_boundary"

definition boundary_cr_then_non_newline :: "deps \<Rightarrow> bool" where
  "boundary_cr_then_non_newline D \<longleftrightarrow>
     holds (feed D tracker_new (''data: hi'' @ [CR])) (\<lambda>t1.
     holds (feed D t1 (''data: bye'' @ [CR, CR])) (\<lambda>t2. at_boundary t2))"

section \<open>src/encoding.rs\<close>

text \<open>\<open>HeaderValue::from_static\<close> of the literals; \<open>append\<close> puts a second value behind the first.\<close>

definition parse_single_and_chained :: "deps \<Rightarrow> bool" where
  "parse_single_and_chained D \<longleftrightarrow>
     parse_content_encoding D (hm_insert ''content-encoding'' ''gzip'' []) = Some Gzip \<and>
     parse_content_encoding D (hm_insert ''content-encoding'' ''br'' []) = Some Br \<and>
     parse_content_encoding D (hm_insert ''content-encoding'' ''gzip, deflate'' []) = None \<and>
     parse_content_encoding D (hm_insert ''content-encoding'' ''snappy'' []) = None \<and>
     parse_content_encoding D [] = Some Identity \<and>
     parse_content_encoding D [(''content-encoding'', ''gzip''), (''content-encoding'', ''br'')] = None"

definition roundtrip_all_codings :: "deps \<Rightarrow> encoders \<Rightarrow> bool" where
  "roundtrip_all_codings D E \<longleftrightarrow>
     (let payload = concat (replicate 20 ''the quick brown fox jumps over the lazy dog '') in
      list_all (\<lambda>c. decode_bytes D c (encode_once E c payload) (of_nat (length payload)) = Inr payload)
        [Gzip, Deflate, Br, Zstd])"

definition decode_bytes_exactly_at_limit_passes :: "deps \<Rightarrow> encoders \<Rightarrow> bool" where
  "decode_bytes_exactly_at_limit_passes D E \<longleftrightarrow>
     (let payload = replicate 256 (CHR ''x'') in
      decode_bytes D Gzip (encode_once E Gzip payload) 256 = Inr payload)"

definition decode_bytes_one_byte_over_errors :: "deps \<Rightarrow> encoders \<Rightarrow> bool" where
  "decode_bytes_one_byte_over_errors D E \<longleftrightarrow>
     (let payload = replicate 256 (CHR ''x'') in
      case decode_bytes D Gzip (encode_once E Gzip payload) 255 of
        Inl (IoError kind msg) \<Rightarrow> kind = InvalidData
      | Inr out \<Rightarrow> False)"

definition decode_bytes_identity_limit :: "deps \<Rightarrow> bool" where
  "decode_bytes_identity_limit D \<longleftrightarrow>
     (let payload = replicate 10 (CHR ''x'') in
      decode_bytes D Identity payload 10 = Inr payload \<and>
      (case decode_bytes D Identity payload 9 of Inl e \<Rightarrow> True | Inr out \<Rightarrow> False))"


section \<open>src/error\_event.rs\<close>

text \<open>\<open>StatusCode::from_u16(code).ok()\<close>.\<close>

definition status_from_u16 :: "nat \<Rightarrow> status_code option" where
  "status_from_u16 code = (if 100 \<le> code \<and> code < 1000 then Some code else None)"

abbreviation done_suffix :: str where
  "done_suffix \<equiv> [LF, LF] @ ''data: [DONE]'' @ [LF, LF]"

definition chat_standard_error_body_passes_through :: "deps \<Rightarrow> bool" where
  "chat_standard_error_body_passes_through D \<longleftrightarrow>
     (let body = ''{\"error\":{\"message\":\"rate limited\",\"type\":\"rate_limit_error\",\"param\":null,\"code\":null}}'';
          expected = ''data: {\"error\":{\"code\":null,\"message\":\"rate limited\",\"param\":null,\"type\":\"rate_limit_error\"}}''
            @ done_suffix
      in holds (build D ChatCompletions (status_from_u16 429) (Some body) None) (\<lambda>out. out = expected))"

definition chat_synthesized_from_non_json_body :: "deps \<Rightarrow> bool" where
  "chat_synthesized_from_non_json_body D \<longleftrightarrow>
     holds_text (build D ChatCompletions (status_from_u16 500) (Some ''oops'') None) (\<lambda>s.
       starts_with s ''data: {\"error\":'' \<and> contains s ''\"type\":\"server_error\"'' \<and>
       contains s ''\"message\":\"oops\"'' \<and> ends_with s done_suffix)"

definition chat_connection_failure :: "deps \<Rightarrow> bool" where
  "chat_connection_failure D \<longleftrightarrow>
     holds_text (build D ChatCompletions None None (Some ''connection refused'')) (\<lambda>s.
       contains s ''\"type\":\"server_error\"'' \<and>
       contains s ''upstream request failed: connection refused'' \<and> ends_with s done_suffix)"

definition responses_standard_error_body_extracts_fields :: "deps \<Rightarrow> bool" where
  "responses_standard_error_body_extracts_fields D \<longleftrightarrow>
     (let body = ''{\"error\":{\"code\":\"rate_limit_exceeded\",\"message\":\"slow down\",\"param\":null}}''
      in holds_text (build D Responses (status_from_u16 429) (Some body) None) (\<lambda>s.
        starts_with s (''event: error'' @ [LF]) \<and> contains s ''\"code\":\"rate_limit_exceeded\"'' \<and>
        contains s ''\"message\":\"slow down\"'' \<and> contains s ''\"sequence_number\":0'' \<and>
        ends_with s [LF, LF]))"

definition responses_synthesized_from_non_json_body :: "deps \<Rightarrow> bool" where
  "responses_synthesized_from_non_json_body D \<longleftrightarrow>
     holds_text (build D Responses (status_from_u16 500) (Some ''fail'') None) (\<lambda>s.
       contains s ''\"code\":\"server_error\"'' \<and> contains s ''\"message\":\"fail\"'')"

definition responses_connection_failure :: "deps \<Rightarrow> bool" where
  "responses_connection_failure D \<longleftrightarrow>
     holds_text (build D Responses None None (Some ''timeout'')) (\<lambda>s.
       contains s ''\"code\":\"server_error\"'' \<and> contains s ''upstream request failed: timeout'')"

definition anthropic_standard_error_body_passes_through :: "deps \<Rightarrow> bool" where
  "anthropic_standard_error_body_passes_through D \<longleftrightarrow>
     (let body = ''{\"type\":\"error\",\"error\":{\"type\":\"rate_limit_error\",\"message\":\"slow down\"}}'';
          expected = ''event: error'' @ [LF] @
            ''data: {\"error\":{\"message\":\"slow down\",\"type\":\"rate_limit_error\"},\"type\":\"error\"}'' @ [LF, LF]
      in holds (build D AnthropicMessages (status_from_u16 429) (Some body) None) (\<lambda>out. out = expected))"

definition anthropic_synthesized_429 :: "deps \<Rightarrow> bool" where
  "anthropic_synthesized_429 D \<longleftrightarrow>
     holds_text (build D AnthropicMessages (status_from_u16 429) (Some ''nope'') None) (\<lambda>s.
       contains s ''\"type\":\"rate_limit_error\"'' \<and> contains s ''\"message\":\"nope\"'')"

definition anthropic_synthesized_401 :: "deps \<Rightarrow> bool" where
  "anthropic_synthesized_401 D \<longleftrightarrow>
     holds_text (build D AnthropicMessages (status_from_u16 401) (Some ''bad key'') None) (\<lambda>s.
       contains s ''\"type\":\"authentication_error\"'')"

definition anthropic_connection_failure :: "deps \<Rightarrow> bool" where
  "anthropic_connection_failure D \<longleftrightarrow>
     holds_text (build D AnthropicMessages None None (Some ''dns error'')) (\<lambda>s.
       contains s ''\"type\":\"api_error\"'' \<and> contains s ''upstream request failed: dns error'')"

definition gemini_standard_error_body_passes_through :: "deps \<Rightarrow> bool" where
  "gemini_standard_error_body_passes_through D \<longleftrightarrow>
     (let body = ''{\"error\":{\"code\":429,\"message\":\"slow down\",\"status\":\"RESOURCE_EXHAUSTED\"}}'';
          expected = ''data: {\"error\":{\"code\":429,\"message\":\"slow down\",\"status\":\"RESOURCE_EXHAUSTED\"}}'' @ [LF, LF]
      in holds (build D GeminiStream (status_from_u16 429) (Some body) None) (\<lambda>out. out = expected))"

definition gemini_synthesized_500 :: "deps \<Rightarrow> bool" where
  "gemini_synthesized_500 D \<longleftrightarrow>
     holds_text (build D GeminiStream (status_from_u16 500) (Some ''err'') None) (\<lambda>s.
       contains s ''\"status\":\"INTERNAL\"'' \<and> contains s ''\"code\":500'' \<and> contains s ''\"message\":\"err\"'')"

definition gemini_connection_failure :: "deps \<Rightarrow> bool" where
  "gemini_connection_failure D \<longleftrightarrow>
     holds_text (build D GeminiStream None None (Some ''refused'')) (\<lambda>s.
       contains s ''\"status\":\"UNKNOWN\"'' \<and> contains s ''\"code\":502'' \<and>
       contains s ''upstream request failed: refused'')"

definition chat_pretty_printed_reserialized_single_line :: "deps \<Rightarrow> bool" where
  "chat_pretty_printed_reserialized_single_line D \<longleftrightarrow>
     (let body = ''{'' @ [LF] @ ''  \"error\": { \"message\": \"rate limited\", \"type\": \"rate_limit_error\" }'' @ [LF] @ ''}''
      in holds_text (build D ChatCompletions (status_from_u16 429) (Some body) None) (\<lambda>s.
        starts_with (first_line s) ''data: {'' \<and> LF \<notin> set (first_line s) \<and>
        contains s ''\"message\":\"rate limited\"'' \<and> contains s ''\"type\":\"rate_limit_error\"'' \<and>
        ends_with s done_suffix))"

definition message_truncation_lands_on_char_boundary :: "deps \<Rightarrow> bool" where
  "message_truncation_lands_on_char_boundary D \<longleftrightarrow>
     (let pre = replicate (MAX_MSG - 1) (CHR ''a'');
          body = pre @ [CHR 0xC3, CHR 0xA9, CHR 0xC3, CHR 0xA9];
          out = message D (Some body) None 502
      in length out \<le> MAX_MSG \<and> length out = MAX_MSG - 1 \<and> is_char_boundary out (length out))"

section \<open>What the tests assume of the crates\<close>

text \<open>Visible ASCII text is a valid header value, and is read back as text.\<close>

definition ascii_headers_ok :: "deps \<Rightarrow> bool" where
  "ascii_headers_ok D \<longleftrightarrow>
     (\<forall>s. list_all (\<lambda>c. 32 \<le> byte_val c \<and> byte_val c < 127) s \<longrightarrow>
        header_value_from_str D s = Some s \<and> header_to_str D s = Some s)"

text \<open>The JSON grammar on the texts of the tests: the value of each, or an error. The keys of an
  object are sorted in the value.\<close>

definition json_texts :: "(bytes \<times> json option) list" where
  "json_texts =
     [(''{\"stream\":true}'', Some (JObject [(''stream'', JBool True)])),
      (''{\"stream\":true,\"model\":\"x\"}'', Some (JObject [(''model'', JString ''x''), (''stream'', JBool True)])),
      (''{\"model\":\"x\",\"stream\":true}'', Some (JObject [(''model'', JString ''x''), (''stream'', JBool True)])),
      (''{\"stream\":false}'', Some (JObject [(''stream'', JBool False)])),
      (''{\"model\":\"x\"}'', Some (JObject [(''model'', JString ''x'')])),
      (''{\"stream\":\"true\"}'', Some (JObject [(''stream'', JString ''true'')])),
      (''not json'', None), (''oops'', None), (''fail'', None), (''nope'', None), (''bad key'', None), (''err'', None),
      (''{\"error\":{\"message\":\"rate limited\",\"type\":\"rate_limit_error\",\"param\":null,\"code\":null}}'',
       Some (JObject [(''error'', JObject [(''code'', JNull), (''message'', JString ''rate limited''), (''param'', JNull),
         (''type'', JString ''rate_limit_error'')])])),
      (''{\"error\":{\"code\":\"rate_limit_exceeded\",\"message\":\"slow down\",\"param\":null}}'',
       Some (JObject [(''error'', JObject [(''code'', JString ''rate_limit_exceeded''), (''message'', JString ''slow down''),
         (''param'', JNull)])])),
      (''{\"type\":\"error\",\"error\":{\"type\":\"rate_limit_error\",\"message\":\"slow down\"}}'',
       Some (JObject [(''error'', JObject [(''message'', JString ''slow down''), (''type'', JString ''rate_limit_error'')]),
         (''type'', JString ''error'')])),
      (''{\"error\":{\"code\":429,\"message\":\"slow down\",\"status\":\"RESOURCE_EXHAUSTED\"}}'',
       Some (JObject [(''error'', JObject [(''code'', JNumber (PosInt 429)), (''message'', JString ''slow down''),
         (''status'', JString ''RESOURCE_EXHAUSTED'')])])),
      (''{'' @ [LF] @ ''  \"error\": { \"message\": \"rate limited\", \"type\": \"rate_limit_error\" }'' @ [LF] @ ''}'',
       Some (JObject [(''error'', JObject [(''message'', JString ''rate limited''), (''type'', JString ''rate_limit_error'')])]))]"

text \<open>Deserialising into a structure with one defaulted Boolean field, from a value in which no key is
  given twice.\<close>

definition probe_of_json :: "json \<Rightarrow> bool option" where
  "probe_of_json v =
     (case v of
        JObject es \<Rightarrow> (case map_of es ''stream'' of None \<Rightarrow> Some False | Some (JBool b) \<Rightarrow> Some b | Some x \<Rightarrow> None)
      | _ \<Rightarrow> None)"

text \<open>The compact printer, on values whose strings need no escape and whose numbers are natural.\<close>

fun plain_json :: "json \<Rightarrow> bool" where
  "plain_json (JNumber (PosInt n)) = True"
| "plain_json (JNumber n) = False"
| "plain_json (JString s) = list_all (\<lambda>c. 32 \<le> byte_val c \<and> c \<noteq> CHR 0x22 \<and> c \<noteq> CHR 0x5C) s"
| "plain_json (JArray vs) = list_all plain_json vs"
| "plain_json (JObject es) =
     list_all (\<lambda>e. list_all (\<lambda>c. 32 \<le> byte_val c \<and> c \<noteq> CHR 0x22 \<and> c \<noteq> CHR 0x5C) (fst e) \<and> plain_json (snd e)) es"
| "plain_json v = True"

definition json_texts_ok :: "deps \<Rightarrow> bool" where
  "json_texts_ok D \<longleftrightarrow>
     (\<forall>(t, r) \<in> set json_texts. json_from_slice D t = r \<and> probe_from_slice D t = Option.bind r probe_of_json)"

definition json_compact :: "deps \<Rightarrow> bool" where
  "json_compact D \<longleftrightarrow> (\<forall>v. plain_json v \<longrightarrow> json_to_string D v = Some (print_json v))"


section \<open>The models pass\<close>

lemma detect_tests:
  "chat_completions_prefix_invariant" "messages_suffix_segment_only" "responses_suffix_segment_only"
  "non_post_not_matched" "gemini_alt_sse_required"
proof -
  show "chat_completions_prefix_invariant"
    by (simp add: chat_completions_prefix_invariant_def test_method_def match_endpoint_kind kind_of_segments_def)
  show "messages_suffix_segment_only"
    by (simp add: messages_suffix_segment_only_def test_method_def match_endpoint_kind kind_of_segments_def ends_with_def)
  show "responses_suffix_segment_only"
    by (simp add: responses_suffix_segment_only_def test_method_def match_endpoint_kind kind_of_segments_def ends_with_def)
  show "non_post_not_matched"
    by (simp add: non_post_not_matched_def match_endpoint_kind)
  show "gemini_alt_sse_required"
    by (simp add: gemini_alt_sse_required_def test_method_def match_endpoint_kind kind_of_segments_def ends_with_def)
qed

lemma probe_texts:
  assumes "json_texts_ok D" "(t, r) \<in> set json_texts"
  shows "probe_stream_flag D t = (case Option.bind r probe_of_json of Some b \<Rightarrow> b | None \<Rightarrow> False)"
  using assms by (auto simp: json_texts_ok_def probe_stream_flag_def parse_probe_def option.map_comp comp_def
      split: option.split)

lemma stream_flag_probing_ok: "json_texts_ok D \<Longrightarrow> stream_flag_probing D"
  unfolding stream_flag_probing_def
  by (intro conjI; subst probe_texts; assumption?; (simp add: json_texts_def; fail)?; simp add: probe_of_json_def)

lemma accept_header_ascii:
  "ascii_headers_ok D \<Longrightarrow> list_all (\<lambda>c. 32 \<le> byte_val c \<and> byte_val c < 127) v \<Longrightarrow>
     holds (accept_header D v) (\<lambda>h. P (accepts_event_stream D h)) \<longleftrightarrow> P (str_trim v = ''text/event-stream'')"
  by (simp add: ascii_headers_ok_def accept_header_def accepts_event_stream_def header_simps)

lemma trim_simps:
  "str_trim ''text/event-stream'' = ''text/event-stream''"
  "str_trim ''  text/event-stream  '' = ''text/event-stream''"
  "str_trim ''text/event-stream, application/json'' = ''text/event-stream, application/json''"
  "str_trim ''text/event-stream; charset=utf-8'' = ''text/event-stream; charset=utf-8''"
  "str_trim '''' = ''''" "str_trim ''gzip'' = ''gzip''" "str_trim ''br'' = ''br''" "str_trim ''snappy'' = ''snappy''"
  "str_trim '' deflate'' = ''deflate''"
  "str_trim ''oops'' = ''oops''" "str_trim ''fail'' = ''fail''" "str_trim ''nope'' = ''nope''"
  "str_trim ''bad key'' = ''bad key''" "str_trim ''err'' = ''err''"
  by (simp_all add: str_trim_def trim_start.simps trim_end.simps white_space_def ends_with_def)

lemma accept_tests:
  assumes "ascii_headers_ok D"
  shows "accepts_event_stream_exact D" "accepts_event_stream_trimmed_whitespace D"
    "accepts_event_stream_multi_value_not_matched D" "accepts_event_stream_with_parameter_not_matched D"
    "accepts_event_stream_missing_header D" "accepts_event_stream_empty_value D"
  using accept_header_ascii [OF assms, where P = "\<lambda>b. b"] accept_header_ascii [OF assms, where P = Not]
  by (simp_all add: accepts_event_stream_exact_def accepts_event_stream_trimmed_whitespace_def
      accepts_event_stream_multi_value_not_matched_def accepts_event_stream_with_parameter_not_matched_def
      accepts_event_stream_missing_header_def accepts_event_stream_empty_value_def trim_simps)
    (simp add: accepts_event_stream_def hm_get_def hm_get_all_def)

lemma boundary_tests:
  assumes "memchr2_ok D"
  shows "boundary_lf_lf D" "boundary_crlf_crlf D" "boundary_mixed_terminators D"
    "boundary_mid_event_not_at_boundary D" "boundary_split_across_feeds D"
    "boundary_cr_only_terminator D" "boundary_cr_then_non_newline D"
  by (simp_all add: boundary_lf_lf_def boundary_crlf_crlf_def boundary_mixed_terminators_def
      boundary_mid_event_not_at_boundary_def boundary_split_across_feeds_def boundary_cr_only_terminator_def
      boundary_cr_then_non_newline_def feed_Ret [OF assms])
    (simp_all add: tracker_new_def tracker_byte_def tracker_lf_def tracker_cr_def tracker_content_def)

lemma encoding_tests:
  assumes "ascii_headers_ok D" "codecs_ok D E"
  shows "parse_single_and_chained D" "roundtrip_all_codings D E" "decode_bytes_exactly_at_limit_passes D E"
    "decode_bytes_one_byte_over_errors D E" "decode_bytes_identity_limit D"
proof -
  have "coding_parse ''gzip'' = Some Gzip" "coding_parse ''br'' = Some Br" "coding_parse ''snappy'' = None"
    by code_simp+
  then show "parse_single_and_chained D"
    using assms(1)
    by (simp add: ascii_headers_ok_def parse_single_and_chained_def parse_content_encoding_def header_laws trim_simps Let_def)
      (simp add: hm_get_all_def)
  have "length (concat (replicate 20 ''the quick brown fox jumps over the lazy dog '')) = 880"
    by (simp add: length_concat sum_list_replicate)
  then show "roundtrip_all_codings D E"
    using decode_encode(1) [OF assms(2), of 880] by (simp add: roundtrip_all_codings_def Let_def)
  show "decode_bytes_exactly_at_limit_passes D E"
    using decode_encode(1) [OF assms(2), of 256] by (simp add: decode_bytes_exactly_at_limit_passes_def Let_def)
  show "decode_bytes_one_byte_over_errors D E"
    using decode_encode(2) [OF assms(2), of 255 "replicate 256 (CHR ''x'')" Gzip]
    by (auto simp: decode_bytes_one_byte_over_errors_def Let_def)
  show "decode_bytes_identity_limit D"
    by (simp add: decode_bytes_identity_limit_def decode_bytes_def Let_def)
qed


text \<open>The bytes of an event with a plain value.\<close>

lemma build_plain:
  assumes "json_compact D" "api_error D kind st body reason = v" "plain_json v"
  shows "build D kind st body reason = Ret (api_frame kind (print_json v))"
  using assms by (auto simp: build_Ret_iff json_compact_def)

text \<open>Evaluation of a printed value and of the assertions on it.\<close>

lemmas print_simps = print_json.simps print_number.simps print_string_def escape_def show_nat.simps commas.simps

lemma holds_text_ascii:
  "r = Ret s \<Longrightarrow> list_all (\<lambda>c. byte_val c < 128) s \<Longrightarrow> P s \<Longrightarrow> holds_text r P"
  by (simp add: holds_text_def utf8_valid_ascii)

lemma small_message:
  "list_all (\<lambda>c. byte_val c < 128) b \<Longrightarrow> str_trim b = b \<Longrightarrow> b \<noteq> [] \<Longrightarrow> length b \<le> MAX_MSG \<Longrightarrow> message D (Some b) None st = b"
  by (simp add: message_def utf8_valid_ascii Let_def)

lemma synthesised:
  assumes "json_texts_ok D" "(b, None) \<in> set json_texts" "str_trim b = b" "b \<noteq> []"
    "list_all (\<lambda>c. byte_val c < 128) b" "length b \<le> MAX_MSG"
  shows "api_error D kind (Some st) (Some b) None = api_object kind st b"
proof -
  have "json_from_slice D b = None" using assms(1,2) by (auto simp: json_texts_ok_def)
  then show ?thesis
    using small_message [OF assms(5,3,4,6), of D st] assms(4) by (simp add: api_error_def upstream_error_def message_api)
qed

lemmas api_texts = api_object_def responses_object_def api_class_def lookup_or_def anthropic_types_def
  gemini_types_def api_frame_def

lemma synthesised_tests:
  assumes "json_texts_ok D" "json_compact D"
  shows "chat_synthesized_from_non_json_body D" "responses_synthesized_from_non_json_body D"
    "anthropic_synthesized_429 D" "anthropic_synthesized_401 D" "gemini_synthesized_500 D"
proof -
  note s = synthesised [OF assms(1)] and b = build_plain [OF assms(2)]
  show "chat_synthesized_from_non_json_body D"
    unfolding chat_synthesized_from_non_json_body_def status_from_u16_def
    by (rule holds_text_ascii, simp, rule b [OF s])
      (simp_all add: json_texts_def trim_simps MAX_MSG_def api_texts print_simps starts_with_def ends_with_def)
  show "responses_synthesized_from_non_json_body D"
    unfolding responses_synthesized_from_non_json_body_def status_from_u16_def
    by (rule holds_text_ascii, simp, rule b [OF s])
      (simp_all add: json_texts_def trim_simps MAX_MSG_def api_texts print_simps)
  show "anthropic_synthesized_429 D"
    unfolding anthropic_synthesized_429_def status_from_u16_def
    by (rule holds_text_ascii, simp, rule b [OF s])
      (simp_all add: json_texts_def trim_simps MAX_MSG_def api_texts print_simps)
  show "anthropic_synthesized_401 D"
    unfolding anthropic_synthesized_401_def status_from_u16_def
    by (rule holds_text_ascii, simp, rule b [OF s])
      (simp_all add: json_texts_def trim_simps MAX_MSG_def api_texts print_simps)
  show "gemini_synthesized_500 D"
    unfolding gemini_synthesized_500_def status_from_u16_def
    by (rule holds_text_ascii, simp, rule b [OF s])
      (simp_all add: json_texts_def trim_simps MAX_MSG_def api_texts print_simps)
qed


lemma connection_failure_tests:
  assumes "json_compact D"
  shows "chat_connection_failure D" "responses_connection_failure D" "anthropic_connection_failure D"
    "gemini_connection_failure D"
proof -
  note b = build_plain [OF assms api_error_connection_failure]
  show "chat_connection_failure D"
    unfolding chat_connection_failure_def
    by (rule holds_text_ascii, rule b) (simp_all add: api_texts print_simps ends_with_def)
  show "responses_connection_failure D"
    unfolding responses_connection_failure_def
    by (rule holds_text_ascii, rule b) (simp_all add: api_texts print_simps)
  show "anthropic_connection_failure D"
    unfolding anthropic_connection_failure_def
    by (rule holds_text_ascii, rule b) (simp_all add: api_texts print_simps)
  show "gemini_connection_failure D"
    unfolding gemini_connection_failure_def
    by (rule holds_text_ascii, rule b) (simp_all add: api_texts print_simps)
qed

text \<open>A body of the table that is a standard error is the value of the event.\<close>

lemma standard:
  assumes "json_texts_ok D" "(b, Some u) \<in> set json_texts" "b \<noteq> []" "standard_error kind u = Some v"
  shows "api_error D kind st (Some b) None = v"
proof -
  have "json_from_slice D b = Some u" using assms(1,2) by (auto simp: json_texts_ok_def)
  with assms(3,4) show ?thesis by (simp add: api_error_standard)
qed

lemma standard_tests:
  assumes "json_texts_ok D" "json_compact D"
  shows "chat_standard_error_body_passes_through D" "responses_standard_error_body_extracts_fields D"
    "anthropic_standard_error_body_passes_through D" "gemini_standard_error_body_passes_through D"
    "chat_pretty_printed_reserialized_single_line D"
proof -
  note s = standard [OF assms(1)] and b = build_plain [OF assms(2)]
  show "chat_standard_error_body_passes_through D"
    unfolding chat_standard_error_body_passes_through_def status_from_u16_def Let_def
    by (subst b [OF s]) (simp add: json_texts_def, simp, simp add: standard_error_def responses_object_def, simp_all add: api_frame_def print_simps)
  show "gemini_standard_error_body_passes_through D"
    unfolding gemini_standard_error_body_passes_through_def status_from_u16_def Let_def
    by (subst b [OF s]) (simp add: json_texts_def, simp, simp add: standard_error_def responses_object_def, simp_all add: api_frame_def print_simps)
  show "anthropic_standard_error_body_passes_through D"
    unfolding anthropic_standard_error_body_passes_through_def status_from_u16_def Let_def
    by (subst b [OF s]) (simp add: json_texts_def, simp, simp add: standard_error_def responses_object_def, simp_all add: api_frame_def print_simps)
  show "responses_standard_error_body_extracts_fields D"
    unfolding responses_standard_error_body_extracts_fields_def status_from_u16_def Let_def
    by (rule holds_text_ascii,
        rule b [OF s [where kind = Responses and v = "responses_object ''rate_limit_exceeded'' ''slow down'' JNull"]])
      (simp add: json_texts_def, simp, simp add: standard_error_def,
       simp_all add: responses_object_def api_frame_def print_simps starts_with_def ends_with_def)
  show "chat_pretty_printed_reserialized_single_line D"
    unfolding chat_pretty_printed_reserialized_single_line_def status_from_u16_def Let_def
    by (rule holds_text_ascii, rule b [OF s])
      (simp add: json_texts_def, simp, simp add: standard_error_def responses_object_def, simp_all add: api_frame_def print_simps starts_with_def ends_with_def first_line_def)
qed


text \<open>A text that starts and ends with a byte of no white space character is not trimmed.\<close>

lemma trim_unchanged:
  assumes "\<forall>w \<in> set white_space. take (length w) s \<noteq> w" "\<forall>w \<in> set white_space. \<not> ends_with s w"
  shows "str_trim s = s"
proof -
  have "find (\<lambda>w. take (length w) s = w) white_space = None" "find (\<lambda>w. ends_with s w) white_space = None"
    using assms by (auto simp: find_None_iff)
  then show ?thesis by (simp add: str_trim_def trim_start.simps [of s] trim_end.simps [of s])
qed

lemma truncation_test: "message_truncation_lands_on_char_boundary D"
proof -
  let ?b = "replicate 4095 (CHR ''a'') @ [CHR 0xC3, CHR 0xA9, CHR 0xC3, CHR 0xA9]"
  have valid: "utf8_valid ?b"
    by (subst utf8_valid_append [OF utf8_valid_ascii]) (simp_all add: utf8_width_def is_cont_def list_all_length)
  have "?b = CHR ''a'' # replicate 4094 (CHR ''a'') @ [CHR 0xC3, CHR 0xA9, CHR 0xC3, CHR 0xA9]"
    by (simp add: numeral_eq_Suc)
  then have "\<forall>w \<in> set white_space. take (length w) ?b \<noteq> w"
    by (simp only:) (simp add: white_space_def)
  moreover have "\<forall>w \<in> set white_space. \<not> ends_with ?b w"
    by (simp add: white_space_def ends_with_def)
  ultimately have trim: "str_trim ?b = ?b" by (rule trim_unchanged)
  have "back_off ?b 4096 = 4095"
    using back_off.simps(2) [of ?b 4095] back_off.simps(2) [of ?b 4094]
    by (simp add: is_char_boundary_def nth_append is_cont_def)
  then have "message D (Some ?b) None 502 = replicate 4095 (CHR ''a'')"
    by (simp add: message_def valid trim Let_def MAX_MSG_def del: utf8_valid.simps)
  then show ?thesis
    by (simp add: message_truncation_lands_on_char_boundary_def MAX_MSG_def is_char_boundary_def)
qed

section \<open>All tests\<close>

text \<open>The models pass the repository's unit tests: the fifteen of the error events, the twelve
  of the detection, the seven of the boundary tracker and the five of the codings, for every
  behaviour of the byte search, the header values, the codecs, and the JSON parser and printer that
  agrees with their documentation on the texts of the tests.\<close>

lemma unit_tests_pass:
  assumes "memchr2_ok D" "ascii_headers_ok D" "codecs_ok D E" "json_texts_ok D" "json_compact D"
  shows "chat_completions_prefix_invariant \<and> messages_suffix_segment_only \<and> responses_suffix_segment_only \<and>
    non_post_not_matched \<and> gemini_alt_sse_required \<and> stream_flag_probing D \<and>
    accepts_event_stream_exact D \<and> accepts_event_stream_trimmed_whitespace D \<and>
    accepts_event_stream_multi_value_not_matched D \<and> accepts_event_stream_with_parameter_not_matched D \<and>
    accepts_event_stream_missing_header D \<and> accepts_event_stream_empty_value D \<and>
    boundary_lf_lf D \<and> boundary_crlf_crlf D \<and> boundary_mixed_terminators D \<and>
    boundary_mid_event_not_at_boundary D \<and> boundary_split_across_feeds D \<and>
    boundary_cr_only_terminator D \<and> boundary_cr_then_non_newline D \<and>
    parse_single_and_chained D \<and> roundtrip_all_codings D E \<and> decode_bytes_exactly_at_limit_passes D E \<and>
    decode_bytes_one_byte_over_errors D E \<and> decode_bytes_identity_limit D \<and>
    chat_standard_error_body_passes_through D \<and> chat_synthesized_from_non_json_body D \<and>
    chat_connection_failure D \<and> responses_standard_error_body_extracts_fields D \<and>
    responses_synthesized_from_non_json_body D \<and> responses_connection_failure D \<and>
    anthropic_standard_error_body_passes_through D \<and> anthropic_synthesized_429 D \<and>
    anthropic_synthesized_401 D \<and> anthropic_connection_failure D \<and>
    gemini_standard_error_body_passes_through D \<and> gemini_synthesized_500 D \<and> gemini_connection_failure D \<and>
    chat_pretty_printed_reserialized_single_line D \<and> message_truncation_lands_on_char_boundary D"
  by (intro conjI detect_tests stream_flag_probing_ok accept_tests boundary_tests encoding_tests [OF assms(2,3)]
      synthesised_tests connection_failure_tests standard_tests truncation_test assms)

text \<open>An instance of the hypotheses: the sample crates with a parser that knows the texts.\<close>

definition test_deps :: deps where
  "test_deps = codec_deps\<lparr>
     json_from_slice := (\<lambda>t. Option.bind (map_of json_texts t) (\<lambda>r. r)),
     probe_from_slice := (\<lambda>t. Option.bind (Option.bind (map_of json_texts t) (\<lambda>r. r)) probe_of_json)\<rparr>"

lemma json_texts_distinct: "distinct (map fst json_texts)"
  by (simp add: json_texts_def)

lemma test_deps_ok:
  "memchr2_ok test_deps" "ascii_headers_ok test_deps" "codecs_ok test_deps codec_encoders"
  "json_texts_ok test_deps" "json_compact test_deps"
proof -
  show "memchr2_ok test_deps" using codec_deps_ok(2) by (simp add: memchr2_ok_def test_deps_def)
  show "codecs_ok test_deps codec_encoders" using codec_deps_ok(1) by (simp add: codecs_ok_def test_deps_def)
  show "ascii_headers_ok test_deps"
    by (simp add: ascii_headers_ok_def test_deps_def codec_deps_def sample_deps_def visible_def list_all_iff)
  show "json_texts_ok test_deps"
    using map_of_is_SomeI [OF json_texts_distinct] by (auto simp: json_texts_ok_def test_deps_def)
  show "json_compact test_deps"
    by (simp add: json_compact_def test_deps_def codec_deps_def sample_deps_def)
qed

lemma test_deps_pass:
  "gemini_connection_failure test_deps \<and> roundtrip_all_codings test_deps codec_encoders \<and>
   stream_flag_probing test_deps \<and> boundary_cr_then_non_newline test_deps"
  using unit_tests_pass [OF test_deps_ok] by simp

end
