(* ===== verification/Spec2Isabelle.thy ===== *)
theory Spec2Isabelle
  imports Detect Channel Gateway Server Codec Messages Error_Json Unit_Tests
begin

text \<open>
  A verification library for keep-sse, a gateway that keeps the connections of LLM clients alive
  while an upstream is silent: it forwards requests to one upstream, recognises requests for
  streamed answers (server-sent events) and, when the upstream does not answer within one heartbeat
  interval, answers itself with an event stream, sends a comment line at every interval, and joins
  the upstream's answer into it.

  \<^bold>\<open>Parts and theories.\<close>
  \<^item> \<open>Prelude\<close>, \<open>Rust_Str\<close>: byte strings, rule collections, and the string functions of Rust's
    standard library that the program calls (splitting, trimming, UTF-8 boundaries, numbers).
  \<^item> \<open>Externals\<close>: the crates. Values (JSON, URIs, bodies, readers, I/O errors) are data types; the
    crates' algorithms are fields of the record \<open>deps\<close>, an argument \<open>D\<close> of the definitions that use
    them, and what the program relies on is named: \<open>memchr2_ok\<close>, \<open>json_total\<close>, \<open>json_one_line\<close>,
    \<open>streams_ok\<close>, \<open>limited_ok\<close>, \<open>uri_ok\<close>, \<open>uri_parse_ok\<close>, and in the theories that need them \<open>codecs_ok\<close>,
    \<open>empty_decodes\<close>, \<open>json_reads_back\<close>, \<open>reasons_ok\<close> and \<open>mpsc_ok\<close>. \<open>Sample\<close> has an instance for the witnesses.
  \<^item> \<open>Headers\<close>: \<open>HeaderMap\<close> as a list of entries, and the interface \<open>header_store\<close>.
  \<^item> \<open>Detect\<close>: \<open>src/detect.rs\<close>, which endpoint a request is for and whether it asks for a stream.
  \<^item> \<open>Sse_Client\<close>: a specification, not code: how a client reads an event stream. \<open>Api_Error\<close>: another
    one, the error of each API as a function of status, body and reason (\<open>api_error\<close>).
  \<^item> \<open>Boundary\<close>: \<open>EventBoundaryTracker\<close> of \<open>src/sse.rs\<close>, and the interface \<open>boundary_observer\<close>, inside
    which heartbeats at boundaries are shown to be invisible to that client.
  \<^item> \<open>Encoding\<close>: \<open>src/encoding.rs\<close>, content codings, decoding with limits, \<open>SseWriter\<close>; the interface
    \<open>event_sink\<close>. \<open>Channel\<close>: \<open>sse_channel\<close> of \<open>src/sse.rs\<close>, the channel behind the writer; the channel
    itself, tokio's, is a parameter (its possible traces) with the documented laws \<open>mpsc_ok\<close>.
  \<^item> \<open>Error_Event\<close>: \<open>src/error_event.rs\<close>, the error events of the four APIs; the interface
    \<open>event_builder\<close>, interpreted once per API.
  \<^item> \<open>Bridge\<close>: \<open>bridge\<close>, \<open>handle_success\<close>, \<open>handle_error\<close> of \<open>src/sse.rs\<close>. \<open>Delivery\<close>: what their client
    receives. \<open>Lifetime\<close>: when they end, disconnection, the panic of the clock.
  \<^item> \<open>Error_Json\<close>: the type of the JSON values in the error events, and that a client reads back what
    was built. \<open>Codec\<close>: the round trips through the content codings, of requests and of streams.
  \<^item> \<open>Messages\<close>: the types of HTTP messages, and that every operation and path preserves them.
  \<^item> \<open>Pprof\<close>: \<open>src/pprof.rs\<close>, the profiler of a build with that feature.
  \<^item> \<open>Unit_Tests\<close>: the unit tests of \<open>src/detect.rs\<close>, \<open>src/encoding.rs\<close>, \<open>src/error_event.rs\<close> and
    \<open>src/sse.rs\<close>, one definition per test function, and that the models pass them.
  \<^item> \<open>Config\<close>, \<open>Proxy\<close>, \<open>Sse\<close>, \<open>Gateway\<close>, \<open>Server\<close>: \<open>src/config.rs\<close>, \<open>src/proxy.rs\<close>, the entry of
    \<open>src/sse.rs\<close> (\<open>handle_stream\<close>), the dispatch of \<open>src/lib.rs\<close> (\<open>handle\<close>), and \<open>src/server.rs\<close> with
    \<open>src/main.rs\<close>.
  \<^item> This theory: the properties that span components.

  \<^bold>\<open>How the parts interact.\<close> The server calls \<open>handle\<close> for each request; \<open>handle\<close> asks \<open>Detect\<close> and
  \<open>Encoding\<close> and calls the transparent path (\<open>proxy\<close>, \<open>proxy_buffered\<close>) or \<open>handle_stream\<close>. Both
  rewrite the request in the same way and give it to the HTTP client, the parameter \<open>client\<close>.
  \<open>handle_stream\<close> answers at once or spawns a task, a value of type \<open>spawned\<close>, whose execution is
  \<open>run_spawned\<close>; the task writes frames through \<open>SseWriter\<close> and the channel to the response body.
  A connection is a sequence of such calls (\<open>serve_connection\<close>); \<open>main_program\<close> parses the
  configuration, starts the profiler where there is one, binds the listener and runs the server.

  \<^bold>\<open>Modelling.\<close> A chunk of bytes, a header value and a string are lists of HOL characters, which are
  exactly bytes. A panic is a value of the type \<open>rs\<close> (or the status \<open>Panicked\<close> of a task), an error
  a value of a sum. \<open>u64\<close> and \<open>usize\<close> are words of 64 bits and wrap as in a release build. Time is a
  number of nanoseconds, and \<open>instant_max\<close> the last representable instant. A \<open>select!\<close> loop is a
  function over a schedule, the list of the branches that won with the clock reading each makes;
  theorems hold for every schedule, so for every interleaving, and a schedule that ends leaves the
  task pending. The loops consume their schedule, so they need no fuel; \<open>steps_needed\<close> says how
  often the upstream must be ready for a task to return, and \<open>Lifetime\<close> proves that this is enough.
  A client that goes away is the number of frames it still takes (\<open>room\<close>), and \<open>Channel\<close> proves that
  any channel with the documented laws behaves like that. The server is a labelled step relation,
  with its invariants by rule induction over runs.

  \<^bold>\<open>What the groups of lemmas show.\<close> \<open>Boundary\<close>: the accelerated tracker equals the byte by byte one
  and knows exactly when the client is between two events. \<open>Bridge\<close> and \<open>Delivery\<close>: what every run
  sends is the decoded upstream bytes, unchanged and in order, with heartbeats only at boundaries, and
  an error event only after an error; so the client receives the events of an abstract \<open>outcome\<close> that
  does not mention time. \<open>Lifetime\<close>: tasks return, disconnection cuts a run and nothing else.
  \<open>Proxy\<close> and \<open>Gateway\<close>: which headers change, where a request goes, and that its body is never
  altered. \<open>Error_Event\<close>: the builders equal the reference errors of \<open>Api_Error\<close>, byte for byte.
  \<open>Messages\<close>: no header of a single connection and no control character crosses the gateway.
  \<open>Codec\<close>: a compressed request or stream is treated as what it encodes, given that the decoders
  invert the encoders (\<open>codecs_ok\<close>). \<open>Error_Json\<close>: the data of an error event is JSON text of the
  reference error, given that the crate reads back what it prints (\<open>json_reads_back\<close>, for values
  without floating-point numbers and within the parser's depth). \<open>Server\<close>: every request of a
  connection is answered, no connection is accepted during a shutdown, which ends in bounded time.
  \<open>Pprof\<close>: a failed dump never ends the profiler, and it writes only its report files.
  \<open>Unit_Tests\<close>: the models agree with what the repository's own tests assert.

  \<^bold>\<open>What is not modelled.\<close> Logging outside the profiler; the parsing of the command line (clap); the
  inside of the crates (HTTP, JSON, compression, the sampler, the runtime's scheduler); how hyper
  serves and drains an open connection; the trailer frames of bodies (a body is its data frames and
  an error); the integration tests in \<open>tests/gateway.rs\<close>, which drive the program through sockets.
  The order of headers of different names after an insertion or a removal is not that of the crate,
  only the order of the values of each name is; an equality of header maps is to be read name by name.
\<close>

section \<open>Properties that span components\<close>

text \<open>A request for the witnesses: a POST to the Responses endpoint.\<close>

definition sample_parts :: parts where
  "sample_parts =
     \<lparr>p_method = ''POST'',
      p_uri = \<lparr>u_scheme = None, u_authority = None, u_path_and_query = Some ''/v1/responses''\<rparr>,
      p_headers = []\<rparr>"

lemma sample_parts_ok:
  fixes cs defines "cs \<equiv> [''{\"stream\"'', '':true}'']"
  shows "uri_from_parts sample_deps (p_uri sample_parts) = Some (p_uri sample_parts)"
    and "length (concat cs) \<le> unat (rc_max_probe_body sample_cfg)"
    and "endpoint sample_deps sample_parts = Some Responses"
    and "declared_within sample_deps sample_cfg sample_parts"
    and "wants_stream sample_deps sample_cfg sample_parts (concat cs) Responses"
    and "rewrite_request sample_deps sample_cfg (request_from_parts sample_parts (Req_Full (concat cs))) =
      Ret (rewritten sample_deps sample_cfg (request_from_parts sample_parts (Req_Full (concat cs))))"
proof -
  have c: "concat cs = ''{\"stream\":true}''" by (simp add: cs_def)
  show u: "uri_from_parts sample_deps (p_uri sample_parts) = Some (p_uri sample_parts)"
    using sample_uri_valid by (simp add: sample_parts_def)
  show "length (concat cs) \<le> unat (rc_max_probe_body sample_cfg)" by (simp add: c sample_cfg_def)
  show "endpoint sample_deps sample_parts = Some Responses"
    by (simp add: endpoint_def match_endpoint_def ends_with_def sample_deps_def sample_parts_def)
  show "declared_within sample_deps sample_cfg sample_parts"
    by (simp add: declared_within_def content_length_def hm_get_def hm_get_all_def sample_parts_def)
  have "probe_body sample_deps sample_cfg (p_headers sample_parts) (concat cs) = concat cs"
    by (simp add: c probe_body_def parse_content_encoding_def hm_get_all_def decode_bytes_def sample_cfg_def sample_parts_def)
  then show "wants_stream sample_deps sample_cfg sample_parts (concat cs) Responses"
    by (simp add: c wants_stream_def probe_stream_flag_def parse_probe_def) (simp add: sample_deps_def)
  show "rewrite_request sample_deps sample_cfg (request_from_parts sample_parts (Req_Full (concat cs))) =
      Ret (rewritten sample_deps sample_cfg (request_from_parts sample_parts (Req_Full (concat cs))))"
    using u by (intro rewrite_request_rewritten [OF sample_uri_ok sample_cfg_ok]) (simp add: request_from_parts_def)
qed

text \<open>C1: a streaming request to a slow upstream, from the first byte of the request to the last event of
  the response. Whenever a request for a known endpoint asks for streaming and its body is within
  the limit, but the upstream has not answered within the first interval, the client gets a 200
  event stream at once; the upstream is sent the client's body unchanged; and whatever the
  schedule of timer and upstream after that, a client that stays has received, when the task has
  returned, exactly the events of the upstream's answer (its own events if it is a success,
  followed by an error event if it breaks off, or one error event if it is a failure), and at any
  earlier moment the events of a prefix of it.\<close>

theorem slow_stream_end_to_end:
  assumes deps: "memchr2_ok D" "json_total D" "json_one_line D" "limited_ok D" "uri_ok D"
    and req: "config_ok D cfg" "uri_from_parts D (p_uri p) = Some (p_uri p)"
    and body: "body = map Inr cs" "length (concat cs) \<le> unat (rc_max_probe_body cfg)"
    and stream: "endpoint D p = Some kind" "declared_within D cfg p" "wants_stream D cfg p (concat cs) kind"
  shows "\<exists>sent resp task. handle D cfg client Timer_first p body = Ret (Some sent, resp) \<and>
    rs_status resp = 200 \<and>
    hm_get_all (rs_headers resp) ''content-type'' = [''text/event-stream; charset=utf-8''] \<and>
    rs_body resp = Resp_Task task \<and>
    rewrite_request D cfg (request_from_parts p (Req_Full (concat cs))) = Ret sent \<and>
    (\<forall>now0 es.
       let run = run_spawned D task (writer_new None) now0 es;
           oc = outcome D kind (client sent)
       in if snd run = Returned then events_of (task_body run) = outcome_events D kind oc
          else \<exists>q. prefix q (fst oc) \<and> events_of (task_body run) = events_of q)"
proof -
  let ?sent = "rewritten D cfg (request_from_parts p (Req_Full (concat cs)))"
  let ?task = "Spawn_Bridge kind (rc_heartbeat_interval cfg) (client ?sent)"
  let ?resp = "keepalive_response kind (rc_heartbeat_interval cfg) (client ?sent)"
  have "limited_collect D (rc_max_probe_body cfg) body = Inr (concat cs)"
    using deps(4) body unfolding limited_ok_def by simp
  with stream have "handle D cfg client Timer_first p body = handle_stream D cfg client Timer_first p (concat cs) kind"
    by (simp add: handle_probed)
  also have "\<dots> = Ret (Some ?sent, ?resp)"
    using handle_stream_request [OF deps(5) req refl, where race = Timer_first] by simp
  finally have h: "handle D cfg client Timer_first p body = Ret (Some ?sent, ?resp)" .
  have rw: "rewrite_request D cfg (request_from_parts p (Req_Full (concat cs))) = Ret ?sent"
    using req(2) by (intro rewrite_request_rewritten [OF deps(5) req(1)]) (simp add: request_from_parts_def)
  have run: "serves D kind (outcome D kind (client ?sent))
      (sent (writer (fst (run_spawned D ?task (writer_new None) now0 es))))
      (snd (run_spawned D ?task (writer_new None) now0 es))" for now0 es
    unfolding run_spawned_def spawned.case by (rule bridge_serves [OF deps(1-3) refl])
  show ?thesis
    by (intro exI [of _ ?sent] exI [of _ ?resp] exI [of _ ?task] conjI h rw allI)
      (use run in \<open>simp_all add: keepalive_response_def header_laws Let_def serves_def task_body_def writer_end_def
        split: if_split_asm\<close>)
qed

theorem slow_stream_end_to_end_witness:
  "\<exists>sent resp task. handle sample_deps sample_cfg (\<lambda>r. Inl ''refused'') Timer_first sample_parts
       (map Inr [''{\"stream\"'', '':true}'']) = Ret (Some sent, resp) \<and>
     rs_status resp = 200 \<and> rs_body resp = Resp_Task task \<and>
     rewrite_request sample_deps sample_cfg (request_from_parts sample_parts (Req_Full ''{\"stream\":true}'')) = Ret sent \<and>
     (let run = run_spawned sample_deps task (writer_new None) 0 [Fire 60000000000, Ready 61000000000]
      in if snd run = Returned
         then events_of (task_body run) = outcome_events sample_deps Responses (outcome sample_deps Responses (Inl ''refused''))
         else events_of (task_body run) = events_of [])"
proof -
  have "fst (outcome sample_deps Responses (Inl ''refused'')) = []" by (simp add: outcome_def)
  moreover obtain sent resp task where s: "handle sample_deps sample_cfg (\<lambda>r. Inl ''refused'') Timer_first sample_parts
      (map Inr [''{\"stream\"'', '':true}'']) = Ret (Some sent, resp)" "rs_status resp = 200" "rs_body resp = Resp_Task task"
    "rewrite_request sample_deps sample_cfg (request_from_parts sample_parts (Req_Full (concat [''{\"stream\"'', '':true}'']))) = Ret sent"
    and run: "let run = run_spawned sample_deps task (writer_new None) 0 [Fire 60000000000, Ready 61000000000];
        oc = outcome sample_deps Responses (Inl ''refused'')
      in if snd run = Returned then events_of (task_body run) = outcome_events sample_deps Responses oc
         else \<exists>q. prefix q (fst oc) \<and> events_of (task_body run) = events_of q"
    using slow_stream_end_to_end [OF sample_memchr2_ok sample_json_total sample_json_one_line sample_limited_ok
        sample_uri_ok sample_cfg_ok sample_parts_ok(1) refl sample_parts_ok(2-5), of "\<lambda>r. Inl ''refused''"] by blast
  ultimately show ?thesis
    by (intro exI [of _ sent] exI [of _ resp] exI [of _ task]) (simp add: Let_def split: if_split_asm)
qed

text \<open>C2: a streaming request to a fast upstream. When the upstream answers within the first interval,
  the client gets the upstream's status; if that is a success with an event stream in a known
  coding, then without the length and the coding of the upstream's body, and whatever the schedule
  after that, a client that stays has received, when the task has returned, exactly the events of
  the decoded stream, followed by an error event if it breaks off, and at any earlier moment those
  of a prefix of it; any other answer is passed on as on the transparent path.\<close>

theorem fast_stream_end_to_end:
  assumes deps: "memchr2_ok D" "json_total D" "json_one_line D" "limited_ok D" "uri_ok D"
    and req: "config_ok D cfg" "uri_from_parts D (p_uri p) = Some (p_uri p)"
    and body: "body = map Inr cs" "length (concat cs) \<le> unat (rc_max_probe_body cfg)"
    and stream: "endpoint D p = Some kind" "declared_within D cfg p" "wants_stream D cfg p (concat cs) kind"
    and sent: "rewrite_request D cfg (request_from_parts p (Req_Full (concat cs))) = Ret rq" "client rq = Inr up"
  shows "\<exists>resp. handle D cfg client Upstream_first p body = Ret (Some rq, resp) \<and> rs_status resp = up_status up \<and>
    (if is_success (up_status up) \<and> is_event_stream D (up_headers up) \<and>
        parse_content_encoding D (up_headers up) \<noteq> None
     then hm_get_all (rs_headers resp) ''content-length'' = [] \<and>
       hm_get_all (rs_headers resp) ''content-encoding'' = [] \<and>
       (\<exists>task. rs_body resp = Resp_Task task \<and>
         (\<forall>now0 es.
            let run = run_spawned D task (writer_new None) now0 es;
                oc = outcome D kind (Inr up)
            in if snd run = Returned then events_of (task_body run) = outcome_events D kind oc
               else \<exists>q. prefix q (fst oc) \<and> events_of (task_body run) = events_of q))
     else rs_body resp = Resp_Incoming (up_body up) \<and> rs_headers resp = strip_hop_by_hop D (up_headers up))"
proof -
  let ?ce = "parse_content_encoding D (up_headers up)"
  have rw: "rewritten D cfg (request_from_parts p (Req_Full (concat cs))) = rq"
    using sent(1) rewrite_request_rewritten [OF deps(5) req(1)] req(2) by (simp add: request_from_parts_def)
  have "limited_collect D (rc_max_probe_body cfg) body = Inr (concat cs)"
    using deps(4) body unfolding limited_ok_def by simp
  with stream have "handle D cfg client Upstream_first p body = handle_stream D cfg client Upstream_first p (concat cs) kind"
    by (simp add: handle_probed)
  also have "\<dots> = Ret (Some rq, window_response D cfg kind up)"
    by (rule handle_stream_answers(2) [OF deps(5) req rw [symmetric], of client, OF sent(2)])
  finally have h: "handle D cfg client Upstream_first p body = Ret (Some rq, window_response D cfg kind up)" .
  show ?thesis
  proof (cases "is_success (up_status up) \<and> is_event_stream D (up_headers up) \<and> ?ce \<noteq> None")
    case True
    then obtain ce where ce: "?ce = Some ce" by auto
    let ?task = "Spawn_Success kind (rc_heartbeat_interval cfg) ce (up_body up)"
    have "serves D kind (outcome D kind (Inr up)) (sent (writer (fst (run_spawned D ?task (writer_new None) now0 es))))
        (snd (run_spawned D ?task (writer_new None) now0 es))" for now0 es
      using run_spawned_serves [OF deps(1-3) refl, of ?task now0 es] True ce by (simp add: outcome_def)
    with True ce h show ?thesis
      by (simp add: window_response_def passthrough_sse_headers)
        (simp add: passthrough_sse_response_def Let_def serves_def task_body_def writer_end_def)
  next
    case False
    then show ?thesis unfolding h by (auto simp: window_response_def passthrough_response_def)
  qed
qed

theorem fast_stream_end_to_end_witness:
  "\<exists>rq resp. handle sample_deps sample_cfg
       (\<lambda>r. Inr \<lparr>up_status = 503, up_headers = [(''keep-alive'', ''5'')], up_body = [Inr ''busy'']\<rparr>)
       Upstream_first sample_parts (map Inr [''{\"stream\"'', '':true}'']) = Ret (Some rq, resp) \<and>
     rs_status resp = 503 \<and> rs_body resp = Resp_Incoming [Inr ''busy'']"
proof -
  let ?up = "\<lparr>up_status = 503, up_headers = [(''keep-alive'', ''5'')], up_body = [Inr ''busy'']\<rparr>"
  show ?thesis
    using fast_stream_end_to_end [OF sample_memchr2_ok sample_json_total sample_json_one_line sample_limited_ok
        sample_uri_ok sample_cfg_ok sample_parts_ok(1) refl sample_parts_ok(2-5) sample_parts_ok(6),
        of "\<lambda>r. Inr ?up" ?up]
    by (simp add: is_success_def) blast
qed

text \<open>The calls a bridging task makes on its sender: its frames in order and, once it is over (it has
  returned or panicked), the drop of the sender with the writer that owns it.\<close>

definition task_calls :: "task \<times> status \<Rightarrow> chan_event list" where
  "task_calls r = map Accepted (sent (writer (fst r))) @ (if snd r \<noteq> Pending then [Dropped_tx] else [])"

text \<open>C20: through the channel. Let a bridging task run against any channel that behaves as tokio
  documents, made as \<open>sse_channel\<close> makes it, and look at any moment at what has been seen on the
  channel, the task having got through some of its calls. Then the bytes the client has taken are a
  prefix of what a client that stays would get, however many frames this one takes before it goes;
  at most 16 accepted frames wait for it; and the body of a client that stays ends only after the
  task is over, when that client has received exactly the events of the outcome if the task has
  returned, and those of a prefix of the upstream's bytes if it has panicked.\<close>

theorem bridge_through_channel:
  assumes "memchr2_ok D" "json_total D" "json_one_line D" "mpsc_ok M" "sse_channel M tr"
    and run: "\<And>takes. run takes = bridge D kind interval (writer_new takes) now0 upstream es"
    and calls: "prefix (sender_side tr) (task_calls (run takes))"
  shows "prefix (concat (received tr)) (concat (sent (writer (fst (run None))))) \<and>
    (Dropped_rx \<notin> set tr \<longrightarrow> length (accepted tr) \<le> length (received tr) + 16) \<and>
    (takes = None \<longrightarrow> Ended \<in> set tr \<longrightarrow>
       (snd (run None) = Returned \<and>
          events_of (concat (received tr)) = outcome_events D kind (outcome D kind upstream)) \<or>
       (\<exists>m. snd (run None) = Panicked m \<and>
          (\<exists>p. prefix p (fst (outcome D kind upstream)) \<and> events_of (concat (received tr)) = events_of p)))"
proof -
  note laws = mpsc_laws [OF assms(4) assms(5) [unfolded sse_channel_def]]
  note side = sender_prefix [OF calls [unfolded task_calls_def]]
  have pre: "prefix (accepted tr) (sent (writer (fst (run takes))))" by (rule side(1))
  have drop: "Dropped_tx \<in> set tr \<Longrightarrow> snd (run takes) \<noteq> Pending \<and> accepted tr = sent (writer (fst (run takes)))"
    using side(2) by simp
  have "prefix (sent (writer (fst (run takes)))) (sent (writer (fst (run None))))"
    using bridge_cut [OF assms(1,2)] run by (cases takes) (simp_all add: is_cut_def take_is_prefix)
  with laws(1) pre have "prefix (received tr) (sent (writer (fst (run None))))"
    by (blast intro: prefix_order.trans)
  then have "prefix (concat (received tr)) (concat (sent (writer (fst (run None)))))" by (auto simp: prefix_def)
  moreover have "serves D kind (outcome D kind upstream) (sent (writer (fst (run None)))) (snd (run None))"
    using bridge_serves [OF assms(1-3) run [of None, symmetric]] .
  moreover have "Ended \<in> set tr \<Longrightarrow> received tr = sent (writer (fst (run takes))) \<and> snd (run takes) \<noteq> Pending"
    using laws(3) drop by simp
  ultimately show ?thesis
    using laws(2) by (cases "snd (run None)") (auto simp: serves_def CAPACITY_def)
qed

theorem bridge_through_channel_witness:
  "\<exists>ev. sse_channel fifo [Accepted ev, Received ev, Dropped_tx, Ended] \<and>
     events_of ev = outcome_events sample_deps Responses (outcome sample_deps Responses (Inl ''refused''))"
proof -
  define run where "run takes = bridge sample_deps Responses 60 (writer_new takes) 0 (Inl ''refused'') [Ready 5]" for takes
  obtain ev where "build sample_deps Responses None None (Some ''refused'') = Ret ev"
    using build_total [OF sample_json_total] by blast
  then have r: "sent (writer (fst (run None))) = [ev]" "snd (run None) = Returned"
    by (simp_all add: run_def bridge_def wait_upstream_def upstream_done_def task_simps live_def writer_new_def push_def)
  let ?tr = "[Accepted ev, Received ev, Dropped_tx, Ended]"
  have c: "sse_channel fifo ?tr" by (simp add: sse_channel_def fifo_def CAPACITY_def)
  have "prefix (sender_side ?tr) (task_calls (run None))" by (simp add: task_calls_def r)
  from bridge_through_channel [OF sample_memchr2_ok sample_json_total sample_json_one_line fifo_ok c run_def this]
  show ?thesis using c r by (intro exI [of _ ev]) simp
qed


text \<open>An instance with the printer of \<open>tally_deps\<close> and the decoders of \<open>codec_deps\<close>.\<close>

definition wire_deps :: deps where
  "wire_deps = codec_deps\<lparr>json_to_string := json_to_string tally_deps, json_from_slice := json_from_slice tally_deps\<rparr>"

lemma wire_deps_ok:
  "memchr2_ok wire_deps" "json_total wire_deps" "json_one_line wire_deps" "limited_ok wire_deps"
  "codecs_ok wire_deps codec_encoders" "json_reads_back wire_deps" "reasons_ok wire_deps" "body_ok wire_deps body"
proof -
  show "memchr2_ok wire_deps" using codec_deps_ok(2) by (simp add: memchr2_ok_def wire_deps_def)
  show "json_total wire_deps" using tally_deps_ok(1) by (simp add: json_total_def wire_deps_def)
  show "json_one_line wire_deps" using tally_deps_ok(2) by (simp add: json_one_line_def wire_deps_def)
  show "limited_ok wire_deps" using codec_deps_ok(7) by (simp add: limited_ok_def wire_deps_def)
  show "codecs_ok wire_deps codec_encoders" using codec_deps_ok(1) by (simp add: codecs_ok_def wire_deps_def)
  show "json_reads_back wire_deps" using tally_deps_ok(3) by (simp add: json_reads_back_def wire_deps_def)
  show "reasons_ok wire_deps" using tally_deps_ok(4)
    by (simp add: reasons_ok_def wire_deps_def codec_deps_def tally_deps_def)
  show "body_ok wire_deps body" using tally_deps_ok(5) by (simp add: body_ok_def wire_deps_def)
qed


end
